(* ===== verification/Prelude.thy ===== *)
theory Prelude
  imports "HOL-Library.Word"
begin

unbundle bit_operations_syntax

text \<open>
  Shared vocabulary of the development: the fixed-width integer types of the sources, the
  status codes of \<^verbatim>\<open>include/chronos/common/status.hpp\<close> with the result type built on them,
  the collections that carry the component proofs, and generic facts about words and lists.
\<close>

section \<open>Types\<close>

type_synonym byte = "8 word"
type_synonym u8 = "8 word"
type_synonym u16 = "16 word"
type_synonym u32 = "32 word"
type_synonym u64 = "64 word"

text \<open>The status codes, in the order of the enumeration. The diagnostic message that a
  \<^verbatim>\<open>Status\<close> carries next to its code never influences control flow and is left out.\<close>

datatype StatusCode =
    kOk
  | kCancelled
  | kInvalidArgument
  | kOutOfRange
  | kNotFound
  | kAlreadyExists
  | kCorruption
  | kIoError
  | kResourceExhausted
  | kUnavailable
  | kNotSupported
  | kUnauthenticated
  | kInternal

text \<open>\<^verbatim>\<open>common::Result<T>\<close>: the error status or the value.\<close>

type_synonym 'a result = "StatusCode + 'a"

definition is_ok :: "StatusCode \<Rightarrow> bool" where
  "is_ok code = (code = kOk)"

text \<open>\<^verbatim>\<open>make_unexpected\<close> never lets a success status travel as an error.\<close>

definition make_unexpected :: "StatusCode \<Rightarrow> 'a result" where
  "make_unexpected code = (if is_ok code then Inl kInternal else Inl code)"

text \<open>\<^verbatim>\<open>has_value\<close> of \<^verbatim>\<open>std::expected\<close>, as a predicate on the sum.\<close>

definition has_value :: "'e + 'a \<Rightarrow> bool" where
  "has_value r = (case r of Inl _ \<Rightarrow> False | Inr _ \<Rightarrow> True)"

text \<open>Stores consecutive elements into a buffer, one index after the other: the effect of the
  byte loops, \<^verbatim>\<open>std::memmove\<close>, \<^verbatim>\<open>std::copy\<close> and \<^verbatim>\<open>std::fill_n\<close> calls of the codecs on the
  destination. (The sources check the bounds first; an out-of-range store changes nothing.)\<close>

fun write_at :: "'a list \<Rightarrow> nat \<Rightarrow> 'a list \<Rightarrow> 'a list" where
  "write_at buf off [] = buf"
| "write_at buf off (x # xs) = write_at (buf[off := x]) (Suc off) xs"

text \<open>\<^verbatim>\<open>subspan(offset, count)\<close>.\<close>

definition subspan :: "'a list \<Rightarrow> nat \<Rightarrow> nat \<Rightarrow> 'a list" where
  "subspan xs off n = take n (drop off xs)"

text \<open>\<^verbatim>\<open>std::adjacent_find(xs) == xs.end()\<close>.\<close>

fun no_adjacent_equal :: "'a list \<Rightarrow> bool" where
  "no_adjacent_equal [] = True"
| "no_adjacent_equal [x] = True"
| "no_adjacent_equal (x # y # zs) = (x \<noteq> y \<and> no_adjacent_equal (y # zs))"

text \<open>\<^verbatim>\<open>std::ranges::set_union\<close> of two sorted ranges.\<close>

fun set_union :: "'a::linorder list \<Rightarrow> 'a list \<Rightarrow> 'a list" where
  "set_union [] ys = ys"
| "set_union (x # xs) [] = x # xs"
| "set_union (x # xs) (y # ys) =
     (if x < y then x # set_union xs (y # ys)
      else if y < x then y # set_union (x # xs) ys
      else x # set_union xs ys)"

section \<open>Collections\<close>

named_theorems codec_simps \<open>reader and writer steps on concatenated buffers\<close>
named_theorems node_simps \<open>field equations of the Raft node operations\<close>
named_theorems node_inv \<open>preservation of the Raft node invariant\<close>

section \<open>Results\<close>

lemma make_unexpected_error [simp]: "\<not> has_value (make_unexpected code)"
  by (simp add: make_unexpected_def has_value_def)

lemma make_unexpected_Inr [simp]: "make_unexpected e \<noteq> Inr x" "Inr x \<noteq> make_unexpected e"
  by (simp_all add: make_unexpected_def)

lemma has_value_simps [simp]: "has_value (Inr x)" "\<not> has_value (Inl e)"
  by (simp_all add: has_value_def)

lemma has_value_iff: "has_value r \<longleftrightarrow> (\<exists>x. r = Inr x)"
  by (cases r) simp_all

section \<open>Lists\<close>

lemma length_write_at [simp]: "length (write_at buf off xs) = length buf"
  by (induction buf off xs rule: write_at.induct) simp_all

lemma write_at_eq:
  "off + length xs \<le> length buf \<Longrightarrow>
   write_at buf off xs = take off buf @ xs @ drop (off + length xs) buf"
proof (induction buf off xs rule: write_at.induct)
  case (1 buf off)
  then show ?case by simp
next
  case (2 buf off x xs)
  have "take (Suc off) (buf[off := x]) = take off buf @ [x]"
    using 2 by (simp add: take_Suc_conv_app_nth)
  with 2 show ?case by simp
qed

lemma no_adjacent_equal_sorted_distinct:
  "sorted xs \<Longrightarrow> no_adjacent_equal xs \<longleftrightarrow> distinct xs"
proof (induction xs rule: no_adjacent_equal.induct)
  case (3 x y zs)
  then show ?case by (auto simp: order.antisym)
qed simp_all

lemma set_union_Nil2 [simp]: "set_union xs [] = xs"
  by (cases xs) simp_all

lemma set_union_eq_Nil [simp]: "set_union xs ys = [] \<longleftrightarrow> xs = [] \<and> ys = []"
  by (cases xs; cases ys) simp_all

lemma set_set_union [simp]: "set (set_union xs ys) = set xs \<union> set ys"
  by (induction xs ys rule: set_union.induct) auto

lemma sorted_set_union: "sorted xs \<Longrightarrow> sorted ys \<Longrightarrow> sorted (set_union xs ys)"
  by (induction xs ys rule: set_union.induct) auto

lemma distinct_set_union:
  "sorted xs \<Longrightarrow> sorted ys \<Longrightarrow> distinct xs \<Longrightarrow> distinct ys \<Longrightarrow> distinct (set_union xs ys)"
  by (induction xs ys rule: set_union.induct) (auto dest: order.antisym)

section \<open>Words\<close>

lemma word_less_max: "(w :: 'a::len word) \<noteq> - 1 \<longleftrightarrow> w < - 1"
  by (simp add: word_order.not_eq_extremum)

lemma unat_Suc_word: "(w :: 'a::len word) \<noteq> - 1 \<Longrightarrow> unat (w + 1) = Suc (unat w)"
  using unatSuc [of w] by (simp add: eq_neg_iff_add_eq_0 add.commute)

lemma word_less_Suc: "(w :: 'a::len word) \<noteq> - 1 \<Longrightarrow> w < w + 1"
  by (simp add: word_less_nat_alt unat_Suc_word)

lemma unat_of_nat_small: "n < 2 ^ LENGTH('a) \<Longrightarrow> unat (of_nat n :: 'a::len word) = n"
  by (simp add: unsigned_of_nat take_bit_nat_eq_self)

lemma of_nat_unat_word: "of_nat (unat w) = (w :: 'a::len word)"
  by simp

end
