(* ===== verification/Raft_Types.thy ===== *)
theory Raft_Types
  imports Prelude
begin

text \<open>
  The data model of \<^verbatim>\<open>include/chronos/raft/types.hpp\<close>: log entries, snapshot metadata, the
  persistent state, the eight wire messages, and the transition that an operation of the node hands
  to its runtime. Field names carry a prefix where two structs of the source share a name.
\<close>

type_synonym NodeId = u64
type_synonym Term = u64
type_synonym LogIndex = u64

datatype Role = kFollower | kCandidate | kLeader

record LogEntry =
  entry_index :: LogIndex
  entry_term :: Term
  entry_type :: u8
  entry_payload :: "byte list"

record SnapshotMetadata =
  last_included_index :: LogIndex
  last_included_term :: Term
  manifest_generation :: u64
  part_set_checksum :: "byte list"
  configuration_index :: LogIndex
  snapshot_voters :: "NodeId list"

record PersistentState =
  current_term :: Term
  voted_for :: "NodeId option"
  log :: "LogEntry list"
  commit_index :: LogIndex
  applied_index :: LogIndex
  snapshot :: SnapshotMetadata

record RequestVoteRequest =
  rv_term :: Term
  candidate_id :: NodeId
  last_log_index :: LogIndex
  last_log_term :: Term

record RequestVoteResponse =
  rvr_term :: Term
  granted :: bool

record AppendEntriesRequest =
  ae_term :: Term
  ae_leader_id :: NodeId
  previous_log_index :: LogIndex
  previous_log_term :: Term
  ae_entries :: "LogEntry list"
  leader_commit :: LogIndex

record AppendEntriesResponse =
  aer_term :: Term
  aer_success :: bool
  aer_match_index :: LogIndex
  conflict_term :: "Term option"
  conflict_index :: LogIndex

record InstallSnapshotRequest =
  is_term :: Term
  is_leader_id :: NodeId
  is_snapshot :: SnapshotMetadata

record InstallSnapshotResponse =
  isr_term :: Term
  isr_success :: bool
  isr_last_included_index :: LogIndex

record ReadBarrierRequest =
  rb_term :: Term
  rb_leader_id :: NodeId
  rb_context :: u64

record ReadBarrierResponse =
  rbr_term :: Term
  rbr_context :: u64
  rbr_accepted :: bool

datatype Message =
    RequestVote RequestVoteRequest
  | RequestVoteReply RequestVoteResponse
  | AppendEntries AppendEntriesRequest
  | AppendEntriesReply AppendEntriesResponse
  | InstallSnapshot InstallSnapshotRequest
  | InstallSnapshotReply InstallSnapshotResponse
  | ReadBarrierProbe ReadBarrierRequest
  | ReadBarrierReply ReadBarrierResponse

text \<open>\<^verbatim>\<open>std::visit([](const auto& value) { return value.term; }, message)\<close>.\<close>

fun message_term :: "Message \<Rightarrow> Term" where
  "message_term (RequestVote m) = rv_term m"
| "message_term (RequestVoteReply m) = rvr_term m"
| "message_term (AppendEntries m) = ae_term m"
| "message_term (AppendEntriesReply m) = aer_term m"
| "message_term (InstallSnapshot m) = is_term m"
| "message_term (InstallSnapshotReply m) = isr_term m"
| "message_term (ReadBarrierProbe m) = rb_term m"
| "message_term (ReadBarrierReply m) = rbr_term m"

record OutboundMessage =
  destination :: NodeId
  message :: Message

record PendingSnapshotInstall =
  install_source :: NodeId
  install_snapshot :: SnapshotMetadata

record ReadBarrier =
  barrier_term :: Term
  barrier_context :: u64
  read_index :: LogIndex

record Transition =
  persistent_state :: "PersistentState option"
  outbound :: "OutboundMessage list"
  advanced_commit_index :: "LogIndex option"
  snapshot_install :: "PendingSnapshotInstall option"
  read_barrier_ready :: "ReadBarrier option"

definition empty_transition :: Transition where
  "empty_transition = \<lparr>persistent_state = None, outbound = [], advanced_commit_index = None,
                       snapshot_install = None, read_barrier_ready = None\<rparr>"

text \<open>The default-constructed snapshot and state.\<close>

definition empty_snapshot :: SnapshotMetadata where
  "empty_snapshot = \<lparr>last_included_index = 0, last_included_term = 0, manifest_generation = 0,
                     part_set_checksum = replicate 32 0, configuration_index = 0,
                     snapshot_voters = []\<rparr>"

definition empty_state :: PersistentState where
  "empty_state = \<lparr>current_term = 0, voted_for = None, log = [], commit_index = 0,
                  applied_index = 0, snapshot = empty_snapshot\<rparr>"

end
