(* ===== verification/Byte_Codec.thy ===== *)
theory Byte_Codec
  imports Prelude
begin

unbundle bit_operations_syntax

text \<open>
  The bounded byte cursors of \<^verbatim>\<open>src/common/byte_reader.cpp\<close> and
  \<^verbatim>\<open>src/common/byte_writer.cpp\<close>, and the little-endian load and store loops that they and the
  codecs of the other components share. A cursor is a buffer with an offset; each operation returns
  its status and the cursor afterwards. The lemmas show that a failed operation leaves the cursor
  unchanged, that no operation leaves the buffer, and that what was written is read back.
\<close>

section \<open>Little-endian loops\<close>

text \<open>\<^verbatim>\<open>value |= byte << (index * 8U)\<close> over the bytes of the field.\<close>

fun load_le_loop :: "byte list \<Rightarrow> nat \<Rightarrow> 'a::len word \<Rightarrow> 'a word" where
  "load_le_loop [] index v = v"
| "load_le_loop (b # bs) index v =
     load_le_loop bs (Suc index) (v OR push_bit (index * 8) (ucast b))"

definition load_le :: "byte list \<Rightarrow> 'a::len word" where
  "load_le bs = load_le_loop bs 0 0"

text \<open>\<^verbatim>\<open>(value >> (index * 8U)) & 0xffU\<close> for \<^verbatim>\<open>index = 0 .. width - 1\<close>.\<close>

definition store_le :: "nat \<Rightarrow> 'a::len word \<Rightarrow> byte list" where
  "store_le width v = map (\<lambda>index. ucast (drop_bit (index * 8) v AND 0xff)) [0..<width]"

section \<open>ByteReader\<close>

record ByteReader =
  rd_bytes :: "byte list"
  rd_offset :: nat

definition make_reader :: "byte list \<Rightarrow> ByteReader" where
  "make_reader bytes = \<lparr>rd_bytes = bytes, rd_offset = 0\<rparr>"

definition rd_remaining :: "ByteReader \<Rightarrow> nat" where
  "rd_remaining r = length (rd_bytes r) - rd_offset r"

definition rd_empty :: "ByteReader \<Rightarrow> bool" where
  "rd_empty r = (rd_remaining r = 0)"

definition read_unsigned_le :: "ByteReader \<Rightarrow> nat \<Rightarrow> u64 result \<times> ByteReader" where
  "read_unsigned_le r width =
     (if width > rd_remaining r then (Inl kOutOfRange, r)
      else (Inr (load_le (subspan (rd_bytes r) (rd_offset r) width)),
            r\<lparr>rd_offset := rd_offset r + width\<rparr>))"

definition read_u8 :: "ByteReader \<Rightarrow> u8 result \<times> ByteReader" where
  "read_u8 r = map_prod (map_sum id ucast) id (read_unsigned_le r 1)"

definition read_u16_le :: "ByteReader \<Rightarrow> u16 result \<times> ByteReader" where
  "read_u16_le r = map_prod (map_sum id ucast) id (read_unsigned_le r 2)"

definition read_u32_le :: "ByteReader \<Rightarrow> u32 result \<times> ByteReader" where
  "read_u32_le r = map_prod (map_sum id ucast) id (read_unsigned_le r 4)"

definition read_u64_le :: "ByteReader \<Rightarrow> u64 result \<times> ByteReader" where
  "read_u64_le r = read_unsigned_le r 8"

text \<open>\<^verbatim>\<open>std::bit_cast\<close> to the signed type of the same width is the two's complement reading.\<close>

definition read_i8 :: "ByteReader \<Rightarrow> int result \<times> ByteReader" where
  "read_i8 r = map_prod (map_sum id sint) id (read_u8 r)"

definition read_i16_le :: "ByteReader \<Rightarrow> int result \<times> ByteReader" where
  "read_i16_le r = map_prod (map_sum id sint) id (read_u16_le r)"

definition read_i32_le :: "ByteReader \<Rightarrow> int result \<times> ByteReader" where
  "read_i32_le r = map_prod (map_sum id sint) id (read_u32_le r)"

definition read_i64_le :: "ByteReader \<Rightarrow> int result \<times> ByteReader" where
  "read_i64_le r = map_prod (map_sum id sint) id (read_u64_le r)"

definition peek_exact :: "ByteReader \<Rightarrow> nat \<Rightarrow> byte list result" where
  "peek_exact r sz =
     (if sz > rd_remaining r then Inl kOutOfRange
      else Inr (subspan (rd_bytes r) (rd_offset r) sz))"

definition read_exact :: "ByteReader \<Rightarrow> nat \<Rightarrow> byte list result \<times> ByteReader" where
  "read_exact r sz =
     (case peek_exact r sz of
        Inl e \<Rightarrow> (Inl e, r)
      | Inr bytes \<Rightarrow> (Inr bytes, r\<lparr>rd_offset := rd_offset r + sz\<rparr>))"

definition rd_skip :: "ByteReader \<Rightarrow> nat \<Rightarrow> StatusCode \<times> ByteReader" where
  "rd_skip r sz =
     (if sz > rd_remaining r then (kOutOfRange, r)
      else (kOk, r\<lparr>rd_offset := rd_offset r + sz\<rparr>))"

definition read_subreader :: "ByteReader \<Rightarrow> nat \<Rightarrow> ByteReader result \<times> ByteReader" where
  "read_subreader r sz = map_prod (map_sum id make_reader) id (read_exact r sz)"

section \<open>ByteWriter\<close>

record ByteWriter =
  wr_bytes :: "byte list"
  wr_offset :: nat

definition make_writer :: "byte list \<Rightarrow> ByteWriter" where
  "make_writer bytes = \<lparr>wr_bytes = bytes, wr_offset = 0\<rparr>"

definition wr_remaining :: "ByteWriter \<Rightarrow> nat" where
  "wr_remaining w = length (wr_bytes w) - wr_offset w"

definition wr_full :: "ByteWriter \<Rightarrow> bool" where
  "wr_full w = (wr_remaining w = 0)"

definition write_unsigned_le :: "ByteWriter \<Rightarrow> u64 \<Rightarrow> nat \<Rightarrow> StatusCode \<times> ByteWriter" where
  "write_unsigned_le w v width =
     (if width > wr_remaining w then (kOutOfRange, w)
      else (kOk, w\<lparr>wr_bytes := write_at (wr_bytes w) (wr_offset w) (store_le width v),
                   wr_offset := wr_offset w + width\<rparr>))"

definition write_u8 :: "ByteWriter \<Rightarrow> u8 \<Rightarrow> StatusCode \<times> ByteWriter" where
  "write_u8 w v = write_unsigned_le w (ucast v) 1"

definition write_u16_le :: "ByteWriter \<Rightarrow> u16 \<Rightarrow> StatusCode \<times> ByteWriter" where
  "write_u16_le w v = write_unsigned_le w (ucast v) 2"

definition write_u32_le :: "ByteWriter \<Rightarrow> u32 \<Rightarrow> StatusCode \<times> ByteWriter" where
  "write_u32_le w v = write_unsigned_le w (ucast v) 4"

definition write_u64_le :: "ByteWriter \<Rightarrow> u64 \<Rightarrow> StatusCode \<times> ByteWriter" where
  "write_u64_le w v = write_unsigned_le w v 8"

definition write_i8 :: "ByteWriter \<Rightarrow> int \<Rightarrow> StatusCode \<times> ByteWriter" where
  "write_i8 w v = write_u8 w (word_of_int v)"

definition write_i16_le :: "ByteWriter \<Rightarrow> int \<Rightarrow> StatusCode \<times> ByteWriter" where
  "write_i16_le w v = write_u16_le w (word_of_int v)"

definition write_i32_le :: "ByteWriter \<Rightarrow> int \<Rightarrow> StatusCode \<times> ByteWriter" where
  "write_i32_le w v = write_u32_le w (word_of_int v)"

definition write_i64_le :: "ByteWriter \<Rightarrow> int \<Rightarrow> StatusCode \<times> ByteWriter" where
  "write_i64_le w v = write_u64_le w (word_of_int v)"

definition write_exact :: "ByteWriter \<Rightarrow> byte list \<Rightarrow> StatusCode \<times> ByteWriter" where
  "write_exact w bytes =
     (if length bytes > wr_remaining w then (kOutOfRange, w)
      else (kOk, w\<lparr>wr_bytes := write_at (wr_bytes w) (wr_offset w) bytes,
                   wr_offset := wr_offset w + length bytes\<rparr>))"

definition zero_fill :: "ByteWriter \<Rightarrow> nat \<Rightarrow> StatusCode \<times> ByteWriter" where
  "zero_fill w sz =
     (if sz > wr_remaining w then (kOutOfRange, w)
      else (kOk, w\<lparr>wr_bytes := write_at (wr_bytes w) (wr_offset w) (replicate sz 0),
                   wr_offset := wr_offset w + sz\<rparr>))"

section \<open>Sequences of fields\<close>

text \<open>\<^verbatim>\<open>if (status.is_ok()) status = writer.write(...)\<close>: the next write happens only while the
  status is ok.\<close>

definition and_then ::
    "StatusCode \<times> ByteWriter \<Rightarrow> (ByteWriter \<Rightarrow> StatusCode \<times> ByteWriter) \<Rightarrow> StatusCode \<times> ByteWriter" where
  "and_then sw f = (if is_ok (fst sw) then f (snd sw) else sw)"

text \<open>The loops of the codecs that write, or read, a run of fields one after the other and stop at
  the first status that is not ok.\<close>

fun write_fields ::
    "(ByteWriter \<Rightarrow> 'v \<Rightarrow> StatusCode \<times> ByteWriter) \<Rightarrow> ByteWriter \<Rightarrow> 'v list \<Rightarrow> StatusCode \<times> ByteWriter"
    where
  "write_fields wr w [] = (kOk, w)"
| "write_fields wr w (v # vs) =
     (case wr w v of (code, w') \<Rightarrow> if is_ok code then write_fields wr w' vs else (code, w'))"

fun read_fields ::
    "(ByteReader \<Rightarrow> 'v result \<times> ByteReader) \<Rightarrow> ByteReader \<Rightarrow> nat \<Rightarrow> 'v list result \<times> ByteReader"
    where
  "read_fields rd r 0 = (Inr [], r)"
| "read_fields rd r (Suc n) =
     (case rd r of
        (Inl e, r') \<Rightarrow> (Inl e, r')
      | (Inr v, r') \<Rightarrow>
          (case read_fields rd r' n of
             (Inl e, r'') \<Rightarrow> (Inl e, r'')
           | (Inr vs, r'') \<Rightarrow> (Inr (v # vs), r'')))"

section \<open>Cursor positions used in the proofs\<close>

text \<open>The reader after consuming \<open>pre\<close> of \<open>pre @ rest\<close>, and the writer that has written
  \<open>xs\<close> into a zeroed buffer with \<open>k\<close> bytes left.\<close>

definition reader_at :: "byte list \<Rightarrow> byte list \<Rightarrow> ByteReader" where
  "reader_at pre rest = \<lparr>rd_bytes = pre @ rest, rd_offset = length pre\<rparr>"

definition writer_at :: "byte list \<Rightarrow> nat \<Rightarrow> ByteWriter" where
  "writer_at xs k = \<lparr>wr_bytes = xs @ replicate k 0, wr_offset = length xs\<rparr>"

definition rd_wf :: "ByteReader \<Rightarrow> bool" where
  "rd_wf r = (rd_offset r \<le> length (rd_bytes r))"

definition wr_wf :: "ByteWriter \<Rightarrow> bool" where
  "wr_wf w = (wr_offset w \<le> length (wr_bytes w))"

section \<open>Loads and stores\<close>

lemma load_le_loop_eq:
  "load_le_loop bs i v = v OR push_bit (i * 8) (load_le_loop bs 0 0 :: 'a::len word)"
proof (induction bs arbitrary: i v)
  case Nil
  then show ?case by simp
next
  case (Cons b bs)
  have "load_le_loop (b # bs) i v
      = (v OR push_bit (i * 8) (ucast b)) OR push_bit (Suc i * 8) (load_le_loop bs 0 0)"
    by (simp add: Cons.IH [of "Suc i"])
  also have "\<dots> = v OR push_bit (i * 8) (ucast b OR push_bit 8 (load_le_loop bs 0 0))"
    by (rule bit_word_eqI) (auto simp: bit_or_iff bit_push_bit_iff add.commute)
  also have "\<dots> = v OR push_bit (i * 8) (load_le_loop (b # bs) 0 0)"
    using Cons.IH [of "Suc 0" "ucast b"] by simp
  finally show ?case .
qed

lemma load_le_Nil [simp]: "load_le [] = 0"
  by (simp add: load_le_def)

lemma load_le_Cons:
  "load_le (b # bs) = ucast b OR push_bit 8 (load_le bs :: 'a::len word)"
  using load_le_loop_eq [of bs "Suc 0" "ucast b :: 'a word"] by (simp add: load_le_def)

lemma bit_load_le:
  "bit (load_le bs :: 'a::len word) k \<longleftrightarrow>
     k < LENGTH('a) \<and> k < 8 * length bs \<and> bit (bs ! (k div 8)) (k mod 8)"
proof (induction bs arbitrary: k)
  case Nil
  then show ?case by simp
next
  case (Cons b bs)
  show ?case
  proof (cases "k < 8")
    case True
    then show ?thesis
      by (auto simp: load_le_Cons bit_or_iff bit_push_bit_iff bit_ucast_iff dest: bit_imp_le_length)
  next
    case False
    then have "k div 8 = Suc ((k - 8) div 8)" and "k mod 8 = (k - 8) mod 8"
      by (simp_all add: le_div_geq le_mod_geq)
    moreover have "\<not> bit b k"
      using False by (auto dest: bit_imp_le_length)
    ultimately show ?thesis
      using False by (auto simp: load_le_Cons bit_or_iff bit_push_bit_iff bit_ucast_iff Cons.IH)
  qed
qed

lemma length_store_le [simp]: "length (store_le n v) = n"
  by (simp add: store_le_def)

lemma store_le_nth:
  "i < n \<Longrightarrow> store_le n v ! i = ucast (drop_bit (i * 8) v AND 0xff)"
  by (simp add: store_le_def)

lemma store_le_ucast [simp]:
  "LENGTH('a) \<le> LENGTH('b) \<Longrightarrow> store_le n (ucast (v :: 'a::len word) :: 'b::len word) = store_le n v"
proof -
  assume "LENGTH('a) \<le> LENGTH('b)"
  then have "ucast (drop_bit k (ucast v :: 'b word) AND 0xff) = (ucast (drop_bit k v AND 0xff) :: byte)"
    for k
    by (intro bit_word_eqI)
      (auto simp: bit_ucast_iff bit_and_iff bit_drop_bit_eq bit_numeral_rec dest: bit_imp_le_length)
  then show ?thesis
    by (simp add: store_le_def)
qed

lemma load_store_le: "load_le (store_le n v) = take_bit (8 * n) (v :: 'a::len word)"
proof (rule bit_word_eqI)
  fix k
  assume "k < LENGTH('a)"
  have mask: "(0xff :: 'a word) = mask 8"
    by (simp add: mask_eq_exp_minus_1)
  show "bit (load_le (store_le n v) :: 'a word) k = bit (take_bit (8 * n) v) k"
  proof (cases "k < 8 * n")
    case True
    then have "k div 8 < n" by simp
    then have "bit (store_le n v ! (k div 8)) (k mod 8)
        = bit (drop_bit (k div 8 * 8) v AND mask 8) (k mod 8)"
      by (simp add: store_le_nth bit_ucast_iff mask)
    also have "\<dots> = bit v k"
      using \<open>k < LENGTH('a)\<close>
      by (auto simp: bit_and_iff bit_drop_bit_eq bit_mask_iff le_less_trans [OF mod_less_eq_dividend])
    finally show ?thesis
      using True \<open>k < LENGTH('a)\<close> by (simp add: bit_load_le bit_take_bit_iff)
  next
    case False
    then show ?thesis by (simp add: bit_load_le bit_take_bit_iff)
  qed
qed

lemma load_store_le_full: "LENGTH('a) \<le> 8 * n \<Longrightarrow> load_le (store_le n v) = (v :: 'a::len word)"
  by (simp add: load_store_le take_bit_word_eq_self)

lemma ucast_take_bit_ucast:
  "LENGTH('a) \<le> n \<Longrightarrow> ucast (take_bit n (ucast v :: 'b::len word)) = (v :: 'a::len word)"
  if "LENGTH('a) \<le> LENGTH('b)"
  using that by (intro bit_word_eqI) (simp add: bit_ucast_iff bit_take_bit_iff)

lemma load_store_le_ucast:
  "ucast (load_le (store_le n v) :: u64) = (v :: 'a::len word)"
  if "LENGTH('a) \<le> 64" "LENGTH('a) \<le> 8 * n"
  using that load_store_le [of n "ucast v :: u64"] by (simp add: ucast_take_bit_ucast)

lemma load_le_inject:
  assumes "length bs = length cs" and "8 * length bs \<le> LENGTH('a)"
    and "load_le bs = (load_le cs :: 'a::len word)"
  shows "bs = cs"
proof (rule nth_equalityI)
  fix i
  assume i: "i < length bs"
  show "bs ! i = cs ! i"
  proof (rule bit_word_eqI)
    fix k
    assume "k < LENGTH(8)"
    then have k: "(8 * i + k) div 8 = i" "(8 * i + k) mod 8 = k" "8 * i + k < 8 * length bs"
      using i by auto
    have "bit (load_le bs :: 'a word) (8 * i + k) = bit (load_le cs :: 'a word) (8 * i + k)"
      by (simp add: assms(3))
    then show "bit (bs ! i) k = bit (cs ! i) k"
      using k assms(1,2) by (auto simp: bit_load_le)
  qed
qed (rule assms(1))

section \<open>Reader steps\<close>

lemma subspan_length [simp]: "off + n \<le> length xs \<Longrightarrow> length (subspan xs off n) = n"
  by (simp add: subspan_def)

lemma rd_remaining_at [codec_simps]: "rd_remaining (reader_at pre rest) = length rest"
  by (simp add: rd_remaining_def reader_at_def)

lemma rd_empty_at [codec_simps]: "rd_empty (reader_at pre rest) = (rest = [])"
  by (simp add: rd_empty_def rd_remaining_at)

lemma make_reader_at: "make_reader bytes = reader_at [] bytes"
  by (simp add: make_reader_def reader_at_def)

lemma read_unsigned_le_at:
  "length xs = n \<Longrightarrow>
   read_unsigned_le (reader_at pre (xs @ rest)) n = (Inr (load_le xs), reader_at (pre @ xs) rest)"
  by (simp add: read_unsigned_le_def rd_remaining_at subspan_def) (simp add: reader_at_def)

lemma read_unsigned_le_inv:
  assumes "read_unsigned_le (reader_at pre rest) n = (Inr v, r)"
  shows "\<exists>xs rest'. rest = xs @ rest' \<and> length xs = n \<and> v = load_le xs \<and>
           r = reader_at (pre @ xs) rest'"
proof (intro exI conjI)
  have fits: "n \<le> length rest"
    using assms by (simp add: read_unsigned_le_def rd_remaining_at split: if_splits)
  show "rest = take n rest @ drop n rest" by simp
  show "length (take n rest) = n" using fits by simp
  then have "read_unsigned_le (reader_at pre rest) n
      = (Inr (load_le (take n rest)), reader_at (pre @ take n rest) (drop n rest))"
    using read_unsigned_le_at [of "take n rest" n pre "drop n rest"] by simp
  with assms show "v = load_le (take n rest)" "r = reader_at (pre @ take n rest) (drop n rest)"
    by simp_all
qed

lemma store_load_le:
  assumes "length xs = n" and "8 * n \<le> LENGTH('a)"
  shows "store_le n (load_le xs :: 'a::len word) = xs"
proof (rule load_le_inject [where 'a = 'a])
  show "load_le (store_le n (load_le xs :: 'a word)) = (load_le xs :: 'a word)"
    by (rule bit_word_eqI) (auto simp: load_store_le bit_take_bit_iff bit_load_le assms(1))
qed (use assms in simp_all)

lemma store_load_le_ucast:
  assumes "length xs = n" and "8 * n = LENGTH('a)" and "LENGTH('a) \<le> 64"
  shows "store_le n (ucast (load_le xs :: u64) :: 'a::len word) = xs"
proof -
  have "(ucast (load_le xs :: u64) :: 'a word) = load_le xs"
    using assms by (intro bit_word_eqI) (auto simp: bit_ucast_iff bit_load_le)
  with assms show ?thesis by (simp add: store_load_le)
qed

lemma read_u8_at [codec_simps]:
  "read_u8 (reader_at pre (store_le 1 v @ rest))
     = (Inr v, reader_at (pre @ store_le 1 v) rest)"
  by (simp add: read_u8_def read_unsigned_le_at load_store_le_ucast)

lemma read_u16_le_at [codec_simps]:
  "read_u16_le (reader_at pre (store_le 2 v @ rest))
     = (Inr v, reader_at (pre @ store_le 2 v) rest)"
  by (simp add: read_u16_le_def read_unsigned_le_at load_store_le_ucast)

lemma read_u32_le_at [codec_simps]:
  "read_u32_le (reader_at pre (store_le 4 v @ rest))
     = (Inr v, reader_at (pre @ store_le 4 v) rest)"
  by (simp add: read_u32_le_def read_unsigned_le_at load_store_le_ucast)

lemma read_u64_le_at [codec_simps]:
  "read_u64_le (reader_at pre (store_le 8 v @ rest))
     = (Inr v, reader_at (pre @ store_le 8 v) rest)"
  by (simp add: read_u64_le_def read_unsigned_le_at load_store_le_full)

lemma read_exact_at [codec_simps]:
  "length xs = n \<Longrightarrow>
   read_exact (reader_at pre (xs @ rest)) n = (Inr xs, reader_at (pre @ xs) rest)"
  by (simp add: read_exact_def peek_exact_def rd_remaining_at subspan_def)
    (simp add: reader_at_def)

section \<open>Writer steps\<close>

lemma make_writer_at: "make_writer (replicate n 0) = writer_at [] n"
  by (simp add: make_writer_def writer_at_def)

lemma wr_remaining_at [codec_simps]: "wr_remaining (writer_at xs k) = k"
  by (simp add: wr_remaining_def writer_at_def)

lemma wr_full_at [codec_simps]: "wr_full (writer_at xs k) = (k = 0)"
  by (simp add: wr_full_def wr_remaining_at)

lemma wr_bytes_at [codec_simps]: "wr_bytes (writer_at xs k) = xs @ replicate k 0"
  by (simp add: writer_at_def)

lemma write_at_writer_at:
  "length ys \<le> k \<Longrightarrow>
   write_at (wr_bytes (writer_at xs k)) (wr_offset (writer_at xs k)) ys
     = (xs @ ys) @ replicate (k - length ys) 0"
  by (simp add: write_at_eq writer_at_def)

lemma write_unsigned_le_at:
  "n \<le> k \<Longrightarrow>
   write_unsigned_le (writer_at xs k) v n = (kOk, writer_at (xs @ store_le n v) (k - n))"
  by (simp add: write_unsigned_le_def wr_remaining_at write_at_writer_at)
    (simp add: writer_at_def)

lemma write_u8_at [codec_simps]:
  "1 \<le> k \<Longrightarrow>
   write_u8 (writer_at xs k) v = (kOk, writer_at (xs @ store_le 1 v) (k - 1))"
  by (simp add: write_u8_def write_unsigned_le_at)

lemma write_u16_le_at [codec_simps]:
  "2 \<le> k \<Longrightarrow>
   write_u16_le (writer_at xs k) v = (kOk, writer_at (xs @ store_le 2 v) (k - 2))"
  by (simp add: write_u16_le_def write_unsigned_le_at)

lemma write_u32_le_at [codec_simps]:
  "4 \<le> k \<Longrightarrow>
   write_u32_le (writer_at xs k) v = (kOk, writer_at (xs @ store_le 4 v) (k - 4))"
  by (simp add: write_u32_le_def write_unsigned_le_at)

lemma write_u64_le_at [codec_simps]:
  "8 \<le> k \<Longrightarrow> write_u64_le (writer_at xs k) v = (kOk, writer_at (xs @ store_le 8 v) (k - 8))"
  by (simp add: write_u64_le_def write_unsigned_le_at)

lemma write_exact_at [codec_simps]:
  "length ys \<le> k \<Longrightarrow>
   write_exact (writer_at xs k) ys = (kOk, writer_at (xs @ ys) (k - length ys))"
  by (simp add: write_exact_def wr_remaining_at write_at_writer_at) (simp add: writer_at_def)

lemma zero_fill_at [codec_simps]:
  "n \<le> k \<Longrightarrow>
   zero_fill (writer_at xs k) n = (kOk, writer_at (xs @ replicate n 0) (k - n))"
  by (simp add: zero_fill_def wr_remaining_at write_at_writer_at) (simp add: writer_at_def)

section \<open>The interface of a field\<close>

text \<open>What a codec of a field promises, whatever its width: a write into a buffer with room stores
  exactly the encoding, a read of the encoding of a valid value gives the value back, and a
  successful read has consumed the encoding of the value it returns.\<close>

locale codec_field =
  fixes wr :: "ByteWriter \<Rightarrow> 'v \<Rightarrow> StatusCode \<times> ByteWriter"
    and rd :: "ByteReader \<Rightarrow> 'v result \<times> ByteReader"
    and enc :: "'v \<Rightarrow> byte list"
    and valid :: "'v \<Rightarrow> bool"
  assumes write_enc: "length (enc v) \<le> k \<Longrightarrow>
      wr (writer_at xs k) v = (kOk, writer_at (xs @ enc v) (k - length (enc v)))"
    and read_enc: "valid v \<Longrightarrow> rd (reader_at pre (enc v @ rest)) = (Inr v, reader_at (pre @ enc v) rest)"
    and read_inv: "rd (reader_at pre rest) = (Inr v, r) \<Longrightarrow>
      valid v \<and> (\<exists>rest'. rest = enc v @ rest' \<and> r = reader_at (pre @ enc v) rest')"
begin

lemma write_list_enc:
  "length (concat (map enc vs)) \<le> k \<Longrightarrow>
   write_fields wr (writer_at xs k) vs
     = (kOk, writer_at (xs @ concat (map enc vs)) (k - length (concat (map enc vs))))"
  by (induction vs arbitrary: xs k) (auto simp: write_enc is_ok_def diff_diff_add)

lemma read_list_enc:
  "list_all valid vs \<Longrightarrow>
   read_fields rd (reader_at pre (concat (map enc vs) @ rest)) (length vs)
     = (Inr vs, reader_at (pre @ concat (map enc vs)) rest)"
  by (induction vs arbitrary: pre) (simp_all add: read_enc)

lemma read_list_inv:
  "read_fields rd (reader_at pre rest) n = (Inr vs, r) \<Longrightarrow>
   length vs = n \<and> list_all valid vs \<and>
   (\<exists>rest'. rest = concat (map enc vs) @ rest' \<and> r = reader_at (pre @ concat (map enc vs)) rest')"
proof (induction n arbitrary: pre rest vs r)
  case 0
  then show ?case by simp
next
  case (Suc n)
  then obtain v r' vs' where
      v: "rd (reader_at pre rest) = (Inr v, r')" and vs: "vs = v # vs'"
    and more: "read_fields rd r' n = (Inr vs', r)"
    by (auto split: prod.splits sum.splits)
  from read_inv [OF v] obtain rest' where
      "valid v" "rest = enc v @ rest'" and r': "r' = reader_at (pre @ enc v) rest'"
    by blast
  with Suc.IH [OF more [unfolded r']] vs show ?case
    by auto
qed

end

section \<open>The interface of a fixed-width field\<close>

text \<open>What the codecs rely on: a field has a fixed width, a write into a buffer with room stores
  exactly its encoding, a read of the encoding gives the value back, and an operation that does not
  fit reports \<open>kOutOfRange\<close> and leaves the cursor where it was.\<close>

locale fixed_field = codec_field +
  fixes width :: nat
  assumes enc_length [simp]: "length (enc v) = width"
    and write_fits: "width \<le> wr_remaining w \<Longrightarrow>
      wr w v = (kOk, w\<lparr>wr_bytes := write_at (wr_bytes w) (wr_offset w) (enc v),
                        wr_offset := wr_offset w + width\<rparr>)"
    and write_short: "wr_remaining w < width \<Longrightarrow> wr w v = (kOutOfRange, w)"
    and read_short: "rd_remaining r < width \<Longrightarrow> rd r = (Inl kOutOfRange, r)"
begin

lemma write_then_read:
  assumes "wr_wf w" and "wr w v = (kOk, w')" and "valid v"
  shows "rd \<lparr>rd_bytes = wr_bytes w', rd_offset = wr_offset w\<rparr>
           = (Inr v, \<lparr>rd_bytes = wr_bytes w', rd_offset = wr_offset w'\<rparr>)"
proof -
  let ?pre = "take (wr_offset w) (wr_bytes w)"
  let ?rest = "drop (wr_offset w + width) (wr_bytes w)"
  have fits: "width \<le> wr_remaining w"
    using assms(2) write_short [of w v] by (cases "wr_remaining w < width") auto
  then have bytes: "wr_bytes w' = ?pre @ enc v @ ?rest" and off: "wr_offset w' = wr_offset w + width"
    using assms by (auto simp: write_fits write_at_eq wr_remaining_def wr_wf_def)
  have "length ?pre = wr_offset w"
    using assms(1) by (simp add: wr_wf_def)
  then show ?thesis
    using read_enc [OF assms(3), of ?pre ?rest] by (simp add: reader_at_def bytes off)
qed

lemma write_frame:
  assumes "wr_wf w" and "wr w v = (kOk, w')" and "i < wr_offset w \<or> wr_offset w' \<le> i"
  shows "wr_bytes w' ! i = wr_bytes w ! i"
proof -
  have fits: "width \<le> wr_remaining w"
    using assms(2) write_short [of w v] by (cases "wr_remaining w < width") auto
  with assms show ?thesis
    by (auto simp: write_fits write_at_eq wr_remaining_def wr_wf_def nth_append)
qed

lemma write_wf: "wr_wf w \<Longrightarrow> wr w v = (code, w') \<Longrightarrow>
    wr_wf w' \<and> length (wr_bytes w') = length (wr_bytes w)"
  using write_fits [of w v] write_short [of w v]
  by (cases "wr_remaining w < width") (auto simp: wr_wf_def wr_remaining_def)

lemma write_error_unchanged: "wr w v = (code, w') \<Longrightarrow> code \<noteq> kOk \<Longrightarrow> w' = w \<and> code = kOutOfRange"
  using write_fits [of w v] write_short [of w v] by (cases "wr_remaining w < width") auto

lemma write_ok_split:
  assumes "wr w v = (kOk, w')" and "wr_bytes w = pre @ rest" and "wr_offset w = length pre"
  shows "width \<le> length rest \<and> wr_bytes w' = (pre @ enc v) @ drop width rest \<and>
    wr_offset w' = length (pre @ enc v)"
proof -
  have "width \<le> wr_remaining w"
    using assms(1) write_short [of w v] by (cases "wr_remaining w < width") auto
  with assms show ?thesis
    by (auto simp: write_fits write_at_eq wr_remaining_def)
qed

lemma concat_enc_length [simp]: "length (concat (map enc vs)) = width * length vs"
  by (induction vs) simp_all

lemma write_fields_enc:
  "width * length vs \<le> k \<Longrightarrow>
   write_fields wr (writer_at xs k) vs
     = (kOk, writer_at (xs @ concat (map enc vs)) (k - width * length vs))"
  using write_list_enc [of vs k xs] by simp

end

lemma read_unsigned_le_short: "rd_remaining r < n \<Longrightarrow> read_unsigned_le r n = (Inl kOutOfRange, r)"
  by (simp add: read_unsigned_le_def)

lemma write_unsigned_le_short: "wr_remaining w < n \<Longrightarrow> write_unsigned_le w v n = (kOutOfRange, w)"
  by (simp add: write_unsigned_le_def)

lemma write_unsigned_le_fits:
  "n \<le> wr_remaining w \<Longrightarrow>
   write_unsigned_le w v n
     = (kOk, w\<lparr>wr_bytes := write_at (wr_bytes w) (wr_offset w) (store_le n v),
                wr_offset := wr_offset w + n\<rparr>)"
  by (simp add: write_unsigned_le_def)

lemma read_field_inv:
  assumes "map_prod (map_sum id ucast) id (read_unsigned_le (reader_at pre rest) n) = (Inr v, r)"
    and "8 * n = LENGTH('a)" and "LENGTH('a) \<le> 64"
  shows "\<exists>rest'. rest = store_le n (v :: 'a::len word) @ rest' \<and>
           r = reader_at (pre @ store_le n v) rest'"
proof -
  obtain u where read: "read_unsigned_le (reader_at pre rest) n = (Inr u, r)" and v: "v = ucast u"
    using assms(1) by (cases "read_unsigned_le (reader_at pre rest) n"; cases "fst (read_unsigned_le (reader_at pre rest) n)") auto
  obtain xs rest' where "rest = xs @ rest'" "length xs = n" "u = load_le xs" "r = reader_at (pre @ xs) rest'"
    using read_unsigned_le_inv [OF read] by blast
  with v assms(2,3) show ?thesis
    by (auto simp: store_load_le_ucast)
qed

lemma read_exact_inv:
  assumes "read_exact (reader_at pre rest) n = (Inr xs, r)"
  shows "length xs = n \<and> (\<exists>rest'. rest = xs @ rest' \<and> r = reader_at (pre @ xs) rest')"
proof -
  have fits: "n \<le> length rest" and xs: "xs = take n rest"
    using assms
    by (auto simp: read_exact_def peek_exact_def rd_remaining_def subspan_def reader_at_def
        split: if_splits)
  then have "read_exact (reader_at pre rest) n = (Inr xs, reader_at (pre @ xs) (drop n rest))"
    using read_exact_at [of xs n pre "drop n rest"] by simp
  with assms fits xs show ?thesis
    by (intro conjI exI [of _ "drop n rest"]) simp_all
qed

lemmas unsigned_field =
  write_unsigned_le_at read_unsigned_le_short write_unsigned_le_short write_unsigned_le_fits
  read_unsigned_le_at load_store_le_ucast load_store_le_full

interpretation u8_field: fixed_field write_u8 read_u8 "store_le 1" "\<lambda>_. True" 1
  by unfold_locales
    (simp_all add: unsigned_field write_u8_def read_u8_def read_field_inv del: One_nat_def)

interpretation u16_field: fixed_field write_u16_le read_u16_le
    "store_le 2" "\<lambda>_. True" 2
  by unfold_locales (simp_all add: unsigned_field write_u16_le_def read_u16_le_def read_field_inv)

interpretation u32_field: fixed_field write_u32_le read_u32_le
    "store_le 4" "\<lambda>_. True" 4
  by unfold_locales (simp_all add: unsigned_field write_u32_le_def read_u32_le_def read_field_inv)

interpretation u64_field: fixed_field write_u64_le read_u64_le "store_le 8" "\<lambda>_. True" 8
  by unfold_locales
    (use read_field_inv [where 'a = 64] in
      \<open>simp_all add: unsigned_field write_u64_le_def read_u64_le_def map_sum.identity map_prod.identity\<close>)

section \<open>Properties\<close>

text \<open>C28: fields of every width written one after the other into a buffer come back in the same
  order from a reader at the position of the first write, which then stands where the writer
  stands; the bytes before and behind the fields are untouched.\<close>

theorem cursor_round_trip:
  assumes "wr_wf w" and "write_u8 w a = (kOk, w1)" and "write_u16_le w1 b = (kOk, w2)"
    and "write_u32_le w2 c = (kOk, w3)" and "write_u64_le w3 d = (kOk, w4)"
  shows "\<exists>r1 r2 r3. read_u8 \<lparr>rd_bytes = wr_bytes w4, rd_offset = wr_offset w\<rparr> = (Inr a, r1) \<and>
      read_u16_le r1 = (Inr b, r2) \<and> read_u32_le r2 = (Inr c, r3) \<and>
      read_u64_le r3 = (Inr d, \<lparr>rd_bytes = wr_bytes w4, rd_offset = wr_offset w4\<rparr>) \<and>
      (\<forall>i. i < wr_offset w \<or> wr_offset w4 \<le> i \<longrightarrow> wr_bytes w4 ! i = wr_bytes w ! i)"
proof -
  let ?pre = "take (wr_offset w) (wr_bytes w)" and ?rest = "drop (wr_offset w + 15) (wr_bytes w)"
  have "wr_bytes w = ?pre @ drop (wr_offset w) (wr_bytes w)" "wr_offset w = length ?pre"
    using assms(1) by (simp_all add: wr_wf_def)
  note u8 = u8_field.write_ok_split [OF assms(2) this]
  note u16 = u16_field.write_ok_split [OF assms(3) u8 [THEN conjunct2, THEN conjunct1]
      u8 [THEN conjunct2, THEN conjunct2]]
  note u32 = u32_field.write_ok_split [OF assms(4) u16 [THEN conjunct2, THEN conjunct1]
      u16 [THEN conjunct2, THEN conjunct2]]
  note u64 = u64_field.write_ok_split [OF assms(5) u32 [THEN conjunct2, THEN conjunct1]
      u32 [THEN conjunct2, THEN conjunct2]]
  have w4: "wr_bytes w4 = ?pre @ store_le 1 a @ store_le 2 b @ store_le 4 c @ store_le 8 d @ ?rest"
    and off: "wr_offset w4 = wr_offset w + 15" "wr_offset w + 15 \<le> length (wr_bytes w)"
    using u8 u16 u32 u64 assms(1) by (auto simp: wr_wf_def ac_simps)
  have pre: "length ?pre = wr_offset w"
    using assms(1) by (simp add: wr_wf_def)
  have start: "\<lparr>rd_bytes = wr_bytes w4, rd_offset = wr_offset w\<rparr> =
      reader_at ?pre (store_le 1 a @ store_le 2 b @ store_le 4 c @ store_le 8 d @ ?rest)"
    using pre by (simp add: reader_at_def w4)
  have finish: "\<lparr>rd_bytes = wr_bytes w4, rd_offset = wr_offset w4\<rparr> =
      reader_at (?pre @ store_le 1 a @ store_le 2 b @ store_le 4 c @ store_le 8 d) ?rest"
    using pre by (simp add: reader_at_def w4 off)
  have "wr_bytes w4 ! i = wr_bytes w ! i" if "i < wr_offset w \<or> wr_offset w4 \<le> i" for i
    using that pre off unfolding w4 by (auto simp: nth_append)
  then show ?thesis
    unfolding start finish
    by (simp add: u8_field.read_enc u16_field.read_enc u32_field.read_enc u64_field.read_enc
        del: One_nat_def)
qed

theorem cursor_round_trip_witness:
  "\<exists>r1 r2 r3. read_u8 \<lparr>rd_bytes = [9, 1, 3, 2, 7, 6, 5, 4, 8, 0, 0, 0, 0, 0, 0, 0, 9], rd_offset = 1\<rparr>
        = (Inr 1, r1) \<and>
      read_u16_le r1 = (Inr 0x0203, r2) \<and> read_u32_le r2 = (Inr 0x04050607, r3) \<and>
      read_u64_le r3 = (Inr 8, \<lparr>rd_bytes = [9, 1, 3, 2, 7, 6, 5, 4, 8, 0, 0, 0, 0, 0, 0, 0, 9],
                                rd_offset = 16\<rparr>)"
proof -
  have eval: "wr_wf \<lparr>wr_bytes = replicate 17 9, wr_offset = 1\<rparr>"
    "write_u8 \<lparr>wr_bytes = replicate 17 9, wr_offset = 1\<rparr> 1
       = (kOk, \<lparr>wr_bytes = [9, 1] @ replicate 15 9, wr_offset = 2\<rparr>)"
    "write_u16_le \<lparr>wr_bytes = [9, 1] @ replicate 15 9, wr_offset = 2\<rparr> 0x0203
       = (kOk, \<lparr>wr_bytes = [9, 1, 3, 2] @ replicate 13 9, wr_offset = 4\<rparr>)"
    "write_u32_le \<lparr>wr_bytes = [9, 1, 3, 2] @ replicate 13 9, wr_offset = 4\<rparr> 0x04050607
       = (kOk, \<lparr>wr_bytes = [9, 1, 3, 2, 7, 6, 5, 4] @ replicate 9 9, wr_offset = 8\<rparr>)"
    "write_u64_le \<lparr>wr_bytes = [9, 1, 3, 2, 7, 6, 5, 4] @ replicate 9 9, wr_offset = 8\<rparr> 8
       = (kOk, \<lparr>wr_bytes = [9, 1, 3, 2, 7, 6, 5, 4, 8, 0, 0, 0, 0, 0, 0, 0, 9], wr_offset = 16\<rparr>)"
    by code_simp+
  show ?thesis
    using cursor_round_trip [OF eval] by auto
qed

end
