(* ===== verification/Crc32c.thy ===== *)
theory Crc32c
  imports Byte_Codec
begin

unbundle bit_operations_syntax

text \<open>
  The table-driven CRC32C of \<^verbatim>\<open>src/common/crc32c.cpp\<close>. The table is built by the same eight
  shift-and-xor rounds as in the source. The lemmas show that the table lookup computes the bitwise
  definition of the checksum, that a checksum can be extended chunk by chunk, and that two inputs of
  the same length that differ only inside a window of four bytes have different checksums.
\<close>

section \<open>Definitions\<close>

definition kReversedCastagnoliPolynomial :: u32 where
  "kReversedCastagnoliPolynomial = 0x82f63b78"

text \<open>One round of the inner loop of \<^verbatim>\<open>make_crc32c_table\<close>: the mask is all ones exactly if the low
  bit of the remainder is set.\<close>

definition crc_round :: "u32 \<Rightarrow> u32" where
  "crc_round remainder =
     (let mask = 0 - (remainder AND 1)
      in drop_bit 1 remainder XOR (kReversedCastagnoliPolynomial AND mask))"

definition make_crc32c_table :: "u32 list" where
  "make_crc32c_table = map (\<lambda>index. (crc_round ^^ 8) (of_nat index)) [0..<256]"

definition kCrc32cTable :: "u32 list" where
  "kCrc32cTable = make_crc32c_table"

fun extend_state :: "u32 \<Rightarrow> byte list \<Rightarrow> u32" where
  "extend_state state [] = state"
| "extend_state state (b # bs) =
     extend_state (kCrc32cTable ! unat (ucast state XOR b) XOR drop_bit 8 state) bs"

text \<open>The class \<^verbatim>\<open>Crc32c\<close> holds the running state.\<close>

record Crc32c =
  crc_state :: u32

definition crc_init :: Crc32c where
  "crc_init = \<lparr>crc_state = 0xffffffff\<rparr>"

definition crc_extend :: "Crc32c \<Rightarrow> byte list \<Rightarrow> Crc32c" where
  "crc_extend c bytes = c\<lparr>crc_state := extend_state (crc_state c) bytes\<rparr>"

definition crc_reset :: "Crc32c \<Rightarrow> Crc32c" where
  "crc_reset c = c\<lparr>crc_state := 0xffffffff\<rparr>"

definition crc_value :: "Crc32c \<Rightarrow> u32" where
  "crc_value c = crc_state c XOR 0xffffffff"

definition crc32c :: "byte list \<Rightarrow> u32" where
  "crc32c bytes = crc_value (crc_extend crc_init bytes)"

definition extend_crc32c :: "u32 \<Rightarrow> byte list \<Rightarrow> u32" where
  "extend_crc32c checksum bytes =
     (let state = checksum XOR 0xffffffff in extend_state state bytes XOR 0xffffffff)"

text \<open>Reference definition: feed each byte into the low end and run eight rounds.\<close>

fun crc_bitwise :: "u32 \<Rightarrow> byte list \<Rightarrow> u32" where
  "crc_bitwise state [] = state"
| "crc_bitwise state (b # bs) = crc_bitwise ((crc_round ^^ 8) (state XOR ucast b)) bs"

section \<open>The rounds are linear\<close>

lemma crc_round_if:
  "crc_round r =
     (if bit r 0 then drop_bit 1 r XOR kReversedCastagnoliPolynomial else drop_bit 1 r)"
proof -
  have "r AND 1 = (if bit r 0 then 1 else 0)"
    by (simp add: and_one_eq bit_0 mod_2_eq_odd)
  then show ?thesis
    by (simp add: crc_round_def)
qed

lemma bit_crc_round:
  "bit (crc_round r) n \<longleftrightarrow> (bit r (Suc n) \<noteq> (bit r 0 \<and> bit kReversedCastagnoliPolynomial n))"
  by (auto simp: crc_round_if bit_xor_iff bit_drop_bit_eq)

lemma crc_round_xor: "crc_round (a XOR b) = crc_round a XOR crc_round b"
  by (rule bit_word_eqI) (auto simp: bit_crc_round bit_xor_iff)

lemma crc_rounds_xor: "(crc_round ^^ n) (a XOR b) = (crc_round ^^ n) a XOR (crc_round ^^ n) b"
  by (induction n) (simp_all add: crc_round_xor)

lemma crc_round_zero [simp]: "crc_round 0 = 0"
  by (simp add: crc_round_if)

lemma crc_rounds_zero [simp]: "(crc_round ^^ n) 0 = 0"
  by (induction n) simp_all

text \<open>A round loses no information: the polynomial has its top bit set, so the low bit of the
  argument is the top bit of the result.\<close>

lemma polynomial_top_bit: "bit kReversedCastagnoliPolynomial 31"
  by (simp add: kReversedCastagnoliPolynomial_def bit_numeral_rec)

lemma crc_round_eq_zero: "crc_round r = 0 \<Longrightarrow> r = 0"
proof -
  assume zero: "crc_round r = 0"
  have top: "\<not> bit r 32"
    using bit_imp_le_length [of r 32] by auto
  with zero have low: "\<not> bit r 0"
    using bit_crc_round [of r 31] polynomial_top_bit by (simp add: eval_nat_numeral)
  show "r = 0"
  proof (rule bit_word_eqI)
    fix n
    show "bit r n = bit 0 n"
      using low bit_crc_round [of r "n - 1"] zero by (cases n) auto
  qed
qed

lemma crc_rounds_inject: "(crc_round ^^ n) a = (crc_round ^^ n) b \<longleftrightarrow> a = b"
proof
  assume "(crc_round ^^ n) a = (crc_round ^^ n) b"
  then have "(crc_round ^^ n) (a XOR b) = 0"
    by (simp add: crc_rounds_xor)
  then have "a XOR b = 0"
    by (induction n) (auto dest: crc_round_eq_zero)
  then show "a = b"
    by (metis xor_self_eq xor.assoc xor.left_neutral xor.right_neutral)
qed simp

lemma drop_bit_rounds:
  "take_bit n r = 0 \<Longrightarrow> n \<le> 32 \<Longrightarrow> (crc_round ^^ n) r = drop_bit n r"
proof (induction n arbitrary: r)
  case 0
  then show ?case by simp
next
  case (Suc n)
  have bits: "\<not> bit r k" if "k < Suc n" for k
    using Suc.prems(1) that by (metis bit_0_eq bit_take_bit_iff bot_apply bot_bool_def)
  then have step: "crc_round r = drop_bit 1 r"
    by (simp add: crc_round_if)
  have "take_bit n (drop_bit 1 r) = 0"
    using bits by (intro bit_word_eqI) (simp add: bit_take_bit_iff bit_drop_bit_eq)
  with Suc.IH [of "drop_bit 1 r"] Suc.prems(2) show ?case
    by (simp add: funpow_Suc_right step drop_bit_drop_bit del: funpow.simps)
qed

section \<open>Table lookup and bitwise definition agree\<close>

lemma kCrc32cTable_nth: "n < 256 \<Longrightarrow> kCrc32cTable ! n = (crc_round ^^ 8) (of_nat n)"
  by (simp add: kCrc32cTable_def make_crc32c_table_def del: funpow.simps)

lemma crc_table_step:
  "kCrc32cTable ! unat (ucast s XOR b) XOR drop_bit 8 s = (crc_round ^^ 8) (s XOR ucast (b :: byte))"
proof -
  let ?w = "ucast s XOR b :: byte"
  let ?low = "ucast ?w :: u32" and ?high = "push_bit 8 (drop_bit 8 s)"
  have bound: "unat ?w < 256"
    using unsigned_less [of ?w, where 'a = nat] by simp
  have split: "s XOR ucast b = ?low XOR ?high"
    by (rule bit_word_eqI)
      (auto simp: bit_xor_iff bit_ucast_iff bit_push_bit_iff bit_drop_bit_eq
            dest: bit_imp_le_length)
  have "(crc_round ^^ 8) ?high = drop_bit 8 ?high"
    by (rule drop_bit_rounds) (simp_all add: take_bit_push_bit)
  also have "\<dots> = drop_bit 8 s"
    by (rule bit_word_eqI) (auto simp: bit_push_bit_iff bit_drop_bit_eq dest: bit_imp_le_length)
  finally have high: "(crc_round ^^ 8) ?high = drop_bit 8 s" .
  have "of_nat (unat ?w) = ?low"
    by simp
  then have "kCrc32cTable ! unat ?w = (crc_round ^^ 8) ?low"
    by (simp add: kCrc32cTable_nth [OF bound] del: funpow.simps)
  then show ?thesis
    by (simp add: split crc_rounds_xor high del: funpow.simps)
qed

lemma extend_state_bitwise: "extend_state s bs = crc_bitwise s bs"
  by (induction bs arbitrary: s) (simp_all add: crc_table_step del: funpow.simps)

lemma crc_bitwise_append: "crc_bitwise s (xs @ ys) = crc_bitwise (crc_bitwise s xs) ys"
  by (induction xs arbitrary: s) (simp_all del: funpow.simps)

lemma crc32c_bitwise: "crc32c bs = crc_bitwise 0xffffffff bs XOR 0xffffffff"
  by (simp add: crc32c_def crc_value_def crc_extend_def crc_init_def extend_state_bitwise)

section \<open>Windows of four bytes\<close>

lemma xor_inject: "a XOR c = b XOR c \<longleftrightarrow> a = (b :: 'a::len word)"
  by (metis bit_eq_iff bit_xor_iff)

lemma crc_bitwise_window:
  "length bs \<le> 4 \<Longrightarrow> crc_bitwise s bs = (crc_round ^^ (8 * length bs)) (s XOR load_le bs)"
proof (induction bs arbitrary: s)
  case Nil
  then show ?case by simp
next
  case (Cons b bs)
  let ?rest = "load_le bs :: u32"
  have bits: "\<not> bit ?rest k" if "24 \<le> k" for k
    using that Cons.prems by (auto simp: bit_load_le)
  have shift: "(crc_round ^^ 8) (push_bit 8 ?rest) = ?rest"
  proof -
    have "(crc_round ^^ 8) (push_bit 8 ?rest) = drop_bit 8 (push_bit 8 ?rest)"
      by (rule drop_bit_rounds) (simp_all add: take_bit_push_bit)
    also have "\<dots> = ?rest"
    proof (rule bit_word_eqI)
      fix n
      show "bit (drop_bit 8 (push_bit 8 ?rest)) n = bit ?rest n"
        by (cases "24 \<le> n") (simp_all add: bits bit_drop_bit_eq bit_push_bit_iff)
    qed
    finally show ?thesis .
  qed
  have disjoint: "load_le (b # bs) = ucast b XOR push_bit 8 ?rest"
    by (rule bit_word_eqI)
      (auto simp: load_le_Cons bit_or_iff bit_xor_iff bit_ucast_iff bit_push_bit_iff
            dest: bit_imp_le_length)
  have "crc_bitwise s (b # bs)
      = (crc_round ^^ (8 * length bs)) ((crc_round ^^ 8) (s XOR ucast b) XOR ?rest)"
    using Cons by (simp del: funpow.simps)
  also have "\<dots> = (crc_round ^^ (8 * length bs)) ((crc_round ^^ 8) (s XOR load_le (b # bs)))"
    by (simp add: disjoint crc_rounds_xor shift xor.assoc del: funpow.simps)
  also have "\<dots> = (crc_round ^^ (8 * length (b # bs))) (s XOR load_le (b # bs))"
    by (simp add: funpow_add [symmetric, THEN fun_cong, simplified] add.commute del: funpow.simps)
  finally show ?case .
qed

lemma crc_bitwise_inject_state: "crc_bitwise s bs = crc_bitwise t bs \<longleftrightarrow> s = t"
  by (induction bs arbitrary: s t) (simp_all add: crc_rounds_inject xor_inject del: funpow.simps)

lemma crc32c_window_inject:
  assumes "crc32c (pre @ xs @ post) = crc32c (pre @ ys @ post)"
    and "length xs = length ys" and "length xs \<le> 4"
  shows "xs = ys"
proof -
  let ?s = "crc_bitwise 0xffffffff pre"
  have "crc_bitwise ?s xs = crc_bitwise ?s ys"
    using assms(1) by (simp add: crc32c_bitwise crc_bitwise_append xor_inject crc_bitwise_inject_state)
  then have "?s XOR load_le xs = ?s XOR load_le ys"
    using assms(2,3) by (simp add: crc_bitwise_window crc_rounds_inject del: funpow.simps)
  then have "load_le xs = (load_le ys :: u32)"
    using xor_inject [of "load_le xs" ?s "load_le ys"] by (simp add: xor.commute)
  then show ?thesis
    using assms(2,3) by (intro load_le_inject [where 'a = 32]) simp_all
qed

text \<open>A frame is a body followed by its checksum. Damage inside a window of four bytes that lies
  in the body, or in the trailer, leaves a frame whose checksum does not match.\<close>

lemma crc_frame_damage:
  assumes frame: "body @ store_le 4 (crc32c body) = pre @ xs @ post"
    and len: "length xs = length ys" "length xs \<le> 4" and diff: "xs \<noteq> ys"
    and place: "4 \<le> length post \<or> length xs + length post \<le> 4"
  shows "let damaged = pre @ ys @ post
         in crc32c (take (length damaged - 4) damaged)
              \<noteq> load_le (subspan damaged (length damaged - 4) 4)"
  using place
proof
  assume "4 \<le> length post"
  then obtain mid trailer where post: "post = mid @ trailer" "length trailer = 4"
    by (metis append_take_drop_id diff_diff_cancel length_drop)
  then have body: "body = pre @ xs @ mid" and trailer: "trailer = store_le 4 (crc32c body)"
    using frame by (auto simp flip: append_assoc)
  have "crc32c (pre @ ys @ mid) \<noteq> crc32c body"
    using crc32c_window_inject [of pre xs mid ys] len diff body by auto
  moreover have "load_le trailer = crc32c body"
    by (simp add: trailer load_store_le_full)
  ultimately show ?thesis
    using post by (simp add: Let_def subspan_def)
next
  assume short: "length xs + length post \<le> 4"
  let ?n = "length body"
  have total: "?n + 4 = length pre + length xs + length post"
    using arg_cong [OF frame, of length] by simp
  then have le: "?n \<le> length pre" using short by simp
  have body: "body = take ?n pre"
    using arg_cong [OF frame, of "take ?n"] le by simp
  have trailer: "store_le 4 (crc32c body) = drop ?n pre @ xs @ post"
    using arg_cong [OF frame, of "drop ?n"] le by simp
  have "load_le (drop ?n pre @ ys @ post) \<noteq> (load_le (drop ?n pre @ xs @ post) :: u32)"
  proof
    assume "load_le (drop ?n pre @ ys @ post) = (load_le (drop ?n pre @ xs @ post) :: u32)"
    then have "drop ?n pre @ ys @ post = drop ?n pre @ xs @ post"
      using total le len by (intro load_le_inject [where 'a = 32]) simp_all
    with diff show False by simp
  qed
  moreover have "load_le (drop ?n pre @ xs @ post) = crc32c body"
    by (simp add: load_store_le_full flip: trailer)
  moreover have "length (pre @ ys @ post) - 4 = ?n"
    using total len by simp
  moreover have "take ?n (pre @ ys @ post) = body"
    using le by (simp flip: body)
  moreover have "subspan (pre @ ys @ post) ?n 4 = drop ?n pre @ ys @ post"
    using total le len by (simp add: subspan_def)
  ultimately show ?thesis
    by (simp only: Let_def)
qed

section \<open>Evaluation on concrete bytes\<close>

lemma crc_rounds_eight: "(crc_round ^^ 8) r =
    crc_round (crc_round (crc_round (crc_round (crc_round (crc_round (crc_round (crc_round r)))))))"
  by (simp add: eval_nat_numeral)

lemma half_numeral:
  assumes "numeral n < (2147483648 :: nat)"
  shows "drop_bit 1 (numeral (Num.Bit0 n) :: u32) = numeral n"
    and "drop_bit 1 (numeral (Num.Bit1 n) :: u32) = numeral n"
proof -
  have small: "unat (of_nat k :: u32) = k" if "k < 4294967296" for k
    using unat_of_nat_small [of k, where 'a = 32] that by simp
  have double: "numeral (Num.Bit0 n) = 2 * (numeral n :: nat)"
      "numeral (Num.Bit1 n) = 2 * (numeral n :: nat) + 1"
    by (simp_all only: mult_2 numeral_Bit0 [of n] numeral_Bit1 [of n])
  have "unat (numeral (Num.Bit0 n) :: u32) = 2 * numeral n"
      "unat (numeral (Num.Bit1 n) :: u32) = 2 * numeral n + 1" "unat (numeral n :: u32) = numeral n"
    using assms small [of "numeral (Num.Bit0 n)"] small [of "numeral (Num.Bit1 n)"]
      small [of "numeral n"]
    unfolding double [symmetric] of_nat_numeral using double by linarith+
  then show "drop_bit 1 (numeral (Num.Bit0 n) :: u32) = numeral n"
      "drop_bit 1 (numeral (Num.Bit1 n) :: u32) = numeral n"
    by (simp_all only: word_unat_eq_iff unsigned_drop_bit_eq) (simp_all add: drop_bit_eq_div)
qed

lemma crc_round_numeral:
  assumes "numeral n < (2147483648 :: nat)"
  shows "crc_round (numeral (Num.Bit0 n)) = numeral n"
    and "crc_round (numeral (Num.Bit1 n)) = numeral n XOR 0x82f63b78"
  using half_numeral [OF assms] by (simp_all add: crc_round_if kReversedCastagnoliPolynomial_def)

lemma crc_round_one: "crc_round 1 = 0x82f63b78"
  by (simp add: crc_round_if kReversedCastagnoliPolynomial_def)

lemmas crc_eval = crc32c_bitwise crc_rounds_eight crc_round_numeral crc_round_one

section \<open>Properties\<close>

text \<open>C26: the table-driven checksum is the bitwise CRC32C (reflected polynomial, initial value and
  final complement all ones), and checksumming in chunks, through the accumulator or through
  \<^verbatim>\<open>extend_crc32c\<close>, equals checksumming the concatenation.\<close>

theorem crc32c_reference:
  "crc32c bs = crc_bitwise 0xffffffff bs XOR 0xffffffff \<and>
   extend_crc32c (crc32c as) bs = crc32c (as @ bs) \<and>
   crc_value (crc_extend (crc_extend crc_init as) bs) = crc32c (as @ bs)"
  by (simp add: crc32c_bitwise extend_crc32c_def crc_value_def crc_extend_def crc_init_def Let_def
      extend_state_bitwise crc_bitwise_append xor.assoc)

text \<open>The catalogued check value of CRC32C.\<close>

lemma crc32c_check_value: "crc32c [0x31,0x32,0x33,0x34,0x35,0x36,0x37,0x38,0x39] = 0xE3069283"
  by (simp add: crc_eval)

text \<open>C27: damage inside a window of at most four bytes always changes the checksum, wherever the
  window lies.\<close>

theorem crc32c_detects_window:
  assumes "length xs = length ys" and "length xs \<le> 4" and "xs \<noteq> ys"
  shows "crc32c (pre @ xs @ post) \<noteq> crc32c (pre @ ys @ post)"
  using crc32c_window_inject assms by blast

theorem crc32c_detects_window_witness:
  "crc32c ([7] @ [1, 2, 3, 4] @ [9, 9]) \<noteq> crc32c ([7] @ [4, 3, 2, 1] @ [9, 9])"
  by (rule crc32c_detects_window) simp_all

end
