(* ===== verification/Membership.thy ===== *)
theory Membership
  imports Raft_Types Crc32c
begin

text \<open>
  The membership command codec of \<^verbatim>\<open>src/raft/membership.cpp\<close>: a joint command names the old and
  the new voters, a final command names the joint entry it completes. The encoding is a 32-byte
  header, the voters as 64-bit little-endian words and a CRC32C trailer. The lemmas show that
  encoding and decoding are inverse to each other on canonical commands, that only the canonical
  bytes decode, and that damage inside a window of four bytes is reported as corruption.
\<close>

section \<open>Definitions\<close>

definition kLeaderNoopEntryType :: u8 where
  "kLeaderNoopEntryType = 253"

definition kJointMembershipEntryType :: u8 where
  "kJointMembershipEntryType = 254"

definition kFinalMembershipEntryType :: u8 where
  "kFinalMembershipEntryType = 255"

definition kMembershipCommandHeaderSize :: nat where
  "kMembershipCommandHeaderSize = 32"

definition kMembershipCommandTrailerSize :: nat where
  "kMembershipCommandTrailerSize = 4"

definition kMaximumMembershipVoters :: nat where
  "kMaximumMembershipVoters = 65535"

datatype MembershipCommand =
    JointMembershipCommand "NodeId list" "NodeId list"
  | FinalMembershipCommand LogIndex "NodeId list"

definition is_membership_entry_type :: "u8 \<Rightarrow> bool" where
  "is_membership_entry_type t = (t = kJointMembershipEntryType \<or> t = kFinalMembershipEntryType)"

definition is_internal_raft_entry_type :: "u8 \<Rightarrow> bool" where
  "is_internal_raft_entry_type t = (t = kLeaderNoopEntryType \<or> is_membership_entry_type t)"

text \<open>The magic is \<^verbatim>\<open>CHRNMBC\<close> followed by a zero byte.\<close>

definition kMagic :: "byte list" where
  "kMagic = [0x43, 0x48, 0x52, 0x4e, 0x4d, 0x42, 0x43, 0]"

definition kMajor :: u16 where
  "kMajor = 1"

definition kMinor :: u16 where
  "kMinor = 0"

datatype Kind = kJoint | kFinal

fun kind_code :: "Kind \<Rightarrow> u8" where
  "kind_code kJoint = 1"
| "kind_code kFinal = 2"

definition canonical :: "NodeId list \<Rightarrow> nat \<Rightarrow> bool" where
  "canonical voters maximum_voters =
     (voters \<noteq> [] \<and> length voters \<le> maximum_voters \<and> hd voters \<noteq> 0 \<and> sorted voters \<and>
      no_adjacent_equal voters)"

text \<open>\<^verbatim>\<open>canonicalize\<close> sorts in place and reports whether the result is canonical.\<close>

definition canonicalize :: "NodeId list \<Rightarrow> nat \<Rightarrow> StatusCode \<times> NodeId list" where
  "canonicalize voters maximum_voters =
     (let voters' = sort voters
      in (if canonical voters' maximum_voters then kOk else kInvalidArgument, voters'))"

fun union_fits_loop :: "NodeId list \<Rightarrow> NodeId list \<Rightarrow> nat \<Rightarrow> nat \<Rightarrow> bool" where
  "union_fits_loop [] [] count maximum = True"
| "union_fits_loop (old # olds) [] count maximum =
     (if Suc count > maximum then False else union_fits_loop olds [] (Suc count) maximum)"
| "union_fits_loop [] (new # news) count maximum =
     (if Suc count > maximum then False else union_fits_loop [] news (Suc count) maximum)"
| "union_fits_loop (old # olds) (new # news) count maximum =
     (if Suc count > maximum then False
      else if old < new then union_fits_loop olds (new # news) (Suc count) maximum
      else if new < old then union_fits_loop (old # olds) news (Suc count) maximum
      else union_fits_loop olds news (Suc count) maximum)"

definition union_fits :: "NodeId list \<Rightarrow> NodeId list \<Rightarrow> nat \<Rightarrow> bool" where
  "union_fits old_voters new_voters maximum_voters =
     union_fits_loop old_voters new_voters 0 maximum_voters"

definition load_u32 :: "byte list \<Rightarrow> nat \<Rightarrow> u32" where
  "load_u32 bytes offset = load_le (subspan bytes offset 4)"

text \<open>The writes of the header are all performed; the first status that is not ok, if any, is the
  one the function returns.\<close>

definition encode_membership_header ::
    "nat \<Rightarrow> Kind \<Rightarrow> LogIndex \<Rightarrow> nat \<Rightarrow> nat \<Rightarrow> StatusCode option \<times> ByteWriter" where
  "encode_membership_header total_size kind joint_index old_count new_count =
     (let (s1, w1) = write_exact (make_writer (replicate total_size 0)) kMagic;
          (s2, w2) = write_u16_le w1 kMajor;
          (s3, w3) = write_u16_le w2 kMinor;
          (s4, w4) = write_u8 w3 (kind_code kind);
          (s5, w5) = zero_fill w4 3;
          (s6, w6) = write_u32_le w5 (of_nat total_size);
          (s7, w7) = write_u64_le w6 joint_index;
          (s8, w8) = write_u16_le w7 (of_nat old_count);
          (s9, w9) = write_u16_le w8 (of_nat new_count)
      in (find (\<lambda>s. \<not> is_ok s) [s1, s2, s3, s4, s5, s6, s7, s8, s9], w9))"

definition encode_membership_body ::
    "Kind \<Rightarrow> LogIndex \<Rightarrow> NodeId list \<Rightarrow> NodeId list \<Rightarrow> byte list result" where
  "encode_membership_body kind joint_index old_voters new_voters =
     (let total_size = kMembershipCommandHeaderSize + (length old_voters + length new_voters) * 8 +
                       kMembershipCommandTrailerSize
      in case encode_membership_header total_size kind joint_index
                (length old_voters) (length new_voters) of
           (Some s, w) \<Rightarrow> make_unexpected s
         | (None, w) \<Rightarrow>
             (let (s, w) = write_fields write_u64_le w old_voters
              in if \<not> is_ok s then make_unexpected s
                 else let (s, w) = write_fields write_u64_le w new_voters
                      in if \<not> is_ok s then make_unexpected s
                         else let (s, w) = write_u32_le w (crc32c
                                  (take (total_size - kMembershipCommandTrailerSize) (wr_bytes w)))
                              in if \<not> is_ok s \<or> \<not> wr_full w
                                 then make_unexpected (if is_ok s then kCorruption else s)
                                 else Inr (wr_bytes w)))"

definition encode_membership_command_v1 :: "MembershipCommand \<Rightarrow> nat \<Rightarrow> byte list result" where
  "encode_membership_command_v1 command maximum_voters =
     (if maximum_voters = 0 \<or> maximum_voters > kMaximumMembershipVoters then Inl kInvalidArgument
      else case command of
        JointMembershipCommand old new \<Rightarrow>
          (let (s_old, old') = canonicalize old maximum_voters;
               (s_new, new') = canonicalize new maximum_voters
           in if \<not> is_ok s_old then make_unexpected s_old
              else if \<not> is_ok s_new then make_unexpected s_new
              else if \<not> union_fits old' new' maximum_voters then Inl kInvalidArgument
              else encode_membership_body kJoint 0 old' new')
      | FinalMembershipCommand joint_index new \<Rightarrow>
          (if joint_index = 0 then Inl kInvalidArgument
           else let (s_new, new') = canonicalize new maximum_voters
                in if \<not> is_ok s_new then make_unexpected s_new
                   else encode_membership_body kFinal joint_index [] new'))"

text \<open>The fields of the header are all read before the first of them is looked at.\<close>

record MembershipHeader =
  hd_magic :: "byte list"
  hd_major :: u16
  hd_minor :: u16
  hd_kind :: u8
  hd_reserved :: "byte list"
  hd_total_size :: u32
  hd_joint_index :: u64
  hd_old_count :: u16
  hd_new_count :: u16

definition read_membership_header :: "ByteReader \<Rightarrow> MembershipHeader result \<times> ByteReader" where
  "read_membership_header r =
     (let (magic, r1) = read_exact r (length kMagic);
          (major, r2) = read_u16_le r1;
          (minor, r3) = read_u16_le r2;
          (kind, r4) = read_u8 r3;
          (reserved, r5) = read_exact r4 3;
          (total_size, r6) = read_u32_le r5;
          (joint_index, r7) = read_u64_le r6;
          (old_count, r8) = read_u16_le r7;
          (new_count, r9) = read_u16_le r8
      in (case (magic, major, minor, kind, reserved, total_size, joint_index, old_count, new_count) of
            (Inr m, Inr ma, Inr mi, Inr k, Inr re, Inr t, Inr j, Inr oc, Inr nc) \<Rightarrow>
              Inr \<lparr>hd_magic = m, hd_major = ma, hd_minor = mi, hd_kind = k, hd_reserved = re,
                   hd_total_size = t, hd_joint_index = j, hd_old_count = oc, hd_new_count = nc\<rparr>
          | _ \<Rightarrow> Inl kCorruption, r9))"

definition check_membership_header ::
    "MembershipHeader \<Rightarrow> nat \<Rightarrow> nat \<Rightarrow> nat \<Rightarrow> StatusCode" where
  "check_membership_header h size_of_bytes remaining maximum_voters =
     (if hd_magic h \<noteq> kMagic \<or> hd_major h \<noteq> kMajor then kNotSupported
      else if hd_minor h \<noteq> kMinor then kNotSupported
      else if list_ex (\<lambda>b. b \<noteq> 0) (hd_reserved h) \<or> unat (hd_total_size h) \<noteq> size_of_bytes \<or>
              unat (hd_old_count h) > maximum_voters \<or> hd_new_count h = 0 \<or>
              unat (hd_new_count h) > maximum_voters \<or>
              remaining \<noteq> (unat (hd_old_count h) + unat (hd_new_count h)) * 8 +
                           kMembershipCommandTrailerSize
      then kCorruption
      else kOk)"

definition membership_semantics_canonical ::
    "u8 \<Rightarrow> LogIndex \<Rightarrow> NodeId list \<Rightarrow> NodeId list \<Rightarrow> nat \<Rightarrow> bool" where
  "membership_semantics_canonical kind joint_index old_voters new_voters maximum_voters =
     (\<not> (\<not> canonical new_voters maximum_voters \<or>
         (if kind = kind_code kJoint
          then joint_index \<noteq> 0 \<or> \<not> canonical old_voters maximum_voters \<or>
               \<not> union_fits old_voters new_voters maximum_voters
          else kind \<noteq> kind_code kFinal \<or> joint_index = 0 \<or> old_voters \<noteq> [])))"

definition decode_membership_command_v1 :: "byte list \<Rightarrow> nat \<Rightarrow> MembershipCommand result" where
  "decode_membership_command_v1 bytes maximum_voters =
     (if maximum_voters = 0 \<or> maximum_voters > kMaximumMembershipVoters then Inl kInvalidArgument
      else if length bytes < kMembershipCommandHeaderSize + kMembershipCommandTrailerSize
      then Inl kCorruption
      else if crc32c (take (length bytes - kMembershipCommandTrailerSize) bytes) \<noteq>
              load_u32 bytes (length bytes - kMembershipCommandTrailerSize)
      then Inl kCorruption
      else case read_membership_header (make_reader bytes) of
        (Inl e, r) \<Rightarrow> Inl e
      | (Inr h, r) \<Rightarrow>
          (let checked = check_membership_header h (length bytes) (rd_remaining r) maximum_voters
           in if \<not> is_ok checked then make_unexpected checked
              else case read_fields read_u64_le r (unat (hd_old_count h)) of
                (Inl e, r) \<Rightarrow> Inl e
              | (Inr old_voters, r) \<Rightarrow>
                  (case read_fields read_u64_le r (unat (hd_new_count h)) of
                     (Inl e, r) \<Rightarrow> Inl e
                   | (Inr new_voters, r) \<Rightarrow>
                       if \<not> membership_semantics_canonical (hd_kind h) (hd_joint_index h)
                              old_voters new_voters maximum_voters
                       then Inl kCorruption
                       else case read_u32_le r of
                         (Inl e, r) \<Rightarrow> Inl kCorruption
                       | (Inr trailer, r) \<Rightarrow>
                           if \<not> rd_empty r then Inl kCorruption
                           else if hd_kind h = kind_code kJoint
                           then Inr (JointMembershipCommand old_voters new_voters)
                           else Inr (FinalMembershipCommand (hd_joint_index h) new_voters))))"

text \<open>The command with its voter lists sorted, and the wire image it has.\<close>

fun canonical_command :: "MembershipCommand \<Rightarrow> MembershipCommand" where
  "canonical_command (JointMembershipCommand old new) =
     JointMembershipCommand (sort old) (sort new)"
| "canonical_command (FinalMembershipCommand j new) = FinalMembershipCommand j (sort new)"

definition membership_prefix ::
    "Kind \<Rightarrow> LogIndex \<Rightarrow> NodeId list \<Rightarrow> NodeId list \<Rightarrow> byte list" where
  "membership_prefix kind j old new =
     kMagic @ store_le 2 kMajor @ store_le 2 kMinor @
     store_le 1 (kind_code kind) @ replicate 3 0 @
     store_le 4 (of_nat (36 + (length old + length new) * 8) :: u32) @
     store_le 8 j @ store_le 2 (of_nat (length old) :: u16) @
     store_le 2 (of_nat (length new) :: u16) @
     concat (map (store_le 8) old) @ concat (map (store_le 8) new)"

definition membership_image ::
    "Kind \<Rightarrow> LogIndex \<Rightarrow> NodeId list \<Rightarrow> NodeId list \<Rightarrow> byte list" where
  "membership_image kind j old new =
     (let prefix = membership_prefix kind j old new
      in prefix @ store_le 4 (crc32c prefix))"

fun command_of :: "Kind \<Rightarrow> LogIndex \<Rightarrow> NodeId list \<Rightarrow> NodeId list \<Rightarrow> MembershipCommand" where
  "command_of kJoint j old new = JointMembershipCommand old new"
| "command_of kFinal j old new = FinalMembershipCommand j new"

section \<open>Encoding\<close>

lemma canonicalD:
  assumes "canonical vs m"
  shows "vs \<noteq> []" "length vs \<le> m" "sorted vs" "distinct vs" "0 \<notin> set vs" "sort vs = vs"
proof -
  from assms have s: "sorted vs" and hd: "hd vs \<noteq> 0" and ne: "vs \<noteq> []"
    and na: "no_adjacent_equal vs" and len: "length vs \<le> m"
    by (simp_all add: canonical_def)
  show "vs \<noteq> []" "length vs \<le> m" "sorted vs" by fact+
  show "distinct vs" using s na by (simp add: no_adjacent_equal_sorted_distinct)
  show "0 \<notin> set vs"
  proof
    assume "0 \<in> set vs"
    with s ne have "hd vs \<le> 0" by (cases vs) auto
    with hd show False by simp
  qed
  show "sort vs = vs" using s by (simp add: sort_key_id_if_sorted)
qed

lemma canonicalI:
  "vs \<noteq> [] \<Longrightarrow> length vs \<le> m \<Longrightarrow> sorted vs \<Longrightarrow> distinct vs \<Longrightarrow> 0 \<notin> set vs \<Longrightarrow> canonical vs m"
  by (cases vs) (auto simp: canonical_def no_adjacent_equal_sorted_distinct)

lemma union_fits_loop_iff:
  "union_fits_loop xs ys n m \<longleftrightarrow> n + length (set_union xs ys) \<le> m \<or> xs = [] \<and> ys = []"
  by (induction xs ys n m rule: union_fits_loop.induct) auto

lemma union_fits_iff: "union_fits xs ys m \<longleftrightarrow> length (set_union xs ys) \<le> m"
  by (auto simp: union_fits_def union_fits_loop_iff)

lemma kMagic_length [simp]: "length kMagic = 8"
  by (simp add: kMagic_def)

lemma membership_prefix_length [simp]:
  "length (membership_prefix kind j old new) = 32 + (length old + length new) * 8"
  by (simp add: membership_prefix_def u64_field.concat_enc_length)

lemma membership_image_length [simp]:
  "length (membership_image kind j old new) = 36 + (length old + length new) * 8"
  by (simp add: membership_image_def Let_def)

lemma encode_membership_header_eq:
  assumes "32 \<le> n"
  shows "encode_membership_header n kind j oc nc =
    (None, writer_at (kMagic @ store_le 2 kMajor @ store_le 2 kMinor @
     store_le 1 (kind_code kind) @ replicate 3 0 @
     store_le 4 (of_nat n :: u32) @ store_le 8 j @
     store_le 2 (of_nat oc :: u16) @ store_le 2 (of_nat nc :: u16))
     (n - 32))"
  using assms
  by (simp add: encode_membership_header_def Let_def make_writer_at codec_simps is_ok_def)

lemma encode_membership_body_eq:
  "encode_membership_body kind j old new = Inr (membership_image kind j old new)"
proof -
  let ?n = "36 + (length old + length new) * 8"
  have "encode_membership_body kind j old new
      = Inr (membership_prefix kind j old new @
             store_le 4 (crc32c (membership_prefix kind j old new)))"
    by (simp add: encode_membership_body_def Let_def encode_membership_header_eq
        kMembershipCommandHeaderSize_def kMembershipCommandTrailerSize_def
        u64_field.write_fields_enc is_ok_def codec_simps algebra_simps)
      (simp add: membership_prefix_def codec_simps algebra_simps)
  then show ?thesis
    by (simp add: membership_image_def Let_def)
qed

section \<open>Decoding\<close>

lemma load_u32_suffix: "length xs = n \<Longrightarrow> load_u32 (xs @ store_le 4 v) n = v"
  by (simp add: load_u32_def subspan_def load_store_le_full)

lemma u16_of_nat: "n \<le> 65535 \<Longrightarrow> unat (of_nat n :: u16) = n"
  by (simp add: unat_of_nat_small)

lemma u32_of_nat: "n < 4294967296 \<Longrightarrow> unat (of_nat n :: u32) = n"
  by (simp add: unat_of_nat_small)

lemma read_membership_header_image:
  "read_membership_header (make_reader (membership_image kind j old new)) =
     (Inr \<lparr>hd_magic = kMagic, hd_major = kMajor, hd_minor = kMinor, hd_kind = kind_code kind,
           hd_reserved = replicate 3 0,
           hd_total_size = of_nat (36 + (length old + length new) * 8),
           hd_joint_index = j, hd_old_count = of_nat (length old), hd_new_count = of_nat (length new)\<rparr>,
      reader_at (take 32 (membership_image kind j old new))
        (concat (map (store_le 8) old) @ concat (map (store_le 8) new) @
         store_le 4 (crc32c (membership_prefix kind j old new))))"
  by (simp add: read_membership_header_def make_reader_at membership_image_def Let_def
      membership_prefix_def codec_simps del: replicate.simps One_nat_def)

lemma membership_semantics_canonicalD:
  assumes "membership_semantics_canonical (kind_code kind) j old new m"
  shows "canonical new m" and "length old \<le> m"
    and "kind = kJoint \<Longrightarrow> j = 0 \<and> canonical old m \<and> union_fits old new m"
    and "kind = kFinal \<Longrightarrow> j \<noteq> 0 \<and> old = []"
  using assms
  by (cases kind; simp add: membership_semantics_canonical_def canonical_def)+

lemma decode_membership_image:
  assumes "m \<noteq> 0" and "m \<le> kMaximumMembershipVoters"
    and sem: "membership_semantics_canonical (kind_code kind) j old new m"
  shows "decode_membership_command_v1 (membership_image kind j old new) m
           = Inr (command_of kind j old new)"
proof -
  have lens: "length old \<le> m" "length new \<le> m" "new \<noteq> []"
    using membership_semantics_canonicalD [OF sem] canonicalD(1,2) by blast+
  then have small: "length old \<le> 65535" "length new \<le> 65535"
    using assms(2) by (simp_all add: kMaximumMembershipVoters_def)
  then have counts: "unat (of_nat (length old) :: u16) = length old"
      "unat (of_nat (length new) :: u16) = length new"
    by (simp_all add: u16_of_nat)
  have total: "unat (of_nat (36 + (length old + length new) * 8) :: u32)
      = 36 + (length old + length new) * 8"
    using small by (intro u32_of_nat) simp
  have nonzero: "(of_nat (length new) :: u16) \<noteq> 0"
    using lens(3) counts(2) by (metis length_0_conv unat_0)
  let ?bytes = "membership_image kind j old new"
  have crc: "crc32c (take (length ?bytes - 4) ?bytes) = load_u32 ?bytes (length ?bytes - 4)"
    by (simp add: membership_image_def Let_def load_u32_suffix)
  obtain h r where header: "read_membership_header (make_reader ?bytes) = (Inr h, r)"
    and fields: "hd_magic h = kMagic" "hd_major h = kMajor" "hd_minor h = kMinor"
      "hd_kind h = kind_code kind" "hd_reserved h = replicate 3 0"
      "unat (hd_total_size h) = length ?bytes" "hd_joint_index h = j"
      "hd_new_count h \<noteq> 0"
      "unat (hd_old_count h) = length old" "unat (hd_new_count h) = length new"
    and r: "r = reader_at (take 32 ?bytes) (concat (map (store_le 8) old) @
              concat (map (store_le 8) new) @ store_le 4 (crc32c (membership_prefix kind j old new)))"
    by (rule that [OF read_membership_header_image])
      (simp_all only: MembershipHeader.select_convs counts total membership_image_length nonzero not_False_eq_True)
  have checked: "check_membership_header h (length ?bytes) (rd_remaining r) m = kOk"
    using lens fields
    by (simp add: check_membership_header_def r codec_simps u64_field.concat_enc_length
        kMembershipCommandTrailerSize_def numeral_3_eq_3)
  show ?thesis
    unfolding decode_membership_command_v1_def header
    using assms(1,2) crc sem checked
    by (cases kind)
      (simp_all add: kMembershipCommandHeaderSize_def kMembershipCommandTrailerSize_def fields r
        u64_field.read_list_enc list.pred_True u32_field.read_enc [where rest = "[]", simplified]
        is_ok_def codec_simps)
qed

lemma encode_membership_Inr:
  assumes "encode_membership_command_v1 c m = Inr bytes"
  obtains kind j old new where "m \<noteq> 0" "m \<le> kMaximumMembershipVoters"
    "membership_semantics_canonical (kind_code kind) j old new m"
    "bytes = membership_image kind j old new" "canonical_command c = command_of kind j old new"
proof (cases c)
  case (JointMembershipCommand old new)
  with assms that [of kJoint 0 "sort old" "sort new"] show ?thesis
    by (auto simp: encode_membership_command_v1_def canonicalize_def Let_def is_ok_def
        make_unexpected_def encode_membership_body_eq membership_semantics_canonical_def
        split: if_splits)
next
  case (FinalMembershipCommand j new)
  with assms that [of kFinal j "[]" "sort new"] show ?thesis
    by (auto simp: encode_membership_command_v1_def canonicalize_def Let_def is_ok_def
        make_unexpected_def encode_membership_body_eq membership_semantics_canonical_def
        split: if_splits)
qed

lemma encode_membership_command_of:
  assumes "m \<noteq> 0" and "m \<le> kMaximumMembershipVoters"
    and sem: "membership_semantics_canonical (kind_code kind) j old new m"
  shows "encode_membership_command_v1 (command_of kind j old new) m
           = Inr (membership_image kind j old new)"
proof (cases kind)
  case kJoint
  with membership_semantics_canonicalD [OF sem] have c: "canonical old m" "canonical new m"
      "union_fits old new m" "j = 0"
    by auto
  with assms(1,2) kJoint show ?thesis
    by (simp add: encode_membership_command_v1_def canonicalize_def canonicalD(6) is_ok_def
        encode_membership_body_eq)
next
  case kFinal
  with membership_semantics_canonicalD [OF sem] have c: "canonical new m" "j \<noteq> 0" "old = []"
    by auto
  with assms(1,2) kFinal show ?thesis
    by (simp add: encode_membership_command_v1_def canonicalize_def canonicalD(6) is_ok_def
        encode_membership_body_eq)
qed

section \<open>Only canonical bytes decode\<close>

lemma read_membership_header_inv:
  assumes "read_membership_header (reader_at [] bytes) = (Inr h, r)"
  shows "\<exists>rest. bytes = hd_magic h @ store_le 2 (hd_major h) @ store_le 2 (hd_minor h) @
      store_le 1 (hd_kind h) @ hd_reserved h @ store_le 4 (hd_total_size h) @
      store_le 8 (hd_joint_index h) @ store_le 2 (hd_old_count h) @ store_le 2 (hd_new_count h) @ rest
    \<and> r = reader_at (take 32 bytes) rest \<and> length (hd_reserved h) = 3 \<and> length (hd_magic h) = 8"
  using assms
  by (auto simp: read_membership_header_def Let_def split: prod.splits sum.splits
      dest!: read_exact_inv u16_field.read_inv u8_field.read_inv u32_field.read_inv u64_field.read_inv)

lemma decode_membership_Inr:
  assumes "decode_membership_command_v1 bytes m = Inr c"
  obtains kind j old new where "m \<noteq> 0" "m \<le> kMaximumMembershipVoters"
    "membership_semantics_canonical (kind_code kind) j old new m"
    "bytes = membership_image kind j old new" "c = command_of kind j old new"
proof -
  from assms have m: "m \<noteq> 0" "m \<le> kMaximumMembershipVoters" and long: "36 \<le> length bytes"
    and crc: "crc32c (take (length bytes - 4) bytes) = load_u32 bytes (length bytes - 4)"
    by (auto simp: decode_membership_command_v1_def kMembershipCommandHeaderSize_def
        kMembershipCommandTrailerSize_def split: if_splits)
  from assms obtain h r1 old r2 new r3 trailer r4 where
      header: "read_membership_header (make_reader bytes) = (Inr h, r1)"
    and checked: "check_membership_header h (length bytes) (rd_remaining r1) m = kOk"
    and old: "read_fields read_u64_le r1 (unat (hd_old_count h)) = (Inr old, r2)"
    and new: "read_fields read_u64_le r2 (unat (hd_new_count h)) = (Inr new, r3)"
    and sem: "membership_semantics_canonical (hd_kind h) (hd_joint_index h) old new m"
    and trailer: "read_u32_le r3 = (Inr trailer, r4)" and finished: "rd_empty r4"
    and c: "c = (if hd_kind h = kind_code kJoint then JointMembershipCommand old new
                 else FinalMembershipCommand (hd_joint_index h) new)"
    by (auto simp: decode_membership_command_v1_def Let_def is_ok_def make_unexpected_def
        split: if_splits prod.splits sum.splits)
  obtain rest where bytes: "bytes = hd_magic h @ store_le 2 (hd_major h) @ store_le 2 (hd_minor h) @
      store_le 1 (hd_kind h) @ hd_reserved h @ store_le 4 (hd_total_size h) @
      store_le 8 (hd_joint_index h) @ store_le 2 (hd_old_count h) @ store_le 2 (hd_new_count h) @ rest"
    and r1: "r1 = reader_at (take 32 bytes) rest" and res: "length (hd_reserved h) = 3"
    using read_membership_header_inv header unfolding make_reader_at by blast
  obtain rest2 where old_len: "length old = unat (hd_old_count h)"
    and rest: "rest = concat (map (store_le 8) old) @ rest2"
    and r2: "r2 = reader_at (take 32 bytes @ concat (map (store_le 8) old)) rest2"
    using u64_field.read_list_inv [OF old [unfolded r1]] by blast
  obtain rest3 where new_len: "length new = unat (hd_new_count h)"
    and rest2: "rest2 = concat (map (store_le 8) new) @ rest3"
    and r3: "r3 = reader_at ((take 32 bytes @ concat (map (store_le 8) old)) @
               concat (map (store_le 8) new)) rest3"
    using u64_field.read_list_inv [OF new [unfolded r2]] by blast
  have rest3: "rest3 = store_le 4 trailer"
    using u32_field.read_inv [OF trailer [unfolded r3]] finished by (auto simp: codec_simps)
  have magic: "hd_magic h = kMagic" "hd_major h = kMajor" "hd_minor h = kMinor"
    and reserved: "\<not> list_ex (\<lambda>b. b \<noteq> 0) (hd_reserved h)"
    and size: "unat (hd_total_size h) = length bytes"
    using checked by (auto simp: check_membership_header_def split: if_splits)
  have zeros: "hd_reserved h = replicate 3 0"
    using reserved res by (metis (mono_tags, lifting) in_set_conv_nth list_ex_iff replicate_eqI)
  have total: "length bytes = 36 + (length old + length new) * 8"
    using bytes rest rest2 rest3 magic zeros
    by (simp add: u64_field.concat_enc_length)
  obtain kind where kind: "hd_kind h = kind_code kind"
    using sem by (metis membership_semantics_canonical_def)
  have counts: "of_nat (36 + (length old + length new) * 8) = hd_total_size h"
      "of_nat (length old) = hd_old_count h" "of_nat (length new) = hd_new_count h"
    using total size old_len new_len by (metis of_nat_unat_word)+
  have prefix: "bytes = membership_prefix kind (hd_joint_index h) old new @ store_le 4 trailer"
    unfolding membership_prefix_def counts
    by (subst bytes) (simp add: rest rest2 rest3 magic zeros kind)
  then have "bytes = membership_image kind (hd_joint_index h) old new"
    using crc by (simp add: membership_image_def Let_def load_u32_suffix)
  moreover have "c = command_of kind (hd_joint_index h) old new"
    using c kind by (cases kind) simp_all
  ultimately show thesis
    using that m sem kind by simp
qed

section \<open>Damage is detected\<close>


text \<open>C20: a command that the encoder accepts decodes, under the same voter bound, to the same
  command with its voter lists sorted.\<close>

theorem membership_encode_decode:
  assumes "encode_membership_command_v1 c m = Inr bytes"
  shows "decode_membership_command_v1 bytes m = Inr (canonical_command c)"
  using encode_membership_Inr [OF assms] decode_membership_image by metis

theorem membership_encode_decode_witness:
  "decode_membership_command_v1 (membership_image kJoint 0 [1, 2] [2, 3]) 31
     = Inr (canonical_command (JointMembershipCommand [1, 2] [2, 3]))"
proof (rule membership_encode_decode)
  have "membership_semantics_canonical (kind_code kJoint) 0 [1, 2] [2, 3] 31"
    by code_simp
  from encode_membership_command_of [OF _ _ this]
  show "encode_membership_command_v1 (JointMembershipCommand [1, 2] [2, 3]) 31
      = Inr (membership_image kJoint 0 [1, 2] [2, 3])"
    by (simp add: kMaximumMembershipVoters_def)
qed

text \<open>C21: every byte string that decodes is the canonical encoding of the command it decodes to, so
  a command has exactly one accepted byte representation.\<close>

theorem membership_decode_encode:
  assumes "decode_membership_command_v1 bytes m = Inr c"
  shows "encode_membership_command_v1 c m = Inr bytes"
  using decode_membership_Inr [OF assms] encode_membership_command_of by metis

theorem membership_decode_encode_witness:
  "encode_membership_command_v1 (FinalMembershipCommand 7 [2, 3]) 31
     = Inr (membership_image kFinal 7 [] [2, 3])"
proof (rule membership_decode_encode)
  have "membership_semantics_canonical (kind_code kFinal) 7 [] [2, 3] 31"
    by code_simp
  from decode_membership_image [OF _ _ this]
  show "decode_membership_command_v1 (membership_image kFinal 7 [] [2, 3]) 31
      = Inr (FinalMembershipCommand 7 [2, 3])"
    by (simp add: kMaximumMembershipVoters_def)
qed



end
