(* ===== verification/Checked_Math.thy ===== *)
theory Checked_Math
  imports Prelude
begin

unbundle bit_operations_syntax

text \<open>
  The overflow-checked arithmetic of \<^verbatim>\<open>include/chronos/common/checked_math.hpp\<close> at an
  arbitrary unsigned width, and its instance for \<^verbatim>\<open>std::size_t\<close>. Sizes of containers are
  natural numbers in this development; the \<^verbatim>\<open>size_t\<close> instance keeps the 64-bit bound.
\<close>

section \<open>Definitions\<close>

definition checked_add :: "'a::len word \<Rightarrow> 'a word \<Rightarrow> 'a word option" where
  "checked_add left right =
     (if right > - 1 - left then None else Some (left + right))"

definition checked_multiply :: "'a::len word \<Rightarrow> 'a word \<Rightarrow> 'a word option" where
  "checked_multiply left right =
     (if left \<noteq> 0 \<and> right > (- 1) div left then None else Some (left * right))"

definition checked_range_end :: "'a::len word \<Rightarrow> 'a word \<Rightarrow> 'a word option" where
  "checked_range_end offset len = checked_add offset len"

definition checked_align_up :: "'a::len word \<Rightarrow> 'a word \<Rightarrow> 'a word result" where
  "checked_align_up v alignment =
     (if alignment = 0 \<or> (alignment AND (alignment - 1)) \<noteq> 0 then Inl kInvalidArgument
      else let mask = alignment - 1 in
           case checked_add v mask of
             None \<Rightarrow> Inl kOutOfRange
           | Some adjusted \<Rightarrow> Inr (adjusted AND NOT mask))"

text \<open>The largest \<^verbatim>\<open>std::size_t\<close>, and the checked operations on sizes.\<close>

definition size_max :: nat where
  "size_max = 2 ^ 64 - 1"

definition checked_add_size :: "nat \<Rightarrow> nat \<Rightarrow> nat option" where
  "checked_add_size left right = (if right > size_max - left then None else Some (left + right))"

definition checked_multiply_size :: "nat \<Rightarrow> nat \<Rightarrow> nat option" where
  "checked_multiply_size left right =
     (if left \<noteq> 0 \<and> right > size_max div left then None else Some (left * right))"

section \<open>Checked operations are exact\<close>

lemma unat_bound: "unat (a :: 'a::len word) < 2 ^ LENGTH('a)"
  by (rule unsigned_less)

lemma unat_max: "unat (- 1 :: 'a::len word) = 2 ^ LENGTH('a) - 1"
  by (simp add: unsigned_minus_1_eq_mask mask_eq_exp_minus_1)

lemma unat_max_minus: "unat (- 1 - (a :: 'a::len word)) = 2 ^ LENGTH('a) - 1 - unat a"
  by (subst unat_sub) (simp_all add: unat_max)

lemma checked_add_iff:
  "checked_add a b = Some c \<longleftrightarrow>
     unat a + unat b < 2 ^ LENGTH('a) \<and> unat (c :: 'a::len word) = unat a + unat b"
proof -
  have "b > - 1 - a \<longleftrightarrow> \<not> unat a + unat b < 2 ^ LENGTH('a)"
    using unat_bound [of a] unfolding word_less_nat_alt unat_max_minus by linarith
  then show ?thesis
    by (auto simp: checked_add_def unat_word_ariths word_unat_eq_iff)
qed

lemma checked_add_None:
  "checked_add a b = None \<longleftrightarrow> 2 ^ LENGTH('a) \<le> unat a + unat (b :: 'a::len word)"
  using checked_add_iff [of a b "a + b"]
  by (cases "checked_add a b") (auto simp: checked_add_def unat_word_ariths split: if_splits)

lemma checked_multiply_iff:
  "checked_multiply a b = Some c \<longleftrightarrow>
     unat a * unat b < 2 ^ LENGTH('a) \<and> unat (c :: 'a::len word) = unat a * unat b"
proof -
  have "b > (- 1) div a \<longleftrightarrow> \<not> unat a * unat b < 2 ^ LENGTH('a)" if "a \<noteq> 0"
  proof -
    have pos: "0 < unat a" using that by (simp add: unat_gt_0)
    have "unat ((- 1) div a) = (2 ^ LENGTH('a) - 1) div unat a"
      by (simp add: unat_div unsigned_minus_1_eq_mask mask_eq_exp_minus_1)
    then have "b > (- 1) div a \<longleftrightarrow> (2 ^ LENGTH('a) - 1) div unat a < unat b"
      by (simp add: word_less_nat_alt)
    also have "\<dots> \<longleftrightarrow> 2 ^ LENGTH('a) - 1 < unat b * unat a"
      using pos by (simp add: div_less_iff_less_mult)
    also have "\<dots> \<longleftrightarrow> \<not> unat a * unat b < 2 ^ LENGTH('a)"
      using unat_bound [of a] by (subst mult.commute) linarith
    finally show ?thesis .
  qed
  then show ?thesis
    by (cases "a = 0") (auto simp: checked_multiply_def unat_word_ariths word_unat_eq_iff [of _ c])
qed

section \<open>Powers of two\<close>

lemma nat_power_of_two_iff:
  "(n :: nat) \<noteq> 0 \<Longrightarrow> n AND (n - 1) = 0 \<longleftrightarrow> (\<exists>k. n = 2 ^ k)"
proof (induction n rule: less_induct)
  case (less n)
  show ?case
  proof (cases "even n")
    case True
    then obtain m where m: "n = 2 * m" by (elim evenE)
    with less.prems have "m \<noteq> 0" by simp
    have "n AND (n - 1) = 2 * (m AND (m - 1))"
    proof -
      have "n - 1 = 1 + 2 * (m - 1)" using \<open>m \<noteq> 0\<close> m by simp
      then show ?thesis
        by (simp add: m and_nat_rec [of "2 * m"])
    qed
    then have "n AND (n - 1) = 0 \<longleftrightarrow> (\<exists>k. m = 2 ^ k)"
      using less.IH [of m] \<open>m \<noteq> 0\<close> m by simp
    also have "\<dots> \<longleftrightarrow> (\<exists>k. n = 2 ^ k)"
      by (metis True m even_power mult_cancel1 not0_implies_Suc odd_one power_0 power_Suc
          zero_neq_numeral)
    finally show ?thesis .
  next
    case False
    then obtain m where m: "n = 2 * m + 1" by (elim oddE)
    have "n AND (n - 1) = 2 * m"
      by (simp add: m and_nat_rec [of "Suc (2 * m)"])
    moreover have "(\<exists>k. n = 2 ^ k) \<longleftrightarrow> m = 0"
    proof
      assume "\<exists>k. n = 2 ^ k"
      then obtain k where "n = 2 ^ k" ..
      with False have "k = 0" by (cases k) auto
      with \<open>n = 2 ^ k\<close> m show "m = 0" by simp
    qed (auto simp: m intro: exI [of _ 0])
    ultimately show ?thesis by simp
  qed
qed

lemma word_power_of_two_iff:
  assumes "(a :: 'a::len word) \<noteq> 0"
  shows "a AND (a - 1) = 0 \<longleftrightarrow> (\<exists>k < LENGTH('a). unat a = 2 ^ k)"
proof -
  have "unat (a - 1) = unat a - 1"
    using assms by (simp add: unat_minus_one)
  then have "unat (a AND (a - 1)) = (unat a AND (unat a - 1))"
    by (simp add: unsigned_and_eq)
  then have "a AND (a - 1) = 0 \<longleftrightarrow> unat a AND (unat a - 1) = 0"
    by (metis unat_eq_zero)
  also have "\<dots> \<longleftrightarrow> (\<exists>k. unat a = 2 ^ k)"
    using assms by (intro nat_power_of_two_iff) (simp add: unat_eq_zero)
  also have "\<dots> \<longleftrightarrow> (\<exists>k < LENGTH('a). unat a = 2 ^ k)"
  proof -
    have "k < LENGTH('a)" if "unat a = 2 ^ k" for k
      using unat_bound [of a] unfolding that by simp
    then show ?thesis by blast
  qed
  finally show ?thesis .
qed

lemma align_mask:
  assumes "k < LENGTH('a)" and "unat (a :: 'a::len word) = 2 ^ k"
  shows "unat (x AND NOT (a - 1)) = unat x div 2 ^ k * 2 ^ k"
proof -
  have "a = 2 ^ k"
    using assms(2) by (metis of_nat_numeral of_nat_power of_nat_unat_word)
  then have "a - 1 = mask k"
    by (simp add: mask_eq_exp_minus_1)
  then have "x AND NOT (a - 1) = push_bit k (drop_bit k x)"
    by (simp add: bit_eq_iff bit_and_iff bit_not_iff bit_mask_iff bit_push_bit_iff bit_drop_bit_eq)
      (auto dest: bit_imp_le_length)
  then have "unat (x AND NOT (a - 1)) = take_bit LENGTH('a) (push_bit k (drop_bit k (unat x)))"
    by (simp add: unsigned_push_bit_eq unsigned_drop_bit_eq take_bit_nat_eq_self)
  then have "unat (x AND NOT (a - 1)) = take_bit LENGTH('a) (unat x div 2 ^ k * 2 ^ k)"
    by (simp add: push_bit_eq_mult drop_bit_eq_div)
  moreover have "unat x div 2 ^ k * 2 ^ k < 2 ^ LENGTH('a)"
    using le_less_trans [OF div_times_less_eq_dividend unat_bound [of x]] .
  ultimately show ?thesis
    by (simp add: take_bit_nat_eq_self)
qed

text \<open>C29: \<^verbatim>\<open>checked_align_up\<close> succeeds exactly when the alignment is a power of two and the
  adjusted value stays in range; the result is the least multiple of the alignment that is not below
  the value.\<close>

theorem checked_align_up_exact:
  "checked_align_up v a = Inr r \<longleftrightarrow>
     (\<exists>k < LENGTH('a). unat a = 2 ^ k \<and> unat v + (2 ^ k - 1) < 2 ^ LENGTH('a) \<and>
        unat (r :: 'a::len word) = (unat v + (2 ^ k - 1)) div 2 ^ k * 2 ^ k)"
    (is "_ \<longleftrightarrow> ?rhs")
proof (cases "a \<noteq> 0 \<and> a AND (a - 1) = 0")
  case True
  then obtain k where k: "k < LENGTH('a)" "unat a = 2 ^ k"
    using word_power_of_two_iff by blast
  have rhs: "?rhs \<longleftrightarrow> unat v + (2 ^ k - 1) < 2 ^ LENGTH('a) \<and>
      unat r = (unat v + (2 ^ k - 1)) div 2 ^ k * 2 ^ k"
    using k by auto
  have mask: "unat (a - 1) = 2 ^ k - 1"
    using True k by (simp add: unat_minus_one)
  show ?thesis
  proof (cases "checked_add v (a - 1)")
    case None
    then have "2 ^ LENGTH('a) \<le> unat v + (2 ^ k - 1)"
      by (simp add: checked_add_None mask)
    with True None show ?thesis
      unfolding rhs by (simp add: checked_align_up_def)
  next
    case (Some adjusted)
    then have adj: "unat v + (2 ^ k - 1) < 2 ^ LENGTH('a)" "unat adjusted = unat v + (2 ^ k - 1)"
      using mask checked_add_iff [of v "a - 1" adjusted] by simp_all
    have "checked_align_up v a = Inr (adjusted AND NOT (a - 1))"
      using True Some by (simp add: checked_align_up_def)
    with adj show ?thesis
      unfolding rhs using align_mask [OF k, of adjusted] by (auto simp: word_unat_eq_iff)
  qed
next
  case False
  have "\<not> (\<exists>k < LENGTH('a). unat a = 2 ^ k)"
  proof (cases "a = 0")
    case True
    then show ?thesis by simp
  next
    case nonzero: False
    then show ?thesis using False word_power_of_two_iff [OF nonzero] by blast
  qed
  with False show ?thesis
    by (auto simp: checked_align_up_def)
qed

lemma checked_size_refines:
  assumes "a \<le> size_max" and "b \<le> size_max"
  shows "checked_add_size a b = map_option unat (checked_add (of_nat a :: u64) (of_nat b))"
    and "checked_multiply_size a b = map_option unat (checked_multiply (of_nat a :: u64) (of_nat b))"
proof -
  have small: "a < 2 ^ 64" "b < 2 ^ 64"
    using assms by (simp_all add: size_max_def)
  then have unat: "unat (of_nat a :: u64) = a" "unat (of_nat b :: u64) = b"
    by (simp_all add: unat_of_nat_small)
  show "checked_add_size a b = map_option unat (checked_add (of_nat a :: u64) (of_nat b))"
  proof (cases "checked_add (of_nat a :: u64) (of_nat b)")
    case None
    then show ?thesis
      using unat small by (simp add: checked_add_None checked_add_size_def size_max_def) linarith
  next
    case (Some c)
    then have "a + b < 2 ^ 64" "unat c = a + b"
      using checked_add_iff [of "of_nat a :: u64" "of_nat b" c] unat by simp_all
    with Some show ?thesis
      by (simp add: checked_add_size_def size_max_def)
  qed
  show "checked_multiply_size a b = map_option unat (checked_multiply (of_nat a :: u64) (of_nat b))"
  proof (cases "checked_multiply (of_nat a :: u64) (of_nat b)")
    case None
    then have over: "\<not> a * b < 2 ^ 64"
      using checked_multiply_iff [of "of_nat a :: u64" "of_nat b" "of_nat (a * b)"] unat
      by (auto simp: unat_of_nat_small simp del: of_nat_mult)
    then have "a \<noteq> 0" by (cases a) simp_all
    then have "b > size_max div a"
      using over by (subst div_less_iff_less_mult) (simp_all add: size_max_def mult.commute)
    with None \<open>a \<noteq> 0\<close> show ?thesis
      by (simp add: checked_multiply_size_def)
  next
    case (Some c)
    then have fits: "a * b < 2 ^ 64" "unat c = a * b"
      using checked_multiply_iff [of "of_nat a :: u64" "of_nat b" c] unat by simp_all
    have "\<not> b > size_max div a" if "a \<noteq> 0"
      using fits that by (subst div_less_iff_less_mult) (simp_all add: size_max_def mult.commute)
    with Some fits show ?thesis
      by (auto simp: checked_multiply_size_def)
  qed
qed

end
