(* ===== verification/Raft_Membership.thy ===== *)
theory Raft_Membership
  imports Membership Checked_Math
begin

text \<open>
  The configuration side of \<^verbatim>\<open>src/raft/node.cpp\<close>: the byte budget of the persistent state
  (\<^verbatim>\<open>include/chronos/raft/persistent_state_budget.hpp\<close>), the validity of voter lists and
  snapshots, and the derivation of the committed, active and joint configuration from the log.
\<close>

section \<open>Limits and the byte budget\<close>

record RaftLimits =
  maximum_voters :: nat
  maximum_log_entries :: nat
  maximum_entry_bytes :: nat
  maximum_append_entries :: nat
  maximum_persistent_state_bytes :: nat

definition kRaftPersistentStateFixedSizeV1 :: nat where
  "kRaftPersistentStateFixedSizeV1 = 112"

definition kRaftPersistentLogEntryFixedSizeV1 :: nat where
  "kRaftPersistentLogEntryFixedSizeV1 = 32"

definition kMaximumRaftPersistentStatePayloadSize :: nat where
  "kMaximumRaftPersistentStatePayloadSize = 16 * 1024 * 1024 - 64 - 4"

definition default_limits :: RaftLimits where
  "default_limits = \<lparr>maximum_voters = 31, maximum_log_entries = 2 ^ 20,
                     maximum_entry_bytes = 16 * 1024 * 1024, maximum_append_entries = 1024,
                     maximum_persistent_state_bytes = kMaximumRaftPersistentStatePayloadSize\<rparr>"

text \<open>One iteration of the loop over the log: the fixed part and the payload of an entry.\<close>

definition add_entry_size :: "nat \<Rightarrow> LogEntry \<Rightarrow> nat option" where
  "add_entry_size sz e =
     (case checked_add_size sz kRaftPersistentLogEntryFixedSizeV1 of
        None \<Rightarrow> None
      | Some s \<Rightarrow> checked_add_size s (length (entry_payload e)))"

fun log_size_loop :: "nat \<Rightarrow> LogEntry list \<Rightarrow> nat result" where
  "log_size_loop sz [] = Inr sz"
| "log_size_loop sz (e # es) =
     (case add_entry_size sz e of
        None \<Rightarrow> Inl kOutOfRange
      | Some sz' \<Rightarrow> log_size_loop sz' es)"

definition raft_persistent_state_payload_size :: "nat \<Rightarrow> LogEntry list \<Rightarrow> nat result" where
  "raft_persistent_state_payload_size snapshot_voter_count entries =
     (case checked_multiply_size snapshot_voter_count 8 of
        None \<Rightarrow> Inl kOutOfRange
      | Some voter_bytes \<Rightarrow>
          (case checked_add_size kRaftPersistentStateFixedSizeV1 voter_bytes of
             None \<Rightarrow> Inl kOutOfRange
           | Some sz \<Rightarrow> log_size_loop sz entries))"

definition persistent_state_fits :: "nat \<Rightarrow> LogEntry list \<Rightarrow> RaftLimits \<Rightarrow> StatusCode" where
  "persistent_state_fits snapshot_voter_count entries lim =
     (case raft_persistent_state_payload_size snapshot_voter_count entries of
        Inl _ \<Rightarrow> kResourceExhausted
      | Inr sz \<Rightarrow> if sz \<le> maximum_persistent_state_bytes lim then kOk else kResourceExhausted)"

definition appended_entry_fits :: "PersistentState \<Rightarrow> nat \<Rightarrow> RaftLimits \<Rightarrow> StatusCode" where
  "appended_entry_fits st payload_size lim =
     (case raft_persistent_state_payload_size (length (snapshot_voters (snapshot st))) (log st) of
        Inl _ \<Rightarrow> kResourceExhausted
      | Inr sz \<Rightarrow>
          (case (case checked_add_size sz kRaftPersistentLogEntryFixedSizeV1 of
                   None \<Rightarrow> None
                 | Some appended \<Rightarrow> checked_add_size appended payload_size) of
             None \<Rightarrow> kResourceExhausted
           | Some appended \<Rightarrow>
               if appended \<le> maximum_persistent_state_bytes lim then kOk else kResourceExhausted))"

section \<open>Configurations\<close>

record JointConfiguration =
  jc_old_voters :: "NodeId list"
  jc_new_voters :: "NodeId list"
  joint_index :: LogIndex
  final_pending :: bool

record DerivedMembership =
  dm_committed_voters :: "NodeId list"
  dm_active_voters :: "NodeId list"
  dm_joint :: "JointConfiguration option"

definition voter_union :: "NodeId list \<Rightarrow> NodeId list \<Rightarrow> NodeId list" where
  "voter_union a b = set_union a b"

definition valid_voters :: "NodeId list \<Rightarrow> nat \<Rightarrow> bool" where
  "valid_voters vs maximum =
     (vs \<noteq> [] \<and> length vs \<le> maximum \<and> hd vs \<noteq> 0 \<and> sorted vs \<and> no_adjacent_equal vs)"

definition valid_snapshot :: "SnapshotMetadata \<Rightarrow> nat \<Rightarrow> bool" where
  "valid_snapshot s maximum =
     (last_included_index s \<noteq> 0 \<and> last_included_index s \<noteq> - 1 \<and> last_included_term s \<noteq> 0 \<and>
      manifest_generation s \<noteq> 0 \<and> configuration_index s \<le> last_included_index s \<and>
      valid_voters (snapshot_voters s) maximum)"

text \<open>One iteration of \<^verbatim>\<open>derive_membership\<close>. \<open>std::get_if\<close> on the decoded variant is the case
  distinction on the command.\<close>

definition derive_joint :: "RaftLimits \<Rightarrow> DerivedMembership \<Rightarrow> LogEntry \<Rightarrow> MembershipCommand \<Rightarrow>
    DerivedMembership result" where
  "derive_joint lim d e command =
     (case command of
        FinalMembershipCommand _ _ \<Rightarrow> Inl kCorruption
      | JointMembershipCommand old new \<Rightarrow>
          if dm_joint d \<noteq> None \<or> old \<noteq> dm_committed_voters d then Inl kCorruption
          else let active = voter_union old new
               in if length active > maximum_voters lim then Inl kInvalidArgument
                  else Inr (d\<lparr>dm_active_voters := active,
                             dm_joint := Some \<lparr>jc_old_voters = old, jc_new_voters = new,
                                               joint_index = entry_index e,
                                               final_pending = False\<rparr>\<rparr>))"

definition derive_final :: "LogIndex \<Rightarrow> DerivedMembership \<Rightarrow> LogEntry \<Rightarrow> MembershipCommand \<Rightarrow>
    DerivedMembership result" where
  "derive_final commit d e command =
     (case (command, dm_joint d) of
        (FinalMembershipCommand j new, Some jc) \<Rightarrow>
          if final_pending jc \<or> j \<noteq> joint_index jc \<or> new \<noteq> jc_new_voters jc \<or> joint_index jc > commit
          then Inl kCorruption
          else if entry_index e \<le> commit
          then Inr \<lparr>dm_committed_voters = new, dm_active_voters = new, dm_joint = None\<rparr>
          else Inr (d\<lparr>dm_joint := Some (jc\<lparr>final_pending := True\<rparr>)\<rparr>)
      | _ \<Rightarrow> Inl kCorruption)"

definition derive_step :: "LogIndex \<Rightarrow> RaftLimits \<Rightarrow> DerivedMembership \<Rightarrow> LogEntry \<Rightarrow>
    DerivedMembership result" where
  "derive_step commit lim d e =
     (if \<not> is_membership_entry_type (entry_type e) then Inr d
      else case decode_membership_command_v1 (entry_payload e) (maximum_voters lim) of
        Inl err \<Rightarrow> make_unexpected err
      | Inr command \<Rightarrow>
          if entry_type e = kJointMembershipEntryType then derive_joint lim d e command
          else derive_final commit d e command)"

fun derive_loop :: "LogIndex \<Rightarrow> RaftLimits \<Rightarrow> DerivedMembership \<Rightarrow> LogEntry list \<Rightarrow>
    DerivedMembership result" where
  "derive_loop commit lim d [] = Inr d"
| "derive_loop commit lim d (e # es) =
     (case derive_step commit lim d e of
        Inl err \<Rightarrow> Inl err
      | Inr d' \<Rightarrow> derive_loop commit lim d' es)"

definition derive_membership :: "NodeId list \<Rightarrow> LogEntry list \<Rightarrow> LogIndex \<Rightarrow> RaftLimits \<Rightarrow>
    DerivedMembership result" where
  "derive_membership base entries commit lim =
     derive_loop commit lim
       \<lparr>dm_committed_voters = base, dm_active_voters = base, dm_joint = None\<rparr> entries"

text \<open>What a derived configuration satisfies: the voter lists are sorted, distinct, nonzero and
  within the bound, and a joint configuration is active on the union of its two sides.\<close>

definition config_wf :: "RaftLimits \<Rightarrow> DerivedMembership \<Rightarrow> bool" where
  "config_wf lim d =
     (valid_voters (dm_committed_voters d) (maximum_voters lim) \<and>
      (case dm_joint d of
         None \<Rightarrow> dm_active_voters d = dm_committed_voters d
       | Some j \<Rightarrow> jc_old_voters j = dm_committed_voters d \<and>
           valid_voters (jc_new_voters j) (maximum_voters lim) \<and>
           dm_active_voters d = voter_union (jc_old_voters j) (jc_new_voters j) \<and>
           length (dm_active_voters d) \<le> maximum_voters lim))"

section \<open>Voter lists\<close>

lemma valid_voters_canonical: "valid_voters vs m \<longleftrightarrow> canonical vs m"
  by (simp add: valid_voters_def canonical_def)

lemma valid_voters_iff:
  "valid_voters vs m \<longleftrightarrow> vs \<noteq> [] \<and> length vs \<le> m \<and> sorted vs \<and> distinct vs \<and> 0 \<notin> set vs"
proof -
  have "hd vs \<noteq> 0 \<longleftrightarrow> 0 \<notin> set vs" if "vs \<noteq> []" "sorted vs"
    using that by (cases vs) auto
  then show ?thesis
    by (auto simp: valid_voters_def no_adjacent_equal_sorted_distinct)
qed

lemma valid_voters_union:
  "valid_voters a m \<Longrightarrow> valid_voters b m \<Longrightarrow> length (voter_union a b) \<le> k \<Longrightarrow>
   valid_voters (voter_union a b) k"
  by (simp add: valid_voters_iff voter_union_def sorted_set_union distinct_set_union)

section \<open>Derivation\<close>

lemma derive_loop_append:
  "derive_loop c lim d (xs @ ys) =
     (case derive_loop c lim d xs of Inl e \<Rightarrow> Inl e | Inr d' \<Rightarrow> derive_loop c lim d' ys)"
  by (induction xs arbitrary: d) (auto split: sum.splits)

lemma derive_loop_plain:
  "\<forall>e \<in> set es. \<not> is_membership_entry_type (entry_type e) \<Longrightarrow> derive_loop c lim d es = Inr d"
  by (induction es) (simp_all add: derive_step_def)

lemma decoded_voters:
  assumes "decode_membership_command_v1 bytes m = Inr c"
  shows "case c of JointMembershipCommand old new \<Rightarrow> valid_voters old m \<and> valid_voters new m
    | FinalMembershipCommand j new \<Rightarrow> j \<noteq> 0 \<and> valid_voters new m"
proof -
  obtain kind j old new where
      sem: "membership_semantics_canonical (kind_code kind) j old new m"
    and c: "c = command_of kind j old new"
    by (rule decode_membership_Inr [OF assms])
  show ?thesis
    using membership_semantics_canonicalD [OF sem] c
    by (cases kind) (simp_all add: valid_voters_canonical)
qed

lemma derive_step_cases:
  assumes "derive_step c lim d e = Inr d'"
  obtains (plain) "\<not> is_membership_entry_type (entry_type e)" "d' = d"
  | (joint) old new where "entry_type e = kJointMembershipEntryType" "dm_joint d = None"
      "old = dm_committed_voters d" "valid_voters new (maximum_voters lim)"
      "length (voter_union old new) \<le> maximum_voters lim"
      "d' = d\<lparr>dm_active_voters := voter_union old new,
              dm_joint := Some \<lparr>jc_old_voters = old, jc_new_voters = new,
                                joint_index = entry_index e, final_pending = False\<rparr>\<rparr>"
  | (final) new jc where "entry_type e = kFinalMembershipEntryType" "dm_joint d = Some jc"
      "\<not> final_pending jc" "new = jc_new_voters jc" "joint_index jc \<le> c"
      "d' = (if entry_index e \<le> c
             then \<lparr>dm_committed_voters = new, dm_active_voters = new, dm_joint = None\<rparr>
             else d\<lparr>dm_joint := Some (jc\<lparr>final_pending := True\<rparr>)\<rparr>)"
proof (cases "is_membership_entry_type (entry_type e)")
  case False
  with assms plain show ?thesis by (simp add: derive_step_def)
next
  case True
  then obtain cmd where cmd: "decode_membership_command_v1 (entry_payload e) (maximum_voters lim) = Inr cmd"
    and step: "(if entry_type e = kJointMembershipEntryType then derive_joint lim d e cmd
                else derive_final c d e cmd) = Inr d'"
    using assms by (auto simp: derive_step_def split: sum.splits)
  show ?thesis
  proof (cases "entry_type e = kJointMembershipEntryType")
    case True
    with step have "derive_joint lim d e cmd = Inr d'" by simp
    then obtain old new where "cmd = JointMembershipCommand old new" "dm_joint d = None"
      "old = dm_committed_voters d" "length (voter_union old new) \<le> maximum_voters lim"
      "d' = d\<lparr>dm_active_voters := voter_union old new,
              dm_joint := Some \<lparr>jc_old_voters = old, jc_new_voters = new,
                                joint_index = entry_index e, final_pending = False\<rparr>\<rparr>"
      by (auto simp: derive_joint_def Let_def split: MembershipCommand.splits if_splits)
    with decoded_voters [OF cmd] True joint [of old new] show ?thesis by simp
  next
    case False
    with True have kind: "entry_type e = kFinalMembershipEntryType"
      by (simp add: is_membership_entry_type_def)
    from False step have "derive_final c d e cmd = Inr d'" by simp
    then obtain new jc where "dm_joint d = Some jc" "\<not> final_pending jc" "new = jc_new_voters jc"
      "joint_index jc \<le> c"
      "d' = (if entry_index e \<le> c
             then \<lparr>dm_committed_voters = new, dm_active_voters = new, dm_joint = None\<rparr>
             else d\<lparr>dm_joint := Some (jc\<lparr>final_pending := True\<rparr>)\<rparr>)"
      by (auto simp: derive_final_def not_less split: MembershipCommand.splits option.splits if_splits)
    with kind final [of jc new] show ?thesis by simp
  qed
qed

lemma derive_step_wf:
  assumes "config_wf lim d" and "derive_step c lim d e = Inr d'"
  shows "config_wf lim d'"
  using assms(2)
proof (cases rule: derive_step_cases)
  case plain
  with assms(1) show ?thesis by simp
next
  case (joint old new)
  with assms(1) show ?thesis by (simp add: config_wf_def)
next
  case (final new jc)
  with assms(1) show ?thesis by (auto simp: config_wf_def)
qed

lemma derive_loop_wf: "config_wf lim d \<Longrightarrow> derive_loop c lim d es = Inr d' \<Longrightarrow> config_wf lim d'"
  by (induction es arbitrary: d) (auto split: sum.splits dest: derive_step_wf)

lemma derive_membership_wf:
  "valid_voters base (maximum_voters lim) \<Longrightarrow> derive_membership base es c lim = Inr d \<Longrightarrow> config_wf lim d"
  unfolding derive_membership_def by (rule derive_loop_wf) (simp_all add: config_wf_def)

lemma config_wf_active: "config_wf lim d \<Longrightarrow> valid_voters (dm_active_voters d) (maximum_voters lim)"
  by (auto simp: config_wf_def valid_voters_union split: option.splits)

section \<open>Commit index\<close>

text \<open>Once a final entry is pending, no further membership entry derives.\<close>

lemma derive_pending_stops:
  assumes "dm_joint d = Some j" and "final_pending j" and "derive_loop c lim d es = Inr d'"
  shows "d' = d \<and> (\<forall>e \<in> set es. \<not> is_membership_entry_type (entry_type e))"
  using assms(3)
proof (induction es)
  case (Cons e es)
  then obtain d1 where step: "derive_step c lim d e = Inr d1" and rest: "derive_loop c lim d1 es = Inr d'"
    by (auto split: sum.splits)
  from step have "d1 = d \<and> \<not> is_membership_entry_type (entry_type e)"
    using assms(1,2) by (cases rule: derive_step_cases) auto
  with Cons.IH rest show ?case by simp
qed simp

text \<open>A larger commit index never makes a derivation fail: it at most completes the pending final
  configuration.\<close>

lemma derive_step_commit_mono:
  assumes "derive_step c lim d e = Inr d1" and "c \<le> c'"
  shows "derive_step c' lim d e = Inr d1 \<or>
    (\<exists>j. dm_joint d1 = Some j \<and> final_pending j \<and> derive_step c' lim d e =
       Inr \<lparr>dm_committed_voters = jc_new_voters j, dm_active_voters = jc_new_voters j, dm_joint = None\<rparr>)"
proof (cases "is_membership_entry_type (entry_type e) \<and> entry_type e \<noteq> kJointMembershipEntryType")
  case False
  then have "derive_step c' lim d e = derive_step c lim d e"
    by (auto simp: derive_step_def split: sum.splits)
  with assms show ?thesis by simp
next
  case True
  then obtain j new jc where
      cmd: "decode_membership_command_v1 (entry_payload e) (maximum_voters lim)
              = Inr (FinalMembershipCommand j new)"
    and jc: "dm_joint d = Some jc" "\<not> final_pending jc" "j = joint_index jc" "new = jc_new_voters jc"
      "joint_index jc \<le> c"
    and d1: "d1 = (if entry_index e \<le> c
             then \<lparr>dm_committed_voters = new, dm_active_voters = new, dm_joint = None\<rparr>
             else d\<lparr>dm_joint := Some (jc\<lparr>final_pending := True\<rparr>)\<rparr>)"
    using assms(1) by (auto simp: derive_step_def derive_final_def
        split: sum.splits MembershipCommand.splits option.splits if_splits)
  have "derive_step c' lim d e = Inr (if entry_index e \<le> c'
             then \<lparr>dm_committed_voters = new, dm_active_voters = new, dm_joint = None\<rparr>
             else d\<lparr>dm_joint := Some (jc\<lparr>final_pending := True\<rparr>)\<rparr>)"
    using True cmd jc assms(2) by (simp add: derive_step_def derive_final_def)
  with d1 jc assms(2) show ?thesis
    by (cases "entry_index e \<le> c"; cases "entry_index e \<le> c'") auto
qed

lemma derive_commit_mono:
  assumes "derive_loop c lim d es = Inr r" and "c \<le> c'"
  shows "derive_loop c' lim d es = Inr r \<or>
    (\<exists>j. dm_joint r = Some j \<and> final_pending j \<and> derive_loop c' lim d es =
       Inr \<lparr>dm_committed_voters = jc_new_voters j, dm_active_voters = jc_new_voters j, dm_joint = None\<rparr>)"
  using assms(1)
proof (induction es arbitrary: d)
  case (Cons e es)
  then obtain d1 where step: "derive_step c lim d e = Inr d1" and rest: "derive_loop c lim d1 es = Inr r"
    by (auto split: sum.splits)
  from derive_step_commit_mono [OF step assms(2)] show ?case
  proof
    assume "derive_step c' lim d e = Inr d1"
    with Cons.IH [OF rest] show ?thesis by simp
  next
    assume "\<exists>j. dm_joint d1 = Some j \<and> final_pending j \<and> derive_step c' lim d e =
       Inr \<lparr>dm_committed_voters = jc_new_voters j, dm_active_voters = jc_new_voters j, dm_joint = None\<rparr>"
    then obtain j where j: "dm_joint d1 = Some j" "final_pending j" "derive_step c' lim d e =
       Inr \<lparr>dm_committed_voters = jc_new_voters j, dm_active_voters = jc_new_voters j, dm_joint = None\<rparr>"
      by blast
    with derive_pending_stops [OF j(1,2) rest] show ?thesis
      by (auto simp: derive_loop_plain)
  qed
qed simp

lemma derive_membership_commit_mono:
  assumes "derive_membership base es c lim = Inr d" and "c \<le> c'"
  shows "\<exists>d'. derive_membership base es c' lim = Inr d'"
  using derive_commit_mono [OF assms(1) [unfolded derive_membership_def] assms(2)]
  by (auto simp: derive_membership_def)

text \<open>The commit index does not matter for entries at or below it.\<close>

lemma derive_commit_irrelevant:
  assumes "\<forall>e \<in> set es. entry_index e \<le> c \<and> entry_index e \<le> c'"
    and "\<forall>j. dm_joint d = Some j \<longrightarrow> joint_index j \<le> c \<and> joint_index j \<le> c'"
  shows "derive_loop c lim d es = derive_loop c' lim d es"
  using assms
proof (induction es arbitrary: d)
  case (Cons e es)
  have "derive_step c lim d e = derive_step c' lim d e"
    using Cons.prems by (auto simp: derive_step_def derive_final_def
        split: sum.splits MembershipCommand.splits option.splits)
  moreover have "\<forall>j. dm_joint d1 = Some j \<longrightarrow> joint_index j \<le> c \<and> joint_index j \<le> c'"
    if "derive_step c lim d e = Inr d1" for d1
    using that Cons.prems by (cases rule: derive_step_cases) auto
  ultimately show ?case
    using Cons by (auto split: sum.splits)
qed simp

lemma derive_compacted:
  assumes whole: "derive_membership base (pre @ suf) c lim = Inr d"
    and prefix: "derive_membership base pre s lim = Inr p" and stable: "dm_joint p = None"
    and below: "\<forall>e \<in> set pre. entry_index e \<le> s" and "s \<le> c" and base: "valid_voters base (maximum_voters lim)"
  shows "derive_membership (dm_committed_voters p) suf c lim = Inr d"
proof -
  have "derive_membership base pre c lim = Inr p"
    using prefix below \<open>s \<le> c\<close>
    unfolding derive_membership_def by (subst derive_commit_irrelevant [where c' = s]) auto
  moreover obtain vs where "p = \<lparr>dm_committed_voters = vs, dm_active_voters = vs, dm_joint = None\<rparr>"
    using derive_membership_wf [OF base prefix] stable by (cases p) (simp add: config_wf_def)
  ultimately show ?thesis
    using whole unfolding derive_membership_def by (simp add: derive_loop_append)
qed

end
