(* ===== verification/Raft_Node.thy ===== *)
theory Raft_Node
  imports Raft_Membership
begin

text \<open>
  The deterministic Raft node of \<^verbatim>\<open>src/raft/node.cpp\<close>. The record \<open>RaftNode\<close> is the class
  \<^verbatim>\<open>RaftNode::Impl\<close>; every public operation is a function that returns the node afterwards and
  either a failure or the transition for the runtime. A failure is the status of a
  \<^verbatim>\<open>Result\<close>, or the \<^verbatim>\<open>std::out_of_range\<close> that \<^verbatim>\<open>std::map::at\<close> throws and no handler of
  this file catches. Allocation failure is an input: each \<^verbatim>\<open>try\<close> block of the source takes a
  value that says whether an allocation inside it throws.
\<close>

section \<open>State\<close>

datatype Failure = Failed StatusCode | OutOfRangeThrown

type_synonym 'a outcome = "Failure + 'a"

text \<open>What the allocations of one \<^verbatim>\<open>try\<close> block do; both exceptions are caught and reported as
  \<open>kResourceExhausted\<close>.\<close>

datatype AllocationFault = NoFault | BadAlloc | LengthError

definition throws :: "AllocationFault \<Rightarrow> bool" where
  "throws f = (f \<noteq> NoFault)"

type_synonym Progress = "NodeId \<rightharpoonup> LogIndex"

record PendingReadBarrier =
  prb_term :: Term
  prb_context :: u64
  prb_read_index :: LogIndex
  prb_old_voters :: "NodeId list"
  prb_new_voters :: "NodeId list"
  acknowledgements :: "NodeId set"

record RaftNode =
  node_id :: NodeId
  base_voters :: "NodeId list"
  committed_voters :: "NodeId list"
  voters :: "NodeId list"
  joint :: "JointConfiguration option"
  state :: PersistentState
  limits :: RaftLimits
  role :: Role
  leader_id :: "NodeId option"
  votes :: "NodeId set"
  next_index :: Progress
  match_index :: Progress
  pending_snapshot :: "InstallSnapshotRequest option"
  pending_read_barrier :: "PendingReadBarrier option"
  next_read_context :: u64

section \<open>Reading the log\<close>

definition snapshot_index :: "PersistentState \<Rightarrow> LogIndex" where
  "snapshot_index st = last_included_index (snapshot st)"

definition last_index :: "PersistentState \<Rightarrow> LogIndex" where
  "last_index st = (if log st = [] then snapshot_index st else entry_index (last (log st)))"

definition last_term :: "PersistentState \<Rightarrow> Term" where
  "last_term st =
     (if log st = [] then last_included_term (snapshot st) else entry_term (last (log st)))"

definition offset_for :: "PersistentState \<Rightarrow> LogIndex \<Rightarrow> nat" where
  "offset_for st i = unat (i - snapshot_index st - 1)"

definition term_at :: "PersistentState \<Rightarrow> LogIndex \<Rightarrow> Term option" where
  "term_at st i =
     (if i = 0 then Some 0
      else if i = snapshot_index st then Some (last_included_term (snapshot st))
      else if i \<le> snapshot_index st \<or> i > last_index st then None
      else Some (entry_term (log st ! offset_for st i)))"

definition append_predecessor_term :: "PersistentState \<Rightarrow> LogIndex \<Rightarrow> Term option" where
  "append_predecessor_term st i = (if i < snapshot_index st then None else term_at st i)"

definition candidate_log_is_current :: "PersistentState \<Rightarrow> LogIndex \<Rightarrow> Term \<Rightarrow> bool" where
  "candidate_log_is_current st i t =
     (t > last_term st \<or> (t = last_term st \<and> i \<ge> last_index st))"

section \<open>Quorums\<close>

text \<open>\<^verbatim>\<open>std::binary_search\<close> on the sorted voter list.\<close>

definition voter :: "RaftNode \<Rightarrow> NodeId \<Rightarrow> bool" where
  "voter n node = (node \<in> set (voters n))"

definition majority :: "NodeId list \<Rightarrow> nat" where
  "majority members = length members div 2 + 1"

definition has_majority :: "NodeId list \<Rightarrow> (NodeId \<Rightarrow> bool) \<Rightarrow> bool" where
  "has_majority members P = (length (filter P members) \<ge> majority members)"

text \<open>The rule that elections and replication share: both majorities of a joint configuration,
  otherwise a majority of the committed voters.\<close>

definition configuration_quorum :: "RaftNode \<Rightarrow> (NodeId \<Rightarrow> bool) \<Rightarrow> bool" where
  "configuration_quorum n P =
     (case joint n of
        Some j \<Rightarrow> has_majority (jc_old_voters j) P \<and> has_majority (jc_new_voters j) P
      | None \<Rightarrow> has_majority (committed_voters n) P)"

definition replicated_at :: "Progress \<Rightarrow> LogIndex \<Rightarrow> NodeId \<Rightarrow> bool" where
  "replicated_at m i node = (case m node of None \<Rightarrow> False | Some k \<Rightarrow> k \<ge> i)"

definition replication_quorum :: "RaftNode \<Rightarrow> LogIndex \<Rightarrow> bool" where
  "replication_quorum n i = configuration_quorum n (replicated_at (match_index n) i)"

definition read_barrier_quorum :: "PendingReadBarrier \<Rightarrow> bool" where
  "read_barrier_quorum p =
     (has_majority (prb_old_voters p) (\<lambda>node. node \<in> acknowledgements p) \<and>
      (prb_new_voters p = [] \<or>
       has_majority (prb_new_voters p) (\<lambda>node. node \<in> acknowledgements p)))"

definition finish_read_barrier :: "RaftNode \<Rightarrow> Transition \<Rightarrow> RaftNode \<times> Transition" where
  "finish_read_barrier n t =
     (case pending_read_barrier n of
        None \<Rightarrow> (n, t)
      | Some p \<Rightarrow>
          if \<not> read_barrier_quorum p then (n, t)
          else (n\<lparr>pending_read_barrier := None\<rparr>,
                t\<lparr>read_barrier_ready := Some \<lparr>barrier_term = prb_term p,
                    barrier_context = prb_context p, read_index = prb_read_index p\<rparr>\<rparr>))"

section \<open>Membership and roles\<close>

text \<open>\<^verbatim>\<open>std::map::emplace\<close> keeps an existing element.\<close>

definition emplace :: "Progress \<Rightarrow> NodeId \<Rightarrow> LogIndex \<Rightarrow> Progress" where
  "emplace m k v = (case m k of None \<Rightarrow> m(k \<mapsto> v) | Some _ \<Rightarrow> m)"

text \<open>The first loop of \<^verbatim>\<open>install_membership\<close> erases the progress of nodes that are no longer
  voters: it walks \<open>next_index\<close> and erases the same key from both maps.\<close>

definition erase_departed :: "NodeId list \<Rightarrow> Progress \<times> Progress \<Rightarrow> Progress \<times> Progress" where
  "erase_departed vs = (\<lambda>(nxt, mtch).
     (\<lambda>k. if k \<in> set vs then nxt k else None,
      \<lambda>k. if nxt k \<noteq> None \<and> k \<notin> set vs then None else mtch k))"

text \<open>The second loop adds the progress of the voters that have none.\<close>

fun add_members :: "NodeId \<Rightarrow> LogIndex \<Rightarrow> NodeId list \<Rightarrow> Progress \<times> Progress \<Rightarrow>
    Progress \<times> Progress" where
  "add_members self last_i [] (nxt, mtch) = (nxt, mtch)"
| "add_members self last_i (member # members) (nxt, mtch) =
     (if nxt member = None
      then add_members self last_i members
             (emplace nxt member (if member = self then last_i + 1 else 1),
              emplace mtch member (if member = self then last_i else 0))
      else add_members self last_i members (nxt, mtch))"

definition install_membership :: "RaftNode \<Rightarrow> DerivedMembership \<Rightarrow> RaftNode" where
  "install_membership n d =
     (let n' = n\<lparr>committed_voters := dm_committed_voters d, voters := dm_active_voters d,
                 joint := dm_joint d\<rparr>
      in if role n' \<noteq> kLeader then n'
         else let (nxt, mtch) = add_members (node_id n') (last_index (state n')) (voters n')
                    (erase_departed (voters n') (next_index n', match_index n'))
              in n'\<lparr>next_index := nxt, match_index := mtch\<rparr>)"

definition become_follower :: "RaftNode \<Rightarrow> Term \<Rightarrow> NodeId option \<Rightarrow> RaftNode" where
  "become_follower n t leader =
     n\<lparr>role := kFollower, leader_id := leader, votes := {}, next_index := Map.empty,
       match_index := Map.empty, pending_read_barrier := None,
       state := (if t > current_term (state n)
                 then (state n)\<lparr>current_term := t, voted_for := None\<rparr>
                 else state n)\<rparr>"

definition step_down_if_removed :: "RaftNode \<Rightarrow> RaftNode" where
  "step_down_if_removed n =
     (if role n = kLeader \<and> \<not> voter n (node_id n)
      then become_follower n (current_term (state n)) None
      else n)"

section \<open>Replication\<close>

text \<open>\<open>None\<close> stands for the exception of \<^verbatim>\<open>prepared_next_index.at(peer)\<close>.\<close>

definition replication_for :: "RaftNode \<Rightarrow> NodeId \<Rightarrow> Progress \<Rightarrow> LogIndex \<Rightarrow> Message option" where
  "replication_for n peer prepared_next_index commit =
     (case prepared_next_index peer of
        None \<Rightarrow> None
      | Some nxt \<Rightarrow>
          let st = state n in
          if nxt \<le> snapshot_index st
          then Some (InstallSnapshot \<lparr>is_term = current_term st, is_leader_id = node_id n,
                                      is_snapshot = snapshot st\<rparr>)
          else let previous = nxt - 1;
                   previous_term = (case term_at st previous of None \<Rightarrow> 0 | Some t \<Rightarrow> t);
                   entries = (if nxt \<le> last_index st
                              then let start = offset_for st nxt;
                                       count = min (maximum_append_entries (limits n))
                                                   (length (log st) - start)
                                   in take count (drop start (log st))
                              else [])
               in Some (AppendEntries \<lparr>ae_term = current_term st, ae_leader_id = node_id n,
                          previous_log_index = previous, previous_log_term = previous_term,
                          ae_entries = entries, leader_commit = commit\<rparr>))"

text \<open>One outbound message per peer, in the order of the list; an exception ends the loop.\<close>

fun replicate_to :: "RaftNode \<Rightarrow> NodeId list \<Rightarrow> Progress \<Rightarrow> LogIndex \<Rightarrow>
    OutboundMessage list option" where
  "replicate_to n [] nxt commit = Some []"
| "replicate_to n (peer # peers) nxt commit =
     (if peer = node_id n then replicate_to n peers nxt commit
      else case replication_for n peer nxt commit of
        None \<Rightarrow> None
      | Some m \<Rightarrow>
          map_option (\<lambda>rest. \<lparr>destination = peer, message = m\<rparr> # rest)
            (replicate_to n peers nxt commit))"

definition append_to_all :: "RaftNode \<Rightarrow> OutboundMessage list option" where
  "append_to_all n = replicate_to n (voters n) (next_index n) (commit_index (state n))"

section \<open>Commit\<close>

text \<open>The downward search for the highest index that satisfies a condition.\<close>

function commit_search :: "(LogIndex \<Rightarrow> bool) \<Rightarrow> LogIndex \<Rightarrow> LogIndex \<Rightarrow> LogIndex option" where
  "commit_search ok candidate commit =
     (if candidate > commit
      then if ok candidate then Some candidate else commit_search ok (candidate - 1) commit
      else None)"
  by pat_completeness auto
termination
proof (relation "measure (\<lambda>(ok, candidate, commit). unat candidate)")
  fix ok :: "LogIndex \<Rightarrow> bool" and candidate commit :: LogIndex
  assume "commit < candidate"
  then have "candidate \<noteq> 0" by auto
  then show "((ok, candidate - 1, commit), ok, candidate, commit)
      \<in> measure (\<lambda>(ok, candidate, commit). unat candidate)"
    by (simp add: unat_minus_one unat_gt_0)
qed simp

declare commit_search.simps [simp del]

definition committable :: "RaftNode \<Rightarrow> Progress \<Rightarrow> LogIndex \<Rightarrow> bool" where
  "committable n m candidate =
     (term_at (state n) candidate = Some (current_term (state n)) \<and>
      configuration_quorum n (replicated_at m candidate))"

text \<open>The flag tells whether the commit index moved.\<close>

definition advance_commit :: "RaftNode \<Rightarrow> Transition \<Rightarrow> (bool \<times> RaftNode \<times> Transition) result" where
  "advance_commit n t =
     (case commit_search (committable n (match_index n)) (last_index (state n))
             (commit_index (state n)) of
        None \<Rightarrow> Inr (False, n, t)
      | Some candidate \<Rightarrow>
          (case derive_membership (base_voters n) (log (state n)) candidate (limits n) of
             Inl e \<Rightarrow> make_unexpected e
           | Inr d \<Rightarrow>
               Inr (True,
                    install_membership (n\<lparr>state := (state n)\<lparr>commit_index := candidate\<rparr>\<rparr>) d,
                    t\<lparr>advanced_commit_index := Some candidate\<rparr>)))"

section \<open>Local appends\<close>

definition push_entry :: "RaftNode \<Rightarrow> u8 \<Rightarrow> byte list \<Rightarrow> RaftNode" where
  "push_entry n t payload =
     n\<lparr>state := (state n)\<lparr>log := log (state n) @
         [\<lparr>entry_index = last_index (state n) + 1, entry_term = current_term (state n),
           entry_type = t, entry_payload = payload\<rparr>]\<rparr>\<rparr>"

text \<open>The leader records its own progress; without it the source reports corruption.\<close>

definition record_self_progress :: "RaftNode \<Rightarrow> LogIndex \<Rightarrow> RaftNode result" where
  "record_self_progress n i =
     (if match_index n (node_id n) = None \<or> next_index n (node_id n) = None then Inl kCorruption
      else Inr (n\<lparr>match_index := (match_index n)(node_id n \<mapsto> i),
                  next_index := (next_index n)(node_id n \<mapsto> i + 1)\<rparr>))"

definition append_local_entry :: "RaftNode \<Rightarrow> u8 \<Rightarrow> byte list \<Rightarrow> (RaftNode \<times> Transition) outcome"
    where
  "append_local_entry n t payload =
     (let i = last_index (state n) + 1 in
      case record_self_progress (push_entry n t payload) i of
        Inl e \<Rightarrow> Inl (Failed e)
      | Inr n1 \<Rightarrow>
          (case advance_commit n1 empty_transition of
             Inl e \<Rightarrow> Inl (Failed e)
           | Inr (advanced, n2, tr) \<Rightarrow>
               (case append_to_all n2 of
                  None \<Rightarrow> Inl OutOfRangeThrown
                | Some out \<Rightarrow>
                    Inr (n2, tr\<lparr>outbound := out, persistent_state := Some (state n2)\<rparr>))))"

definition append_membership_entry :: "RaftNode \<Rightarrow> u8 \<Rightarrow> byte list \<Rightarrow>
    (RaftNode \<times> Transition) outcome" where
  "append_membership_entry n t payload =
     (let i = last_index (state n) + 1;
          n1 = push_entry n t payload in
      case derive_membership (base_voters n1) (log (state n1)) (commit_index (state n1)) (limits n1) of
        Inl e \<Rightarrow> Inl (Failed e)
      | Inr d \<Rightarrow>
          (case record_self_progress (install_membership n1 d) i of
             Inl e \<Rightarrow> Inl (Failed e)
           | Inr n2 \<Rightarrow>
               (case advance_commit n2 empty_transition of
                  Inl e \<Rightarrow> Inl (Failed e)
                | Inr (advanced, n3, tr) \<Rightarrow>
                    (case append_to_all n3 of
                       None \<Rightarrow> Inl OutOfRangeThrown
                     | Some out \<Rightarrow>
                         let n4 = step_down_if_removed n3
                         in Inr (n4, tr\<lparr>outbound := out, persistent_state := Some (state n4)\<rparr>)))))"

end
