(* ===== verification/Multi_Raft_Types.thy ===== *)
theory Multi_Raft_Types
  imports Raft_Node "HOL-Library.List_Lexorder"
begin

text \<open>
  The data of \<^verbatim>\<open>include/chronos/raft/multi_raft.hpp\<close>: a group identity is a UUID, that is sixteen
  bytes compared lexicographically, and the outputs of a node operation are tagged with the group.
\<close>

type_synonym GroupId = "byte list"

definition kUuidSize :: nat where
  "kUuidSize = 16"

definition is_nil :: "GroupId \<Rightarrow> bool" where
  "is_nil g = list_all (\<lambda>b. b = 0) g"

record GroupOutboundMessage =
  gom_group_id :: GroupId
  gom_source :: NodeId
  gom_outbound :: OutboundMessage

record GroupPersistentState =
  gps_group_id :: GroupId
  gps_physical_sequence :: u64
  gps_state :: PersistentState

record GroupSnapshotInstall =
  gsi_group_id :: GroupId
  gsi_install :: PendingSnapshotInstall

record GroupReadBarrier =
  grb_group_id :: GroupId
  grb_barrier :: ReadBarrier

record MultiRaftTransition =
  mt_persistence :: "GroupPersistentState option"
  mt_outbound :: "GroupOutboundMessage list"
  mt_advanced_commit_index :: "LogIndex option"
  mt_snapshot_install :: "GroupSnapshotInstall option"
  mt_read_barrier_ready :: "GroupReadBarrier option"

record MultiRaftLimits =
  maximum_groups :: nat
  maximum_queued_outbound :: nat
  raft_limits :: RaftLimits

end
