(* ===== verification/Ordered_Map.thy ===== *)
theory Ordered_Map
  imports Prelude
begin

text \<open>
  The part of \<^verbatim>\<open>std::map\<close> that the runtimes use, as an association list in the order of its
  keys. Clients rely on the locale \<open>dictionary\<close> only: what a lookup returns after an update, how
  updates change the size, and that a property of all elements is kept by an update with an
  element that has it.
\<close>

section \<open>Operations\<close>

fun ordered_insert :: "'k::linorder \<Rightarrow> 'v \<Rightarrow> ('k \<times> 'v) list \<Rightarrow> ('k \<times> 'v) list" where
  "ordered_insert k v [] = [(k, v)]"
| "ordered_insert k v ((k', v') # m) =
     (if k < k' then (k, v) # (k', v') # m
      else if k = k' then (k, v) # m
      else (k', v') # ordered_insert k v m)"

definition ordered_erase :: "'k \<Rightarrow> ('k \<times> 'v) list \<Rightarrow> ('k \<times> 'v) list" where
  "ordered_erase k m = filter (\<lambda>e. fst e \<noteq> k) m"

definition ordered :: "('k::linorder \<times> 'v) list \<Rightarrow> bool" where
  "ordered m = sorted_wrt (<) (map fst m)"

section \<open>The interface\<close>

locale dictionary =
  fixes find :: "'m \<Rightarrow> 'k \<Rightarrow> 'v option"
    and put :: "'k \<Rightarrow> 'v \<Rightarrow> 'm \<Rightarrow> 'm"
    and erase :: "'k \<Rightarrow> 'm \<Rightarrow> 'm"
    and size_of :: "'m \<Rightarrow> nat"
    and ok :: "'m \<Rightarrow> bool"
  assumes put_ok: "ok m \<Longrightarrow> ok (put k v m)"
    and erase_ok: "ok m \<Longrightarrow> ok (erase k m)"
    and find_put: "ok m \<Longrightarrow> find (put k v m) k' = (if k' = k then Some v else find m k')"
    and find_erase: "ok m \<Longrightarrow> find (erase k m) k' = (if k' = k then None else find m k')"
    and size_put: "ok m \<Longrightarrow> size_of (put k v m) = (if find m k = None then Suc (size_of m) else size_of m)"
    and size_erase: "ok m \<Longrightarrow> size_of (erase k m) = (if find m k = None then size_of m else size_of m - 1)"
begin

definition holds :: "('k \<Rightarrow> 'v \<Rightarrow> bool) \<Rightarrow> 'm \<Rightarrow> bool" where
  "holds P m = (ok m \<and> (\<forall>k v. find m k = Some v \<longrightarrow> P k v))"

lemma holds_put: "holds P m \<Longrightarrow> P k v \<Longrightarrow> holds P (put k v m)"
  by (simp add: holds_def put_ok find_put)

lemma holds_erase: "holds P m \<Longrightarrow> holds P (erase k m)"
  by (simp add: holds_def erase_ok find_erase)

lemma holds_find: "holds P m \<Longrightarrow> find m k = Some v \<Longrightarrow> P k v"
  by (simp add: holds_def)

lemma holds_mono: "holds P m \<Longrightarrow> (\<And>k v. find m k = Some v \<Longrightarrow> P k v \<Longrightarrow> Q k v) \<Longrightarrow> holds Q m"
  by (auto simp: holds_def)

lemma size_update: "ok m \<Longrightarrow> find m k = Some v' \<Longrightarrow> size_of (put k v m) = size_of m"
  by (simp add: size_put)

end

section \<open>The association list is a dictionary\<close>

lemma ordered_Cons: "ordered ((k, v) # m) \<longleftrightarrow> ordered m \<and> (\<forall>k' \<in> fst ` set m. k < k')"
  by (auto simp: ordered_def)

lemma ordered_insert_keys: "fst ` set (ordered_insert k v m) = insert k (fst ` set m)"
  by (induction k v m rule: ordered_insert.induct) auto

lemma ordered_insert_ordered: "ordered m \<Longrightarrow> ordered (ordered_insert k v m)"
  by (induction k v m rule: ordered_insert.induct)
    (auto simp: ordered_Cons ordered_insert_keys ordered_def)

lemma ordered_find_above:
  fixes k :: "'k::linorder"
  shows "\<forall>k' \<in> fst ` set m. k < k' \<Longrightarrow> map_of m k = None"
  by (force simp: map_of_eq_None_iff)

lemma ordered_insert_find:
  "ordered m \<Longrightarrow> map_of (ordered_insert k v m) k' = (if k' = k then Some v else map_of m k')"
  by (induction k v m rule: ordered_insert.induct) (auto simp: ordered_Cons)

lemma ordered_insert_length:
  "ordered m \<Longrightarrow>
     length (ordered_insert k v m) = (if map_of m k = None then Suc (length m) else length m)"
proof (induction k v m rule: ordered_insert.induct)
  case (2 k v k' v' m)
  then have "k < k' \<Longrightarrow> map_of ((k', v') # m) k = None"
    by (intro ordered_find_above) (auto simp: ordered_Cons intro: less_trans)
  with 2 show ?case
    by (auto simp: ordered_Cons)
qed simp

lemma ordered_erase_ordered: "ordered m \<Longrightarrow> ordered (ordered_erase k m)"
  by (induction m) (auto simp: ordered_erase_def ordered_Cons ordered_def)

lemma ordered_erase_find: "map_of (ordered_erase k m) k' = (if k' = k then None else map_of m k')"
  by (induction m) (auto simp: ordered_erase_def)

lemma ordered_erase_length:
  "ordered m \<Longrightarrow>
     length (ordered_erase k m) = (if map_of m k = None then length m else length m - 1)"
proof (induction m)
  case (Cons e m)
  obtain k' v where e: "e = (k', v)" by (cases e)
  show ?case
  proof (cases "k' = k")
    case True
    with Cons.prems e have "map_of m k = None"
      by (auto simp: ordered_Cons intro!: ordered_find_above)
    with True e Cons show ?thesis
      by (auto simp: ordered_erase_def ordered_Cons)
  next
    case False
    with e Cons show ?thesis
      by (cases m) (auto simp: ordered_erase_def ordered_Cons split: if_splits)
  qed
qed (simp add: ordered_erase_def)

interpretation ordered_map: dictionary map_of ordered_insert ordered_erase length ordered
  by unfold_locales
    (simp_all add: ordered_insert_ordered ordered_erase_ordered ordered_insert_find ordered_erase_find
      ordered_insert_length ordered_erase_length)

lemma ordered_map_of: "ordered m \<Longrightarrow> (k, v) \<in> set m \<longleftrightarrow> map_of m k = Some v"
  by (auto simp: ordered_def strict_sorted_iff intro!: map_of_is_SomeI map_of_SomeD)

end
