(* ===== verification/Raft_Log.thy ===== *)
theory Raft_Log
  imports Raft_Node
begin

text \<open>
  Facts about the retained log of the node. A log is contiguous above its base when its entries
  carry the indexes that follow the base one by one and the last of them stays below the reserved
  maximum index; for such a log the offset arithmetic of \<^verbatim>\<open>offset_for\<close> and \<^verbatim>\<open>term_at\<close> is exact
  and every access is in range.
\<close>

section \<open>Definitions\<close>

definition contiguous :: "LogIndex \<Rightarrow> LogEntry list \<Rightarrow> bool" where
  "contiguous base es =
     (unat base + length es < 2 ^ 64 - 1 \<and>
      (\<forall>i < length es. unat (entry_index (es ! i)) = unat base + i + 1))"

definition log_contiguous :: "PersistentState \<Rightarrow> bool" where
  "log_contiguous st = contiguous (snapshot_index st) (log st)"

text \<open>The entry a state holds at an index, and that a step leaves every committed entry in place
  unless it moved behind the snapshot.\<close>

definition entry_at :: "PersistentState \<Rightarrow> LogIndex \<Rightarrow> LogEntry option" where
  "entry_at st i =
     (if snapshot_index st < i \<and> i \<le> last_index st then Some (log st ! offset_for st i) else None)"

definition committed_stable :: "PersistentState \<Rightarrow> PersistentState \<Rightarrow> bool" where
  "committed_stable st st' =
     (\<forall>i. snapshot_index st' < i \<and> i \<le> commit_index st \<longrightarrow> entry_at st' i = entry_at st i)"

section \<open>Contiguous logs\<close>

lemma unat_u64_less: "unat (w :: u64) < 18446744073709551616"
  using unat_bound [of w] by simp

lemma word_eq_max_iff: "w = - 1 \<longleftrightarrow> unat (w :: u64) = 2 ^ 64 - 1"
  using unat_max [where 'a = 64] by (auto simp: word_unat_eq_iff)

lemma unat_plus_one: "unat (w :: u64) < 2 ^ 64 - 1 \<Longrightarrow> unat (w + 1) = unat w + 1"
  by (simp add: unat_word_ariths)

lemma contiguous_Nil [simp]: "contiguous base [] \<longleftrightarrow> base \<noteq> - 1"
  using unat_u64_less [of base] by (auto simp: contiguous_def word_eq_max_iff)

lemma contiguous_append:
  "contiguous base (xs @ ys) \<longleftrightarrow>
     contiguous base xs \<and> contiguous (base + of_nat (length xs)) ys"
proof -
  have "unat (base + of_nat (length xs)) = unat base + length xs"
    if "unat base + length xs < 2 ^ 64 - 1"
    using that by (simp add: unat_word_ariths unat_of_nat_small)
  then show ?thesis
    by (auto simp: contiguous_def nth_append all_conj_distrib)
qed

lemma contiguous_Cons:
  "contiguous base (e # es) \<longleftrightarrow>
     base \<noteq> - 1 \<and> base + 1 \<noteq> - 1 \<and> entry_index e = base + 1 \<and> contiguous (base + 1) es"
proof -
  have "contiguous base [e] \<longleftrightarrow> base \<noteq> - 1 \<and> base + 1 \<noteq> - 1 \<and> entry_index e = base + 1"
  proof (cases "base = - 1")
    case True
    then show ?thesis by (simp add: contiguous_def unat_max)
  next
    case False
    then have base: "unat (base + 1) = unat base + 1"
      by (simp add: unat_Suc_word)
    then have "base + 1 \<noteq> - 1 \<longleftrightarrow> unat base + 1 < 2 ^ 64 - 1"
      using unat_u64_less [of "base + 1"] by (auto simp: word_eq_max_iff)
    moreover have "entry_index e = base + 1 \<longleftrightarrow> unat (entry_index e) = unat base + 1"
      by (simp only: word_unat_eq_iff base)
    ultimately show ?thesis
      using False by (auto simp: contiguous_def)
  qed
  then show ?thesis
    using contiguous_append [of base "[e]" es] by auto
qed

lemma contiguous_snoc:
  "contiguous base (es @ [e]) \<longleftrightarrow>
     contiguous base es \<and> unat (entry_index e) = unat base + length es + 1 \<and>
     unat base + length es + 1 < 2 ^ 64 - 1"
  by (auto simp: contiguous_def nth_append less_Suc_eq)

lemma contiguous_take: "contiguous base es \<Longrightarrow> contiguous base (take k es)"
  by (auto simp: contiguous_def)

lemma contiguous_drop:
  "contiguous base es \<Longrightarrow> k \<le> length es \<Longrightarrow> contiguous (base + of_nat k) (drop k es)"
  using contiguous_append [of base "take k es" "drop k es"] by (simp add: min_absorb2)

lemma contiguous_nth:
  "contiguous base es \<Longrightarrow> i < length es \<Longrightarrow> unat (entry_index (es ! i)) = unat base + i + 1"
  by (simp add: contiguous_def)

lemma contiguous_bound: "contiguous base es \<Longrightarrow> unat base + length es < 2 ^ 64 - 1"
  by (simp add: contiguous_def)

lemma contiguous_last:
  "contiguous base es \<Longrightarrow> es \<noteq> [] \<Longrightarrow> unat (entry_index (last es)) = unat base + length es"
  using contiguous_nth [of base es "length es - 1"] by (simp add: last_conv_nth Suc_leI)

lemma contiguous_in_set:
  assumes "contiguous base es" and "e \<in> set es"
  shows "base < entry_index e \<and> unat (entry_index e) \<le> unat base + length es \<and> entry_index e \<noteq> - 1"
proof -
  from assms(2) obtain i where "i < length es" "es ! i = e"
    by (auto simp: in_set_conv_nth)
  with assms(1) show ?thesis
    using contiguous_nth [of base es i] contiguous_bound [of base es]
    by (auto simp: word_less_nat_alt word_eq_max_iff)
qed

section \<open>Reading the log\<close>

lemma last_index_unat:
  "log_contiguous st \<Longrightarrow> unat (last_index st) = unat (snapshot_index st) + length (log st)"
  using contiguous_last [of "snapshot_index st" "log st"]
  by (simp add: log_contiguous_def last_index_def)

lemma last_index_bound: "log_contiguous st \<Longrightarrow> last_index st \<noteq> - 1 \<and> snapshot_index st \<le> last_index st"
  using last_index_unat [of st] contiguous_bound [of "snapshot_index st" "log st"]
  by (simp add: log_contiguous_def word_eq_max_iff word_le_nat_alt)

lemma offset_for_exact:
  assumes "snapshot_index st < i"
  shows "unat i = unat (snapshot_index st) + offset_for st i + 1"
proof -
  have "unat (i - snapshot_index st) = unat i - unat (snapshot_index st)"
    using assms by (simp add: unat_sub word_le_nat_alt word_less_nat_alt)
  moreover have "unat (i - snapshot_index st - 1) = unat (i - snapshot_index st) - 1"
    using assms by (intro unat_minus_one) auto
  ultimately show ?thesis
    using assms by (simp add: offset_for_def word_less_nat_alt)
qed

lemma offset_for_less:
  assumes "log_contiguous st" and "snapshot_index st < i" and "i \<le> last_index st"
  shows "offset_for st i < length (log st)"
  using assms offset_for_exact [OF assms(2)] last_index_unat [OF assms(1)]
  by (simp add: word_le_nat_alt)

lemma entry_at_offset:
  assumes "log_contiguous st" and "snapshot_index st < i" and "i \<le> last_index st"
  shows "entry_index (log st ! offset_for st i) = i"
  using offset_for_less [OF assms] offset_for_exact [OF assms(2)] assms(1)
    contiguous_nth [of "snapshot_index st" "log st" "offset_for st i"]
  by (simp add: log_contiguous_def word_unat_eq_iff)

lemma entry_index_range:
  assumes "log_contiguous st" and "k < length (log st)"
  shows "snapshot_index st < entry_index (log st ! k) \<and> entry_index (log st ! k) \<le> last_index st"
  using assms last_index_unat [OF assms(1)] contiguous_nth [of "snapshot_index st" "log st" k]
  by (simp add: log_contiguous_def word_less_nat_alt word_le_nat_alt)

lemma offset_of_entry:
  assumes "log_contiguous st" and "k < length (log st)"
  shows "offset_for st (entry_index (log st ! k)) = k"
  using assms entry_index_range [OF assms] contiguous_nth [of "snapshot_index st" "log st" k]
    offset_for_exact [of st "entry_index (log st ! k)"]
  by (simp add: log_contiguous_def)

lemma term_at_entry:
  assumes "log_contiguous st" and "k < length (log st)"
  shows "term_at st (entry_index (log st ! k)) = Some (entry_term (log st ! k))"
  using entry_index_range [OF assms] offset_of_entry [OF assms]
  by (auto simp: term_at_def)

lemma term_at_above:
  assumes "log_contiguous st" and "snapshot_index st < i"
  shows "term_at st i =
    (if i \<le> last_index st then Some (entry_term (log st ! offset_for st i)) else None)"
  using assms by (auto simp: term_at_def)

lemma term_at_beyond: "last_index st < i \<Longrightarrow> log_contiguous st \<Longrightarrow> term_at st i = None"
  using last_index_bound [of st] by (auto simp: term_at_def)

lemma term_at_last: "log_contiguous st \<Longrightarrow> last_index st \<noteq> 0 \<Longrightarrow> term_at st (last_index st) = Some (last_term st)"
  using term_at_entry [of st "length (log st) - 1"]
  by (cases "log st = []") (simp_all add: last_index_def last_term_def last_conv_nth term_at_def [of st "snapshot_index st"])

section \<open>Committed entries\<close>

lemma entry_at_same: "snapshot st' = snapshot st \<Longrightarrow> log st' = log st \<Longrightarrow> entry_at st' i = entry_at st i"
  by (simp add: entry_at_def snapshot_index_def last_index_def offset_for_def)

lemma committed_stable_same:
  "snapshot st' = snapshot st \<Longrightarrow> log st' = log st \<Longrightarrow> committed_stable st st'"
  unfolding committed_stable_def using entry_at_same [of st' st] by blast

lemma entry_at_nth:
  assumes "log_contiguous st"
  shows "entry_at st i = Some e \<longleftrightarrow>
    (\<exists>k < length (log st). unat i = unat (snapshot_index st) + k + 1 \<and> log st ! k = e)"
proof
  assume "entry_at st i = Some e"
  then show "\<exists>k < length (log st). unat i = unat (snapshot_index st) + k + 1 \<and> log st ! k = e"
    using offset_for_less [OF assms, of i] offset_for_exact [of st i]
    by (auto simp: entry_at_def split: if_splits)
next
  assume "\<exists>k < length (log st). unat i = unat (snapshot_index st) + k + 1 \<and> log st ! k = e"
  then obtain k where k: "k < length (log st)" "unat i = unat (snapshot_index st) + k + 1" "log st ! k = e"
    by blast
  then have "i = entry_index (log st ! k)"
    using contiguous_nth [of "snapshot_index st" "log st" k] assms
    by (simp add: log_contiguous_def word_unat_eq_iff)
  with k entry_index_range [OF assms k(1)] offset_of_entry [OF assms k(1)] show "entry_at st i = Some e"
    by (simp add: entry_at_def)
qed

lemma committed_stable_prefix:
  assumes contig: "log_contiguous st" "log_contiguous st'" and snap: "snapshot_index st' = snapshot_index st"
    and keep: "take k (log st') = take k (log st)" "k \<le> length (log st)" "k \<le> length (log st')"
    and covers: "unat (commit_index st) \<le> unat (snapshot_index st) + k"
  shows "committed_stable st st'"
  unfolding committed_stable_def
proof (intro allI impI)
  fix i assume i: "snapshot_index st' < i \<and> i \<le> commit_index st"
  then have less: "offset_for st i < k" and off: "offset_for st' i = offset_for st i"
    using offset_for_exact [of st i] covers snap by (auto simp: word_le_nat_alt offset_for_def)
  have "i \<le> last_index st" "i \<le> last_index st'"
    using i keep(2,3) covers snap last_index_unat [OF contig(1)] last_index_unat [OF contig(2)]
    by (auto simp: word_le_nat_alt)
  moreover have "log st' ! offset_for st i = log st ! offset_for st i"
    using less keep(1) by (metis nth_take)
  ultimately show "entry_at st' i = entry_at st i"
    using i snap off by (simp add: entry_at_def)
qed

lemma committed_stable_drop:
  assumes contig: "log_contiguous st" "log_contiguous st'"
    and above: "snapshot_index st < snapshot_index st'"
    and log: "log st' = drop (offset_for st (snapshot_index st') + 1) (log st)"
    and last: "last_index st' = last_index st"
  shows "committed_stable st st'"
  unfolding committed_stable_def
proof (intro allI impI)
  fix i assume i: "snapshot_index st' < i \<and> i \<le> commit_index st"
  then have off: "offset_for st i = offset_for st (snapshot_index st') + 1 + offset_for st' i"
    using offset_for_exact [of st i] offset_for_exact [of st' i] offset_for_exact [OF above] above by auto
  show "entry_at st' i = entry_at st i"
  proof (cases "i \<le> last_index st")
    case True
    then have "offset_for st i < length (log st)"
      using offset_for_less [OF contig(1), of i] i above by auto
    with i above True show ?thesis
      by (auto simp: entry_at_def last log off)
  qed (use last in \<open>simp add: entry_at_def\<close>)
qed

section \<open>The commit search\<close>

lemma word_le_minus_one: "lo < c \<Longrightarrow> j \<le> c \<longleftrightarrow> j = c \<or> j \<le> c - 1" for j c lo :: u64
  by (auto simp: word_le_nat_alt unat_minus_one word_less_nat_alt word_unat_eq_iff)

lemma commit_search_Some:
  "commit_search ok c lo = Some r \<Longrightarrow> lo < r \<and> r \<le> c \<and> ok r \<and> (\<forall>j. r < j \<and> j \<le> c \<longrightarrow> \<not> ok j)"
proof (induction ok c lo rule: commit_search.induct)
  case (1 ok c lo)
  show ?case
  proof (cases "lo < c \<and> \<not> ok c")
    case True
    then have "commit_search ok (c - 1) lo = Some r"
      using "1.prems" by (subst (asm) commit_search.simps) simp
    with 1 True show ?thesis
      using word_le_minus_one [of lo c] by auto
  next
    case False
    with "1.prems" have "lo < c" "r = c" "ok c"
      by (subst (asm) commit_search.simps; simp split: if_splits)+
    then show ?thesis by (auto dest: leD)
  qed
qed

lemma commit_search_None:
  "commit_search ok c lo = None \<longleftrightarrow> (\<forall>j. lo < j \<and> j \<le> c \<longrightarrow> \<not> ok j)"
proof (induction ok c lo rule: commit_search.induct)
  case (1 ok c lo)
  show ?case
  proof (cases "lo < c \<and> \<not> ok c")
    case True
    with 1 show ?thesis
      using word_le_minus_one [of lo c] by (subst commit_search.simps) auto
  next
    case False
    then show ?thesis
      by (subst commit_search.simps) (auto dest: order.strict_trans2)
  qed
qed

end
