(* ===== verification/Raft_Quorum.thy ===== *)
theory Raft_Quorum
  imports Raft_Node
begin

text \<open>
  Quorums. The locale states what elections, replication and read barriers rely on: a larger set of
  supporters is still a quorum, and two quorums share a member. It is interpreted on the majority
  count of the node and on its configuration rule, joint configurations included.
\<close>

section \<open>The interface\<close>

locale quorum_system =
  fixes quorum :: "('p \<Rightarrow> bool) \<Rightarrow> bool"
  assumes quorum_mono: "quorum P \<Longrightarrow> (\<And>p. P p \<Longrightarrow> Q p) \<Longrightarrow> quorum Q"
    and quorum_intersect: "quorum P \<Longrightarrow> quorum Q \<Longrightarrow> \<exists>p. P p \<and> Q p"
begin

lemma quorum_nonempty: "quorum P \<Longrightarrow> \<exists>p. P p"
  using quorum_intersect [of P P] by blast

lemma quorum_complement: "quorum P \<Longrightarrow> \<not> quorum (\<lambda>p. \<not> P p)"
  using quorum_intersect [of P "\<lambda>p. \<not> P p"] by blast

text \<open>If every member supports at most one alternative, at most one alternative has a quorum.\<close>

lemma quorum_agreement:
  assumes "quorum (\<lambda>p. supports p a)" and "quorum (\<lambda>p. supports p b)"
    and "\<And>p x y. supports p x \<Longrightarrow> supports p y \<Longrightarrow> x = y"
  shows "a = b"
  using quorum_intersect [OF assms(1,2)] assms(3) by blast

end

section \<open>Majorities\<close>

lemma filter_disjoint_length:
  "\<forall>x \<in> set xs. \<not> (P x \<and> Q x) \<Longrightarrow> length (filter P xs) + length (filter Q xs) \<le> length xs"
  by (induction xs) auto

lemma has_majority_mono: "has_majority members P \<Longrightarrow> (\<And>p. P p \<Longrightarrow> Q p) \<Longrightarrow> has_majority members Q"
proof -
  assume P: "has_majority members P" and imp: "\<And>p. P p \<Longrightarrow> Q p"
  have "length (filter P members) \<le> length (filter Q members)"
    using imp by (induction members) (auto intro: le_SucI)
  with P show ?thesis
    by (simp add: has_majority_def)
qed

lemma has_majority_intersect:
  assumes "has_majority members P" and "has_majority members Q"
  shows "\<exists>p \<in> set members. P p \<and> Q p"
proof (rule ccontr)
  assume "\<not> ?thesis"
  then have "length (filter P members) + length (filter Q members) \<le> length members"
    by (intro filter_disjoint_length) blast
  with assms show False
    by (simp add: has_majority_def majority_def)
qed

interpretation majority_quorum: quorum_system "has_majority members" for members
  using has_majority_mono has_majority_intersect by unfold_locales blast+

interpretation configuration: quorum_system "configuration_quorum n" for n
proof
  fix P Q :: "NodeId \<Rightarrow> bool"
  assume "configuration_quorum n P" and "\<And>p. P p \<Longrightarrow> Q p"
  then show "configuration_quorum n Q"
    using has_majority_mono [of _ P Q] by (auto simp: configuration_quorum_def split: option.splits)
next
  fix P Q :: "NodeId \<Rightarrow> bool"
  assume "configuration_quorum n P" and "configuration_quorum n Q"
  then show "\<exists>p. P p \<and> Q p"
    using has_majority_intersect [of _ P Q] by (auto simp: configuration_quorum_def split: option.splits)
qed

lemma configuration_quorum_members:
  "configuration_quorum n P \<Longrightarrow> configuration_quorum n (\<lambda>p. P p \<and> (joint n = None \<longrightarrow> p \<in> set (committed_voters n)))"
proof -
  have "filter (\<lambda>p. P p \<and> p \<in> set xs) xs = filter P xs" for P and xs :: "NodeId list"
    by (rule filter_cong) auto
  then show "configuration_quorum n P \<Longrightarrow> ?thesis"
    by (auto simp: configuration_quorum_def has_majority_def split: option.splits)
qed

end
