(* ===== verification/Raft_Operations.thy ===== *)
theory Raft_Operations
  imports Raft_Node
begin

text \<open>
  The public operations of \<^verbatim>\<open>RaftNode\<close> except message reception: construction from a persistent
  state, elections, proposals, membership changes, snapshots, heartbeats, read barriers and the
  applied index. An operation returns the node afterwards and its outcome; the working copy
  \<^verbatim>\<open>Impl prepared = *impl_\<close> of the source is the node that a failing branch drops.
\<close>

section \<open>Construction\<close>

text \<open>The loop over the persistent log in \<^verbatim>\<open>RaftNode::create\<close>.\<close>

fun check_persistent_log :: "LogIndex \<Rightarrow> Term \<Rightarrow> RaftLimits \<Rightarrow> LogEntry list \<Rightarrow> StatusCode" where
  "check_persistent_log expected cur lim [] = kOk"
| "check_persistent_log expected cur lim (e # es) =
     (if entry_index e \<noteq> expected \<or> entry_index e = - 1 \<or> entry_term e = 0 \<or> entry_term e > cur \<or>
         entry_type e = 0 \<or> length (entry_payload e) > maximum_entry_bytes lim
      then kInvalidArgument
      else if entry_type e = kLeaderNoopEntryType \<and> entry_payload e \<noteq> [] then kInvalidArgument
      else if expected = - 1 \<and> es \<noteq> [] then kInvalidArgument
      else check_persistent_log (expected + 1) cur lim es)"

definition limits_and_identity_valid :: "NodeId \<Rightarrow> NodeId list \<Rightarrow> RaftLimits \<Rightarrow> bool" where
  "limits_and_identity_valid nid vs lim =
     (\<not> (nid = 0 \<or> vs = [] \<or> length vs > maximum_voters lim \<or> maximum_voters lim = 0 \<or>
         maximum_voters lim > kMaximumMembershipVoters \<or> maximum_log_entries lim = 0 \<or>
         maximum_entry_bytes lim = 0 \<or> maximum_append_entries lim = 0 \<or>
         maximum_persistent_state_bytes lim = 0 \<or>
         maximum_persistent_state_bytes lim > kMaximumRaftPersistentStatePayloadSize))"

definition empty_snapshot_canonical :: "SnapshotMetadata \<Rightarrow> bool" where
  "empty_snapshot_canonical s =
     (\<not> (last_included_term s \<noteq> 0 \<or> manifest_generation s \<noteq> 0 \<or>
         list_ex (\<lambda>b. b \<noteq> 0) (part_set_checksum s) \<or> configuration_index s \<noteq> 0 \<or>
         snapshot_voters s \<noteq> []))"

definition initial_node :: "NodeId \<Rightarrow> NodeId list \<Rightarrow> DerivedMembership \<Rightarrow> PersistentState \<Rightarrow>
    RaftLimits \<Rightarrow> RaftNode" where
  "initial_node nid base d st lim =
     \<lparr>node_id = nid, base_voters = base, committed_voters = dm_committed_voters d,
      voters = dm_active_voters d, joint = dm_joint d, state = st, limits = lim,
      role = kFollower, leader_id = None, votes = {}, next_index = Map.empty,
      match_index = Map.empty, pending_snapshot = None, pending_read_barrier = None,
      next_read_context = 1\<rparr>"

text \<open>The second half of \<^verbatim>\<open>create\<close>: everything after the log was checked.\<close>

definition create_checked :: "NodeId \<Rightarrow> NodeId list \<Rightarrow> PersistentState \<Rightarrow> RaftLimits \<Rightarrow>
    RaftNode result" where
  "create_checked nid vs st lim =
     (let s = snapshot st;
          compacted = (last_included_index s \<noteq> 0);
          s' = (if compacted \<and> snapshot_voters s = [] then s\<lparr>snapshot_voters := vs\<rparr> else s);
          base = (if compacted \<and> snapshot_voters s \<noteq> [] then snapshot_voters s else vs);
          st' = st\<lparr>snapshot := s'\<rparr>
      in if compacted \<and> \<not> valid_snapshot s' (maximum_voters lim) then Inl kInvalidArgument
         else if \<not> is_ok (persistent_state_fits (length (snapshot_voters s')) (log st) lim)
         then Inl kInvalidArgument
         else case derive_membership base (log st) (commit_index st) lim of
           Inl e \<Rightarrow> make_unexpected e
         | Inr d \<Rightarrow>
             if commit_index st < last_included_index s' \<or> commit_index st > last_index st' \<or>
                applied_index st < last_included_index s' \<or> applied_index st > commit_index st \<or>
                voted_for st = Some 0
             then Inl kInvalidArgument
             else Inr (initial_node nid base d st' lim))"

definition create :: "NodeId \<Rightarrow> NodeId list \<Rightarrow> PersistentState \<Rightarrow> RaftLimits \<Rightarrow> RaftNode result" where
  "create nid voter_list st lim =
     (if \<not> limits_and_identity_valid nid voter_list lim then Inl kInvalidArgument
      else let vs = sort voter_list in
        if hd vs = 0 \<or> \<not> no_adjacent_equal vs then Inl kInvalidArgument
        else if current_term st = 0 \<and> voted_for st \<noteq> None then Inl kInvalidArgument
        else if last_included_index (snapshot st) = 0 \<and> \<not> empty_snapshot_canonical (snapshot st)
        then Inl kInvalidArgument
        else if last_included_index (snapshot st) = - 1 then Inl kInvalidArgument
        else if last_included_term (snapshot st) > current_term st then Inl kInvalidArgument
        else let checked = check_persistent_log (last_included_index (snapshot st) + 1)
                             (current_term st) lim (log st)
             in if \<not> is_ok checked then make_unexpected checked
                else if length (log st) > maximum_log_entries lim then Inl kInvalidArgument
                else create_checked nid vs st lim)"

section \<open>Elections\<close>

text \<open>The progress maps and the empty append messages of a node that becomes leader.\<close>

fun leader_next_index :: "NodeId list \<Rightarrow> LogIndex \<Rightarrow> Progress \<Rightarrow> Progress" where
  "leader_next_index [] last_i m = m"
| "leader_next_index (peer # peers) last_i m =
     leader_next_index peers last_i (emplace m peer (last_i + 1))"

fun leader_match_index :: "NodeId \<Rightarrow> NodeId list \<Rightarrow> LogIndex \<Rightarrow> Progress \<Rightarrow> Progress" where
  "leader_match_index self [] last_i m = m"
| "leader_match_index self (peer # peers) last_i m =
     leader_match_index self peers last_i (emplace m peer (if peer = self then last_i else 0))"

definition leader_announcements :: "RaftNode \<Rightarrow> Term \<Rightarrow> OutboundMessage list" where
  "leader_announcements n t =
     map (\<lambda>peer. \<lparr>destination = peer,
                  message = AppendEntries \<lparr>ae_term = t, ae_leader_id = node_id n,
                    previous_log_index = last_index (state n),
                    previous_log_term = last_term (state n), ae_entries = [],
                    leader_commit = commit_index (state n)\<rparr>\<rparr>)
       (filter (\<lambda>peer. peer \<noteq> node_id n) (voters n))"

definition vote_requests :: "RaftNode \<Rightarrow> Term \<Rightarrow> OutboundMessage list" where
  "vote_requests n t =
     map (\<lambda>peer. \<lparr>destination = peer,
                  message = RequestVote \<lparr>rv_term = t, candidate_id = node_id n,
                    last_log_index = last_index (state n), last_log_term = last_term (state n)\<rparr>\<rparr>)
       (filter (\<lambda>peer. peer \<noteq> node_id n) (voters n))"

definition start_election :: "AllocationFault \<Rightarrow> RaftNode \<Rightarrow> RaftNode \<times> Transition outcome" where
  "start_election fault n =
     (if \<not> voter n (node_id n) then (n, Inl (Failed kUnavailable))
      else if current_term (state n) = - 1 \<or> last_index (state n) = - 1
      then (n, Inl (Failed kOutOfRange))
      else if throws fault then (n, Inl (Failed kResourceExhausted))
      else let prepared_state = (state n)\<lparr>current_term := current_term (state n) + 1,
                                          voted_for := Some (node_id n)\<rparr>;
               immediate_leader = configuration_quorum n (\<lambda>node. node = node_id n);
               out = (if immediate_leader then leader_announcements n (current_term prepared_state)
                      else vote_requests n (current_term prepared_state));
               n1 = n\<lparr>state := prepared_state,
                      role := (if immediate_leader then kLeader else kCandidate),
                      leader_id := (if immediate_leader then Some (node_id n) else None),
                      votes := {node_id n},
                      pending_read_barrier := None\<rparr>;
               n2 = (if immediate_leader
                     then n1\<lparr>next_index := leader_next_index (voters n) (last_index (state n)) Map.empty,
                             match_index := leader_match_index (node_id n) (voters n)
                                              (last_index (state n)) Map.empty\<rparr>
                     else n1)
           in (n2, Inr (empty_transition\<lparr>outbound := out,
                          persistent_state := Some prepared_state\<rparr>)))"

section \<open>Proposals\<close>

text \<open>A working copy of the node is changed and installed only if the change succeeds.\<close>

definition install_prepared :: "AllocationFault \<Rightarrow> RaftNode \<Rightarrow> (RaftNode \<times> Transition) outcome \<Rightarrow>
    RaftNode \<times> Transition outcome" where
  "install_prepared fault n prepared =
     (if throws fault then (n, Inl (Failed kResourceExhausted))
      else case prepared of
        Inl e \<Rightarrow> (n, Inl e)
      | Inr (n', tr) \<Rightarrow> (n', Inr tr))"

definition propose :: "AllocationFault \<Rightarrow> RaftNode \<Rightarrow> u8 \<Rightarrow> byte list \<Rightarrow>
    RaftNode \<times> Transition outcome" where
  "propose fault n t payload =
     (if role n \<noteq> kLeader then (n, Inl (Failed kUnavailable))
      else if t = 0 \<or> is_internal_raft_entry_type t \<or>
              length payload > maximum_entry_bytes (limits n) \<or>
              length (log (state n)) \<ge> maximum_log_entries (limits n) \<or>
              last_index (state n) \<ge> - 1 - 1
      then (n, Inl (Failed kInvalidArgument))
      else let fits = appended_entry_fits (state n) (length payload) (limits n)
           in if \<not> is_ok fits then (n, Inl (Failed fits))
              else install_prepared fault n (append_local_entry n t payload))"

definition commit_current_term :: "AllocationFault \<Rightarrow> RaftNode \<Rightarrow> RaftNode \<times> Transition outcome" where
  "commit_current_term fault n =
     (if role n \<noteq> kLeader then (n, Inl (Failed kUnavailable))
      else if list_ex (\<lambda>e. entry_term e = current_term (state n)) (log (state n))
      then (n, Inr empty_transition)
      else if length (log (state n)) \<ge> maximum_log_entries (limits n) \<or>
              last_index (state n) \<ge> - 1 - 1
      then (n, Inl (Failed kInvalidArgument))
      else let fits = appended_entry_fits (state n) 0 (limits n)
           in if \<not> is_ok fits then (n, Inl (Failed fits))
              else install_prepared fault n (append_local_entry n kLeaderNoopEntryType []))"

text \<open>The scan over the retained log: \<open>Some True\<close> returns at once, \<open>Some False\<close> remembers a match
  of an earlier term that is not committed.\<close>

fun scan_retained :: "LogIndex \<Rightarrow> Term \<Rightarrow> u8 \<Rightarrow> byte list \<Rightarrow> LogEntry list \<Rightarrow> bool \<Rightarrow> bool option" where
  "scan_retained commit cur t payload [] prior = (if prior then Some False else None)"
| "scan_retained commit cur t payload (e # es) prior =
     (if entry_type e \<noteq> t \<or> entry_payload e \<noteq> payload then scan_retained commit cur t payload es prior
      else if entry_index e \<le> commit \<or> entry_term e = cur then Some True
      else scan_retained commit cur t payload es True)"

definition propose_exact_retained :: "AllocationFault \<Rightarrow> RaftNode \<Rightarrow> u8 \<Rightarrow> byte list \<Rightarrow>
    RaftNode \<times> Transition outcome" where
  "propose_exact_retained fault n t payload =
     (if role n \<noteq> kLeader then (n, Inl (Failed kUnavailable))
      else if t = 0 \<or> is_internal_raft_entry_type t \<or>
              length payload > maximum_entry_bytes (limits n)
      then (n, Inl (Failed kInvalidArgument))
      else case scan_retained (commit_index (state n)) (current_term (state n)) t payload
                  (log (state n)) False of
        Some True \<Rightarrow> (n, Inr empty_transition)
      | Some False \<Rightarrow> commit_current_term fault n
      | None \<Rightarrow> propose fault n t payload)"

section \<open>Membership changes\<close>

text \<open>The common tail of both membership operations: encode, check the sizes, append.\<close>

definition append_membership_command :: "RaftNode \<Rightarrow> u8 \<Rightarrow> MembershipCommand \<Rightarrow>
    RaftNode \<times> Transition outcome" where
  "append_membership_command n t command =
     (case encode_membership_command_v1 command (maximum_voters (limits n)) of
        Inl e \<Rightarrow> (n, Inl (Failed e))
      | Inr payload \<Rightarrow>
          if length payload > maximum_entry_bytes (limits n) then (n, Inl (Failed kInvalidArgument))
          else let fits = appended_entry_fits (state n) (length payload) (limits n)
               in if \<not> is_ok fits then (n, Inl (Failed fits))
                  else install_prepared NoFault n (append_membership_entry n t payload))"

text \<open>The second fault belongs to the \<^verbatim>\<open>try\<close> block of \<^verbatim>\<open>commit_current_term\<close>, which a repeated
  request calls.\<close>

definition begin_membership_change :: "AllocationFault \<Rightarrow> AllocationFault \<Rightarrow> RaftNode \<Rightarrow> NodeId list \<Rightarrow>
    RaftNode \<times> Transition outcome" where
  "begin_membership_change fault retry_fault n voter_list =
     (if role n \<noteq> kLeader then (n, Inl (Failed kUnavailable))
      else if pending_read_barrier n \<noteq> None then (n, Inl (Failed kUnavailable))
      else if throws fault then (n, Inl (Failed kResourceExhausted))
      else let new = sort voter_list in
        case joint n of
          Some j \<Rightarrow>
            if jc_old_voters j = committed_voters n \<and> jc_new_voters j = new
            then if joint_index j \<le> commit_index (state n) \<or>
                    term_at (state n) (joint_index j) = Some (current_term (state n))
                 then (n, Inr empty_transition)
                 else commit_current_term retry_fault n
            else (n, Inl (Failed kInvalidArgument))
        | None \<Rightarrow>
            if \<not> valid_voters new (maximum_voters (limits n)) \<or> new = committed_voters n \<or>
               length (voter_union (committed_voters n) new) > maximum_voters (limits n) \<or>
               length (log (state n)) \<ge> maximum_log_entries (limits n) \<or>
               last_index (state n) \<ge> - 1 - 1
            then (n, Inl (Failed kInvalidArgument))
            else append_membership_command n kJointMembershipEntryType
                   (JointMembershipCommand (committed_voters n) new))"

definition finalize_membership_change :: "AllocationFault \<Rightarrow> AllocationFault \<Rightarrow> RaftNode \<Rightarrow>
    RaftNode \<times> Transition outcome" where
  "finalize_membership_change fault retry_fault n =
     (if role n \<noteq> kLeader then (n, Inl (Failed kUnavailable))
      else if pending_read_barrier n \<noteq> None then (n, Inl (Failed kUnavailable))
      else if throws fault then (n, Inl (Failed kResourceExhausted))
      else case joint n of
        None \<Rightarrow> (n, Inl (Failed kInvalidArgument))
      | Some j \<Rightarrow>
          if final_pending j
          then (case find (\<lambda>e. entry_type e = kFinalMembershipEntryType) (rev (log (state n))) of
                  Some e \<Rightarrow>
                    if entry_index e \<le> commit_index (state n) \<or>
                       entry_term e = current_term (state n)
                    then (n, Inr empty_transition)
                    else commit_current_term retry_fault n
                | None \<Rightarrow> commit_current_term retry_fault n)
          else if joint_index j > commit_index (state n) \<or>
                  length (log (state n)) \<ge> maximum_log_entries (limits n) \<or>
                  last_index (state n) \<ge> - 1 - 1
          then (n, Inl (Failed kInvalidArgument))
          else append_membership_command n kFinalMembershipEntryType
                 (FinalMembershipCommand (joint_index j) (jc_new_voters j)))"

section \<open>Snapshots\<close>

definition snapshot_response :: "NodeId \<Rightarrow> Term \<Rightarrow> bool \<Rightarrow> LogIndex \<Rightarrow> OutboundMessage" where
  "snapshot_response dest t success i =
     \<lparr>destination = dest,
      message = InstallSnapshotReply \<lparr>isr_term = t, isr_success = success,
                                      isr_last_included_index = i\<rparr>\<rparr>"

text \<open>The entries behind the snapshot that survive its installation.\<close>

definition retained_after_snapshot :: "PersistentState \<Rightarrow> SnapshotMetadata \<Rightarrow> LogEntry list" where
  "retained_after_snapshot st s =
     (if term_at st (last_included_index s) = Some (last_included_term s) \<and>
         last_included_index s < last_index st
      then drop (offset_for st (last_included_index s) + 1) (log st)
      else [])"

definition complete_snapshot_install :: "AllocationFault \<Rightarrow> RaftNode \<Rightarrow> NodeId \<Rightarrow> SnapshotMetadata \<Rightarrow>
    bool \<Rightarrow> RaftNode \<times> Transition outcome" where
  "complete_snapshot_install fault n source s installed =
     (case pending_snapshot n of
        None \<Rightarrow> (n, Inl (Failed kInvalidArgument))
      | Some pending \<Rightarrow>
          let st = state n in
          if source \<noteq> is_leader_id pending \<or> s \<noteq> is_snapshot pending
          then (n, Inl (Failed kInvalidArgument))
          else if throws fault then (n, Inl (Failed kResourceExhausted))
          else if \<not> installed \<or> is_term pending \<noteq> current_term st
          then (n\<lparr>pending_snapshot := None\<rparr>,
                Inr (empty_transition\<lparr>outbound :=
                  [snapshot_response source (current_term st) False (snapshot_index st)]\<rparr>))
          else if last_included_index s < commit_index st \<and>
                  term_at st (last_included_index s) \<noteq> Some (last_included_term s)
          then (n, Inl (Failed kCorruption))
          else let retained = retained_after_snapshot st s;
                   new_commit = max (commit_index st) (last_included_index s)
               in case derive_membership (snapshot_voters s) retained new_commit (limits n) of
                 Inl e \<Rightarrow> (n, Inl (Failed e))
               | Inr d \<Rightarrow>
                   let fits = persistent_state_fits (length (snapshot_voters s)) retained (limits n) in
                   if \<not> is_ok fits then (n, Inl (Failed fits))
                   else let st' = st\<lparr>snapshot := s, log := retained, commit_index := new_commit,
                                    applied_index := max (applied_index st) (last_included_index s)\<rparr>
                        in (n\<lparr>pending_snapshot := None, state := st',
                              base_voters := snapshot_voters s,
                              committed_voters := dm_committed_voters d,
                              voters := dm_active_voters d, joint := dm_joint d\<rparr>,
                            Inr (empty_transition\<lparr>persistent_state := Some st',
                                  advanced_commit_index := Some new_commit,
                                  outbound := [snapshot_response source (current_term st') True
                                                 (last_included_index s)]\<rparr>)))"

text \<open>The last final-membership entry of the compacted prefix, or the configuration index of the
  previous snapshot.\<close>

fun last_configuration_index :: "LogIndex \<Rightarrow> LogEntry list \<Rightarrow> LogIndex" where
  "last_configuration_index i [] = i"
| "last_configuration_index i (e # es) =
     last_configuration_index (if entry_type e = kFinalMembershipEntryType then entry_index e else i) es"

definition prepare_snapshot_metadata :: "AllocationFault \<Rightarrow> RaftNode \<Rightarrow> SnapshotMetadata \<Rightarrow>
    SnapshotMetadata result" where
  "prepare_snapshot_metadata fault n s =
     (let st = state n in
      if pending_snapshot n \<noteq> None then Inl kUnavailable
      else if joint n \<noteq> None \<or> last_included_index s \<le> snapshot_index st \<or>
              last_included_index s > applied_index st \<or> last_included_term s = 0 \<or>
              manifest_generation s = 0 \<or>
              term_at st (last_included_index s) \<noteq> Some (last_included_term s)
      then Inl kInvalidArgument
      else if throws fault then Inl kResourceExhausted
      else let retained_offset = offset_for st (last_included_index s) + 1 in
        case derive_membership (base_voters n) (take retained_offset (log st))
               (last_included_index s) (limits n) of
          Inl e \<Rightarrow> make_unexpected e
        | Inr d \<Rightarrow>
            if dm_joint d \<noteq> None then Inl kInvalidArgument
            else let s' = s\<lparr>snapshot_voters := dm_committed_voters d,
                            configuration_index := last_configuration_index
                              (configuration_index (snapshot st)) (take retained_offset (log st))\<rparr>
                 in if \<not> valid_snapshot s' (maximum_voters (limits n)) then Inl kInvalidArgument
                    else let fits = persistent_state_fits (length (snapshot_voters s'))
                                      (drop retained_offset (log st)) (limits n)
                         in if \<not> is_ok fits then make_unexpected fits else Inr s')"

text \<open>The first fault belongs to \<^verbatim>\<open>prepare_snapshot_metadata\<close>.\<close>

definition compact_snapshot :: "AllocationFault \<Rightarrow> AllocationFault \<Rightarrow> RaftNode \<Rightarrow> SnapshotMetadata \<Rightarrow>
    RaftNode \<times> Transition outcome" where
  "compact_snapshot prepare_fault fault n s =
     (case prepare_snapshot_metadata prepare_fault n s of
        Inl e \<Rightarrow> (n, Inl (Failed e))
      | Inr s' \<Rightarrow>
          if throws fault then (n, Inl (Failed kResourceExhausted))
          else let retained_offset = offset_for (state n) (last_included_index s') + 1;
                   st' = (state n)\<lparr>log := drop retained_offset (log (state n)), snapshot := s'\<rparr>
               in (n\<lparr>state := st', base_voters := snapshot_voters s'\<rparr>,
                   Inr (empty_transition\<lparr>persistent_state := Some st'\<rparr>)))"

section \<open>Heartbeats, read barriers, application\<close>

definition heartbeat :: "RaftNode \<Rightarrow> RaftNode \<times> Transition outcome" where
  "heartbeat n =
     (if role n \<noteq> kLeader then (n, Inl (Failed kUnavailable))
      else case append_to_all n of
        None \<Rightarrow> (n, Inl OutOfRangeThrown)
      | Some out \<Rightarrow> (n, Inr (empty_transition\<lparr>outbound := out\<rparr>)))"

definition new_read_barrier :: "RaftNode \<Rightarrow> PendingReadBarrier" where
  "new_read_barrier n =
     \<lparr>prb_term = current_term (state n), prb_context = next_read_context n,
      prb_read_index = commit_index (state n),
      prb_old_voters = (case joint n of Some j \<Rightarrow> jc_old_voters j | None \<Rightarrow> committed_voters n),
      prb_new_voters = (case joint n of Some j \<Rightarrow> jc_new_voters j | None \<Rightarrow> []),
      acknowledgements = {node_id n}\<rparr>"

definition barrier_probes :: "RaftNode \<Rightarrow> OutboundMessage list" where
  "barrier_probes n =
     map (\<lambda>peer. \<lparr>destination = peer,
                  message = ReadBarrierProbe \<lparr>rb_term = current_term (state n),
                    rb_leader_id = node_id n, rb_context = next_read_context n\<rparr>\<rparr>)
       (filter (\<lambda>peer. peer \<noteq> node_id n) (voters n))"

definition begin_read_barrier :: "AllocationFault \<Rightarrow> RaftNode \<Rightarrow> RaftNode \<times> Transition outcome" where
  "begin_read_barrier fault n =
     (if role n \<noteq> kLeader then (n, Inl (Failed kUnavailable))
      else if pending_read_barrier n \<noteq> None then (n, Inl (Failed kUnavailable))
      else if commit_index (state n) = 0 \<or>
              term_at (state n) (commit_index (state n)) \<noteq> Some (current_term (state n))
      then (n, Inl (Failed kUnavailable))
      else if next_read_context n = 0 then (n, Inl (Failed kOutOfRange))
      else if throws fault then (n, Inl (Failed kResourceExhausted))
      else let pending = new_read_barrier n;
               following = (if next_read_context n = - 1 then 0 else next_read_context n + 1)
           in if read_barrier_quorum pending
              then (n\<lparr>next_read_context := following\<rparr>,
                    Inr (empty_transition\<lparr>read_barrier_ready :=
                      Some \<lparr>barrier_term = prb_term pending, barrier_context = prb_context pending,
                            read_index = prb_read_index pending\<rparr>\<rparr>))
              else (n\<lparr>pending_read_barrier := Some pending, next_read_context := following\<rparr>,
                    Inr (empty_transition\<lparr>outbound := barrier_probes n\<rparr>)))"

definition mark_applied :: "AllocationFault \<Rightarrow> RaftNode \<Rightarrow> LogIndex \<Rightarrow> RaftNode \<times> Transition outcome" where
  "mark_applied fault n i =
     (let st = state n in
      if i < applied_index st \<or> i > commit_index st then (n, Inl (Failed kInvalidArgument))
      else if i = applied_index st then (n, Inr empty_transition)
      else if throws fault then (n, Inl (Failed kResourceExhausted))
      else let st' = st\<lparr>applied_index := i\<rparr>
           in (n\<lparr>state := st'\<rparr>, Inr (empty_transition\<lparr>persistent_state := Some st'\<rparr>)))"

definition committed_unapplied :: "RaftNode \<Rightarrow> LogEntry list" where
  "committed_unapplied n =
     (let st = state n in
      if applied_index st \<ge> commit_index st then []
      else subspan (log st) (offset_for st (applied_index st + 1))
             (unat (commit_index st - applied_index st)))"

definition joint_membership_can_finalize :: "RaftNode \<Rightarrow> bool" where
  "joint_membership_can_finalize n =
     (case joint n of
        None \<Rightarrow> False
      | Some j \<Rightarrow> \<not> final_pending j \<and> joint_index j \<le> commit_index (state n))"

definition final_membership_pending :: "RaftNode \<Rightarrow> bool" where
  "final_membership_pending n = (case joint n of None \<Rightarrow> False | Some j \<Rightarrow> final_pending j)"

end
