(* ===== verification/Raft_Receive.thy ===== *)
theory Raft_Receive
  imports Raft_Operations
begin

text \<open>
  \<^verbatim>\<open>RaftNode::receive\<close>. As in the source, a message goes through three stages: a validation that
  only reads the node, a preparation that computes everything that can fail into local variables
  (the record \<open>Prepared\<close>), and an application that moves the prepared values into the node.
\<close>

section \<open>Validation\<close>

record ValidatedAppend =
  validated_append_log :: "LogEntry list"
  validated_append_commit :: LogIndex
  validated_membership :: DerivedMembership

definition validate_request_vote :: "NodeId \<Rightarrow> RequestVoteRequest \<Rightarrow> StatusCode" where
  "validate_request_vote source m =
     (if candidate_id m \<noteq> source \<or> ((last_log_index m = 0) \<noteq> (last_log_term m = 0)) \<or>
         last_log_index m = - 1 \<or> last_log_term m > rv_term m
      then kInvalidArgument else kOk)"

fun check_append_entries :: "LogIndex \<Rightarrow> Term \<Rightarrow> RaftLimits \<Rightarrow> LogEntry list \<Rightarrow> StatusCode" where
  "check_append_entries expected t lim [] = kOk"
| "check_append_entries expected t lim (e # es) =
     (if expected = - 1 then kInvalidArgument
      else if entry_index e \<noteq> expected + 1 \<or> entry_index e = - 1 \<or> entry_term e = 0 \<or>
              entry_term e > t \<or> entry_type e = 0 \<or>
              length (entry_payload e) > maximum_entry_bytes lim
      then kInvalidArgument
      else if entry_type e = kLeaderNoopEntryType \<and> entry_payload e \<noteq> [] then kInvalidArgument
      else check_append_entries (expected + 1) t lim es)"

text \<open>The scan for the first entry that the local log does not hold, by position in the request.\<close>

fun find_first_conflict :: "PersistentState \<Rightarrow> nat \<Rightarrow> LogEntry list \<Rightarrow> nat option result" where
  "find_first_conflict st i [] = Inr None"
| "find_first_conflict st i (e # es) =
     (let local_term = term_at st (entry_index e) in
      if local_term = Some (entry_term e)
      then if log st ! offset_for st (entry_index e) \<noteq> e then Inl kCorruption
           else find_first_conflict st (Suc i) es
      else if local_term \<noteq> None \<and> entry_index e \<le> commit_index st then Inl kCorruption
      else Inr (Some i))"

definition append_capacity_ok :: "RaftNode \<Rightarrow> LogEntry list \<Rightarrow> nat \<Rightarrow> bool" where
  "append_capacity_ok n entries first_conflict =
     (let st = state n;
          conflict = entry_index (entries ! first_conflict);
          retained = (if conflict \<le> last_index st then offset_for st conflict else length (log st))
      in \<not> retained + (length entries - first_conflict) > maximum_log_entries (limits n))"

text \<open>One iteration of the loop that builds the candidate log.\<close>

definition merge_entry :: "LogEntry list \<Rightarrow> LogEntry \<Rightarrow> LogEntry list" where
  "merge_entry candidate e =
     (let same = (\<lambda>l. entry_index l = entry_index e);
          truncated = (case find same candidate of
                         Some l \<Rightarrow> if entry_term l \<noteq> entry_term e
                                  then takeWhile (\<lambda>l. \<not> same l) candidate else candidate
                       | None \<Rightarrow> candidate)
      in if find same truncated = None then truncated @ [e] else truncated)"

definition merge_entries :: "LogEntry list \<Rightarrow> LogEntry list \<Rightarrow> LogEntry list" where
  "merge_entries candidate entries = foldl merge_entry candidate entries"

text \<open>The part of the validation that looks at the local log: from the predecessor check on.\<close>

definition validate_append_suffix :: "RaftNode \<Rightarrow> bool \<Rightarrow> NodeId \<Rightarrow> AppendEntriesRequest \<Rightarrow>
    ValidatedAppend option result" where
  "validate_append_suffix n active_source source m =
     (let st = state n in
      case find_first_conflict st 0 (ae_entries m) of
        Inl e \<Rightarrow> Inl e
      | Inr first_conflict \<Rightarrow>
          if (case first_conflict of
                Some i \<Rightarrow> \<not> append_capacity_ok n (ae_entries m) i
              | None \<Rightarrow> False)
          then Inl kResourceExhausted
          else let candidate_log = merge_entries (log st) (ae_entries m);
                   candidate_last = (if candidate_log = [] then snapshot_index st
                                     else entry_index (last candidate_log));
                   prospective_commit = max (commit_index st)
                                            (min (leader_commit m) candidate_last)
               in case derive_membership (base_voters n) candidate_log prospective_commit (limits n) of
                 Inl e \<Rightarrow> Inl e
               | Inr d \<Rightarrow>
                   if \<not> active_source \<and> source \<notin> set (dm_active_voters d) then Inl kInvalidArgument
                   else let fits = persistent_state_fits (length (snapshot_voters (snapshot st)))
                                     candidate_log (limits n)
                        in if \<not> is_ok fits then Inl fits
                           else Inr (Some \<lparr>validated_append_log = candidate_log,
                                          validated_append_commit = prospective_commit,
                                          validated_membership = d\<rparr>))"

definition predecessor_matches :: "PersistentState \<Rightarrow> AppendEntriesRequest \<Rightarrow> bool" where
  "predecessor_matches st m =
     (append_predecessor_term st (previous_log_index m) = Some (previous_log_term m))"

definition validate_append_entries :: "RaftNode \<Rightarrow> bool \<Rightarrow> NodeId \<Rightarrow> AppendEntriesRequest \<Rightarrow>
    ValidatedAppend option result" where
  "validate_append_entries n active_source source m =
     (if ae_leader_id m \<noteq> source \<or> ((previous_log_index m = 0) \<noteq> (previous_log_term m = 0)) \<or>
         previous_log_term m > ae_term m \<or> leader_commit m = - 1 \<or>
         length (ae_entries m) > maximum_append_entries (limits n)
      then Inl kInvalidArgument
      else if previous_log_index m = - 1 then Inl kInvalidArgument
      else let checked = check_append_entries (previous_log_index m) (ae_term m) (limits n)
                           (ae_entries m)
           in if \<not> is_ok checked then make_unexpected checked
              else if ae_term m < current_term (state n)
              then if \<not> active_source then Inl kInvalidArgument else Inr None
              else if \<not> predecessor_matches (state n) m
              then if \<not> active_source then Inl kInvalidArgument else Inr None
              else validate_append_suffix n active_source source m)"

definition validate_append_response :: "RaftNode \<Rightarrow> AppendEntriesResponse \<Rightarrow> StatusCode" where
  "validate_append_response n m =
     (if aer_match_index m = - 1 \<or>
         (aer_success m \<and> (aer_match_index m > last_index (state n) \<or> conflict_term m \<noteq> None \<or>
                           conflict_index m \<noteq> 0)) \<or>
         (\<not> aer_success m \<and> conflict_index m = 0) \<or>
         (case conflict_term m of None \<Rightarrow> False | Some t \<Rightarrow> t = 0 \<or> t > aer_term m)
      then kInvalidArgument else kOk)"

definition validate_install_snapshot :: "RaftNode \<Rightarrow> NodeId \<Rightarrow> InstallSnapshotRequest \<Rightarrow> StatusCode"
    where
  "validate_install_snapshot n source m =
     (if is_leader_id m \<noteq> source \<or> last_included_term (is_snapshot m) > is_term m \<or>
         \<not> valid_snapshot (is_snapshot m) (maximum_voters (limits n))
      then kInvalidArgument else kOk)"

definition validate_snapshot_response :: "RaftNode \<Rightarrow> InstallSnapshotResponse \<Rightarrow> StatusCode" where
  "validate_snapshot_response n m =
     (if isr_last_included_index m = - 1 \<or>
         (isr_success m \<and> (isr_last_included_index m = 0 \<or>
                           isr_last_included_index m > last_index (state n)))
      then kInvalidArgument else kOk)"

text \<open>A status that is ok validates without a prepared append.\<close>

definition validated :: "StatusCode \<Rightarrow> ValidatedAppend option result" where
  "validated code = (if is_ok code then Inr None else make_unexpected code)"

definition validate_message :: "RaftNode \<Rightarrow> bool \<Rightarrow> NodeId \<Rightarrow> Message \<Rightarrow> ValidatedAppend option result"
    where
  "validate_message n active_source source msg =
     (if message_term msg = 0 then Inl kInvalidArgument
      else case msg of
        RequestVote m \<Rightarrow> validated (validate_request_vote source m)
      | RequestVoteReply m \<Rightarrow> Inr None
      | AppendEntries m \<Rightarrow> validate_append_entries n active_source source m
      | AppendEntriesReply m \<Rightarrow> validated (validate_append_response n m)
      | InstallSnapshot m \<Rightarrow> validated (validate_install_snapshot n source m)
      | InstallSnapshotReply m \<Rightarrow> validated (validate_snapshot_response n m)
      | ReadBarrierProbe m \<Rightarrow>
          if rb_leader_id m \<noteq> source \<or> rb_context m = 0 then Inl kInvalidArgument else Inr None
      | ReadBarrierReply m \<Rightarrow> if rbr_context m = 0 then Inl kInvalidArgument else Inr None)"

section \<open>Preparation\<close>

record Prepared =
  transition :: Transition
  prepared_vote_granted :: bool
  prepared_vote_response :: bool
  prepared_vote_quorum :: bool
  prepared_response_votes :: "NodeId set"
  prepared_response_next_index :: Progress
  prepared_response_match_index :: Progress
  prepared_append_response :: bool
  prepared_append_commit :: bool
  prepared_append_step_down :: bool
  prepared_append_state :: "PersistentState option"
  prepared_append_membership :: "DerivedMembership option"
  prepared_append_next_index :: Progress
  prepared_append_match_index :: Progress
  prepared_snapshot_response :: bool
  prepared_snapshot_next_index :: Progress
  prepared_snapshot_match_index :: Progress
  prepared_append_request :: bool
  prepared_append_request_accepted :: bool
  prepared_append_request_persistence :: bool
  prepared_append_request_state :: "PersistentState option"
  prepared_install_request :: bool
  prepared_install_request_new :: bool
  prepared_install_request_persistence :: bool
  prepared_install_request_state :: "PersistentState option"
  prepared_pending_snapshot :: "InstallSnapshotRequest option"

definition nothing_prepared :: Prepared where
  "nothing_prepared =
     \<lparr>transition = empty_transition, prepared_vote_granted = False, prepared_vote_response = False,
      prepared_vote_quorum = False, prepared_response_votes = {},
      prepared_response_next_index = Map.empty, prepared_response_match_index = Map.empty,
      prepared_append_response = False, prepared_append_commit = False,
      prepared_append_step_down = False, prepared_append_state = None,
      prepared_append_membership = None, prepared_append_next_index = Map.empty,
      prepared_append_match_index = Map.empty, prepared_snapshot_response = False,
      prepared_snapshot_next_index = Map.empty, prepared_snapshot_match_index = Map.empty,
      prepared_append_request = False, prepared_append_request_accepted = False,
      prepared_append_request_persistence = False, prepared_append_request_state = None,
      prepared_install_request = False, prepared_install_request_new = False,
      prepared_install_request_persistence = False, prepared_install_request_state = None,
      prepared_pending_snapshot = None\<rparr>"

definition prepare_request_vote :: "RaftNode \<Rightarrow> NodeId \<Rightarrow> RequestVoteRequest \<Rightarrow> Prepared" where
  "prepare_request_vote n source m =
     (let st = state n;
          prospective_term = max (current_term st) (rv_term m);
          prospective_vote = (if rv_term m > current_term st then None else voted_for st);
          is_granted = voter n (node_id n) \<and> rv_term m = prospective_term \<and>
                       (prospective_vote = None \<or> prospective_vote = Some source) \<and>
                       candidate_log_is_current st (last_log_index m) (last_log_term m)
      in nothing_prepared\<lparr>
           prepared_vote_granted := is_granted,
           transition := empty_transition\<lparr>outbound :=
             [\<lparr>destination = source,
               message = RequestVoteReply \<lparr>rvr_term = prospective_term, granted = is_granted\<rparr>\<rparr>]\<rparr>\<rparr>)"

definition prepare_vote_response :: "RaftNode \<Rightarrow> NodeId \<Rightarrow> RequestVoteResponse \<Rightarrow> Prepared" where
  "prepare_vote_response n source m =
     (let st = state n in
      if rvr_term m = current_term st \<and> role n = kCandidate \<and> granted m
      then let response_votes = insert source (votes n);
               quorum = configuration_quorum n (\<lambda>node. node \<in> response_votes);
               p = nothing_prepared\<lparr>prepared_response_votes := response_votes,
                                    prepared_vote_response := True, prepared_vote_quorum := quorum\<rparr>
           in if quorum
              then p\<lparr>prepared_response_next_index :=
                       leader_next_index (voters n) (last_index st) Map.empty,
                     prepared_response_match_index :=
                       leader_match_index (node_id n) (voters n) (last_index st) Map.empty,
                     transition := empty_transition\<lparr>outbound :=
                       leader_announcements n (current_term st)\<rparr>\<rparr>
              else p
      else nothing_prepared)"

text \<open>The loop that walks back to the first entry of the conflicting term.\<close>

function conflict_start :: "PersistentState \<Rightarrow> Term option \<Rightarrow> LogIndex \<Rightarrow> LogIndex" where
  "conflict_start st t i =
     (if i > snapshot_index st + 1 \<and> term_at st (i - 1) = t then conflict_start st t (i - 1) else i)"
  by pat_completeness auto
termination
proof (relation "measure (\<lambda>(st, t, i). unat i)")
  fix st :: PersistentState and t :: "Term option" and i :: LogIndex
  assume "snapshot_index st + 1 < i \<and> term_at st (i - 1) = t"
  then have "i \<noteq> 0" by auto
  then show "((st, t, i - 1), st, t, i) \<in> measure (\<lambda>(st, t, i). unat i)"
    by (simp add: unat_minus_one unat_gt_0)
qed simp

declare conflict_start.simps [simp del]

definition append_reply :: "NodeId \<Rightarrow> Term \<Rightarrow> bool \<Rightarrow> LogIndex \<Rightarrow> Term option \<Rightarrow> LogIndex \<Rightarrow>
    OutboundMessage" where
  "append_reply dest t success matched c_term c_index =
     \<lparr>destination = dest,
      message = AppendEntriesReply \<lparr>aer_term = t, aer_success = success, aer_match_index = matched,
                                    conflict_term = c_term, conflict_index = c_index\<rparr>\<rparr>"

definition append_rejection :: "PersistentState \<Rightarrow> NodeId \<Rightarrow> AppendEntriesRequest \<Rightarrow> OutboundMessage"
    where
  "append_rejection st source m =
     (case append_predecessor_term st (previous_log_index m) of
        None \<Rightarrow> append_reply source (ae_term m) False (last_index st) None (last_index st + 1)
      | Some t \<Rightarrow> append_reply source (ae_term m) False (last_index st) (Some t)
                    (conflict_start st (Some t) (previous_log_index m)))"

text \<open>An append whose predecessor matches: the new persistent state, if anything changed.\<close>

definition prepare_append_accept :: "PersistentState \<Rightarrow> NodeId \<Rightarrow> AppendEntriesRequest \<Rightarrow>
    ValidatedAppend \<Rightarrow> Prepared" where
  "prepare_append_accept st source m v =
     (let term_changed = ae_term m > current_term st;
          log_changed = validated_append_log v \<noteq> log st;
          commit_changed = validated_append_commit v > commit_index st;
          persistence = term_changed \<or> log_changed \<or> commit_changed;
          st' = st\<lparr>current_term := ae_term m,
                   voted_for := (if term_changed then None else voted_for st),
                   log := validated_append_log v,
                   commit_index := validated_append_commit v\<rparr>;
          accepted = (if ae_entries m = [] then previous_log_index m
                      else entry_index (last (ae_entries m)))
      in nothing_prepared\<lparr>
           prepared_append_request_persistence := persistence,
           prepared_append_request_state := (if persistence then Some st' else None),
           prepared_append_request_accepted := True,
           transition := empty_transition\<lparr>
             persistent_state := (if persistence then Some st' else None),
             advanced_commit_index := (if commit_changed then Some (validated_append_commit v) else None),
             outbound := [append_reply source (ae_term m) True accepted None 0]\<rparr>\<rparr>)"

text \<open>\<open>impl_->state\<close> with a newer term and no vote.\<close>

definition observe_term :: "PersistentState \<Rightarrow> Term \<Rightarrow> PersistentState" where
  "observe_term st t = st\<lparr>current_term := t, voted_for := None\<rparr>"

definition prepare_append_request :: "RaftNode \<Rightarrow> NodeId \<Rightarrow> AppendEntriesRequest \<Rightarrow>
    ValidatedAppend option \<Rightarrow> Prepared outcome" where
  "prepare_append_request n source m v =
     (let st = state n;
          prepared =
            (if ae_term m < current_term st
             then Inr (nothing_prepared\<lparr>transition := empty_transition\<lparr>outbound :=
                    [append_reply source (current_term st) False (last_index st) None
                       (last_index st + 1)]\<rparr>\<rparr>)
             else if \<not> predecessor_matches st m
             then Inr (nothing_prepared\<lparr>transition := empty_transition\<lparr>outbound :=
                    [append_rejection st source m]\<rparr>\<rparr>)
             else case v of
               None \<Rightarrow> Inl (Failed kCorruption)
             | Some va \<Rightarrow> Inr (prepare_append_accept st source m va))
      in case prepared of
           Inl e \<Rightarrow> Inl e
         | Inr p \<Rightarrow>
             let p' = (if ae_term m > current_term st \<and> persistent_state (transition p) = None
                       then p\<lparr>prepared_append_request_state := Some (observe_term st (ae_term m)),
                              transition := (transition p)\<lparr>persistent_state :=
                                Some (observe_term st (ae_term m))\<rparr>,
                              prepared_append_request_persistence := True\<rparr>
                       else p)
             in Inr (p'\<lparr>prepared_append_request := True\<rparr>))"

definition prepare_install_request :: "RaftNode \<Rightarrow> NodeId \<Rightarrow> InstallSnapshotRequest \<Rightarrow> Prepared" where
  "prepare_install_request n source m =
     (let st = state n;
          p = (if is_term m < current_term st
               then nothing_prepared\<lparr>transition := empty_transition\<lparr>outbound :=
                      [snapshot_response source (current_term st) False (snapshot_index st)]\<rparr>\<rparr>
               else let newer = is_term m > current_term st;
                        p0 = (if newer
                              then nothing_prepared\<lparr>
                                     prepared_install_request_state := Some (observe_term st (is_term m)),
                                     prepared_install_request_persistence := True,
                                     transition := empty_transition\<lparr>persistent_state :=
                                       Some (observe_term st (is_term m))\<rparr>\<rparr>
                              else nothing_prepared)
                    in if last_included_index (is_snapshot m) \<le> snapshot_index st
                       then p0\<lparr>transition := (transition p0)\<lparr>outbound :=
                              [snapshot_response source (is_term m) True (snapshot_index st)]\<rparr>\<rparr>
                       else case pending_snapshot n of
                         Some pending \<Rightarrow>
                           if pending \<noteq> m
                           then p0\<lparr>transition := (transition p0)\<lparr>outbound :=
                                  [snapshot_response source (is_term m) False (snapshot_index st)]\<rparr>\<rparr>
                           else p0
                       | None \<Rightarrow>
                           p0\<lparr>prepared_pending_snapshot := Some m,
                              transition := (transition p0)\<lparr>snapshot_install :=
                                Some \<lparr>install_source = source, install_snapshot = is_snapshot m\<rparr>\<rparr>,
                              prepared_install_request_new := True\<rparr>)
      in p\<lparr>prepared_install_request := True\<rparr>)"

text \<open>A successful append response: the progress of the follower moves and the commit index is
  searched with the new progress.\<close>

definition prepare_append_success :: "RaftNode \<Rightarrow> NodeId \<Rightarrow> LogIndex \<Rightarrow> AppendEntriesResponse \<Rightarrow>
    Prepared outcome" where
  "prepare_append_success n source matched m =
     (let st = state n;
          new_match = max matched (aer_match_index m);
          mtch = (match_index n)(source \<mapsto> new_match);
          nxt = (next_index n)(source \<mapsto> new_match + 1)
      in case commit_search (committable n mtch) (last_index st) (commit_index st) of
           Some commit \<Rightarrow>
             (case derive_membership (base_voters n) (log st) commit (limits n) of
                Inl e \<Rightarrow> Inl (Failed e)
              | Inr d \<Rightarrow>
                  let (nxt', mtch') = add_members (node_id n) (last_index st) (dm_active_voters d)
                                        (erase_departed (dm_active_voters d) (nxt, mtch));
                      st' = st\<lparr>commit_index := commit\<rparr>
                  in case replicate_to n (dm_active_voters d) nxt' commit of
                       None \<Rightarrow> Inl OutOfRangeThrown
                     | Some out \<Rightarrow>
                         Inr (nothing_prepared\<lparr>
                           prepared_append_state := Some st',
                           prepared_append_membership := Some d,
                           prepared_append_next_index := nxt',
                           prepared_append_match_index := mtch',
                           prepared_append_step_down := node_id n \<notin> set (dm_active_voters d),
                           prepared_append_commit := True,
                           prepared_append_response := True,
                           transition := empty_transition\<lparr>outbound := out,
                             advanced_commit_index := Some commit,
                             persistent_state := Some st'\<rparr>\<rparr>))
         | None \<Rightarrow>
             let p = nothing_prepared\<lparr>prepared_append_next_index := nxt,
                                      prepared_append_match_index := mtch,
                                      prepared_append_response := True\<rparr>
             in if new_match + 1 \<le> last_index st
                then case replication_for n source nxt (commit_index st) of
                       None \<Rightarrow> Inl OutOfRangeThrown
                     | Some msg \<Rightarrow>
                         Inr (p\<lparr>transition := empty_transition\<lparr>outbound :=
                           [\<lparr>destination = source, message = msg\<rparr>]\<rparr>\<rparr>)
                else Inr p)"

text \<open>A rejected append response: the next index backs up to the conflict.\<close>

definition backed_up_next :: "PersistentState \<Rightarrow> AppendEntriesResponse \<Rightarrow> LogIndex" where
  "backed_up_next st m =
     (let start = (if conflict_index m = 0 then 1 else conflict_index m);
          nxt = (case conflict_term m of
                   None \<Rightarrow> start
                 | Some t \<Rightarrow>
                     (case find (\<lambda>e. entry_term e = t) (rev (log st)) of
                        None \<Rightarrow> start
                      | Some e \<Rightarrow> entry_index e + 1))
      in max 1 (min nxt (last_index st + 1)))"

definition prepare_append_failure :: "RaftNode \<Rightarrow> NodeId \<Rightarrow> AppendEntriesResponse \<Rightarrow>
    Prepared outcome" where
  "prepare_append_failure n source m =
     (let st = state n;
          nxt = (next_index n)(source \<mapsto> backed_up_next st m)
      in case replication_for n source nxt (commit_index st) of
           None \<Rightarrow> Inl OutOfRangeThrown
         | Some msg \<Rightarrow>
             Inr (nothing_prepared\<lparr>prepared_append_next_index := nxt,
                                   prepared_append_match_index := match_index n,
                                   prepared_append_response := True,
                                   transition := empty_transition\<lparr>outbound :=
                                     [\<lparr>destination = source, message = msg\<rparr>]\<rparr>\<rparr>))"

definition prepare_append_response :: "RaftNode \<Rightarrow> NodeId \<Rightarrow> AppendEntriesResponse \<Rightarrow>
    Prepared outcome" where
  "prepare_append_response n source m =
     (if aer_term m = current_term (state n) \<and> role n = kLeader
      then case (next_index n source, match_index n source) of
             (Some _, Some matched) \<Rightarrow>
               if aer_success m then prepare_append_success n source matched m
               else prepare_append_failure n source m
           | _ \<Rightarrow> Inl (Failed kCorruption)
      else Inr nothing_prepared)"

definition prepare_snapshot_response :: "RaftNode \<Rightarrow> NodeId \<Rightarrow> InstallSnapshotResponse \<Rightarrow>
    Prepared outcome" where
  "prepare_snapshot_response n source m =
     (if isr_term m = current_term (state n) \<and> role n = kLeader
      then case (next_index n source, match_index n source) of
             (Some _, Some matched) \<Rightarrow>
               let new_match = max matched (isr_last_included_index m);
                   mtch = (match_index n)(source \<mapsto> new_match);
                   nxt = (next_index n)(source \<mapsto> new_match + 1);
                   progress = (if isr_success m then nxt else next_index n)
               in (case replication_for n source progress (commit_index (state n)) of
                     None \<Rightarrow> Inl OutOfRangeThrown
                   | Some msg \<Rightarrow>
                       Inr (nothing_prepared\<lparr>
                         prepared_snapshot_next_index := (if isr_success m then nxt else Map.empty),
                         prepared_snapshot_match_index := (if isr_success m then mtch else Map.empty),
                         prepared_snapshot_response := True,
                         transition := empty_transition\<lparr>outbound :=
                           [\<lparr>destination = source, message = msg\<rparr>]\<rparr>\<rparr>))
           | _ \<Rightarrow> Inl (Failed kCorruption)
      else Inr nothing_prepared)"

text \<open>The last step of the preparation: the persistent state of a message that moves the term or
  grants a vote.\<close>

definition prepare_persistence :: "RaftNode \<Rightarrow> NodeId \<Rightarrow> Message \<Rightarrow> Prepared \<Rightarrow> Prepared" where
  "prepare_persistence n source msg p =
     (let st = state n;
          newer = message_term msg > current_term st
      in if newer \<or> prepared_vote_granted p
         then let st1 = (if newer then observe_term st (message_term msg) else st);
                  st2 = (if prepared_vote_granted p then st1\<lparr>voted_for := Some source\<rparr> else st1)
              in p\<lparr>transition := (transition p)\<lparr>persistent_state := Some st2\<rparr>\<rparr>
         else p)"

definition prepare_message :: "RaftNode \<Rightarrow> NodeId \<Rightarrow> Message \<Rightarrow> ValidatedAppend option \<Rightarrow>
    Prepared outcome" where
  "prepare_message n source msg v =
     (case msg of
        RequestVote m \<Rightarrow> Inr (prepare_persistence n source msg (prepare_request_vote n source m))
      | RequestVoteReply m \<Rightarrow> Inr (prepare_persistence n source msg (prepare_vote_response n source m))
      | AppendEntries m \<Rightarrow> prepare_append_request n source m v
      | AppendEntriesReply m \<Rightarrow>
          map_sum id (prepare_persistence n source msg) (prepare_append_response n source m)
      | InstallSnapshot m \<Rightarrow> Inr (prepare_install_request n source m)
      | InstallSnapshotReply m \<Rightarrow>
          map_sum id (prepare_persistence n source msg) (prepare_snapshot_response n source m)
      | ReadBarrierProbe m \<Rightarrow> Inr (prepare_persistence n source msg nothing_prepared)
      | ReadBarrierReply m \<Rightarrow> Inr (prepare_persistence n source msg nothing_prepared))"

section \<open>Application\<close>

text \<open>The local variables of the last stage next to the node: the status, whether the persistent
  state changed, and the transition.\<close>

record Applied =
  ap_status :: StatusCode
  ap_node :: RaftNode
  persistence_changed :: bool
  ap_transition :: Transition

definition applied :: "RaftNode \<Rightarrow> bool \<Rightarrow> Transition \<Rightarrow> Applied" where
  "applied n changed t =
     \<lparr>ap_status = kOk, ap_node = n, persistence_changed = changed, ap_transition = t\<rparr>"

definition apply_failed :: "StatusCode \<Rightarrow> RaftNode \<Rightarrow> bool \<Rightarrow> Transition \<Rightarrow> Applied" where
  "apply_failed code n changed t =
     \<lparr>ap_status = code, ap_node = n, persistence_changed = changed, ap_transition = t\<rparr>"

text \<open>\<^verbatim>\<open>impl_->state = std::move(prepared.value())\<close>: the optional is filled whenever the flag that
  guards the move is set.\<close>

definition move_state :: "RaftNode \<Rightarrow> PersistentState option \<Rightarrow> RaftNode" where
  "move_state n prepared = (case prepared of Some st \<Rightarrow> n\<lparr>state := st\<rparr> | None \<Rightarrow> n)"

definition apply_request_vote :: "RaftNode \<Rightarrow> NodeId \<Rightarrow> Prepared \<Rightarrow> bool \<Rightarrow> Applied" where
  "apply_request_vote n source p changed =
     (if prepared_vote_granted p
      then applied (n\<lparr>state := (state n)\<lparr>voted_for := Some source\<rparr>, role := kFollower,
                      leader_id := None\<rparr>) True (transition p)
      else applied n changed (transition p))"

definition apply_vote_response :: "RaftNode \<Rightarrow> RequestVoteResponse \<Rightarrow> Prepared \<Rightarrow> bool \<Rightarrow> Applied" where
  "apply_vote_response n m p changed =
     (if rvr_term m < current_term (state n) \<or> role n \<noteq> kCandidate \<or>
         rvr_term m \<noteq> current_term (state n)
      then applied n changed (transition p)
      else if granted m
      then if \<not> prepared_vote_response p then apply_failed kCorruption n changed (transition p)
           else let n1 = n\<lparr>votes := prepared_response_votes p\<rparr>;
                    n2 = (if prepared_vote_quorum p
                          then n1\<lparr>role := kLeader, leader_id := Some (node_id n1),
                                  next_index := prepared_response_next_index p,
                                  match_index := prepared_response_match_index p,
                                  pending_read_barrier := None\<rparr>
                          else n1)
                in applied n2 changed (transition p)
      else applied n changed (transition p))"

definition apply_append_request :: "RaftNode \<Rightarrow> NodeId \<Rightarrow> AppendEntriesRequest \<Rightarrow>
    ValidatedAppend option \<Rightarrow> Prepared \<Rightarrow> bool \<Rightarrow> Applied" where
  "apply_append_request n source m v p changed =
     (if \<not> prepared_append_request p then apply_failed kCorruption n changed (transition p)
      else if ae_term m < current_term (state n) then applied n changed (transition p)
      else let persistence = prepared_append_request_persistence p;
               n1 = (if persistence then move_state n (prepared_append_request_state p) else n);
               n2 = become_follower n1 (ae_term m) (Some source);
               n3 = (if prepared_append_request_accepted p
                     then (case v of Some va \<Rightarrow> install_membership n2 (validated_membership va)
                                   | None \<Rightarrow> n2)
                     else n2)
           in applied n3 (changed \<or> persistence) (transition p))"

definition apply_append_response :: "RaftNode \<Rightarrow> AppendEntriesResponse \<Rightarrow> Prepared \<Rightarrow> bool \<Rightarrow>
    Applied" where
  "apply_append_response n m p changed =
     (if aer_term m < current_term (state n) \<or> role n \<noteq> kLeader \<or>
         aer_term m \<noteq> current_term (state n)
      then applied n changed (transition p)
      else if \<not> prepared_append_response p then apply_failed kCorruption n changed (transition p)
      else let n1 = n\<lparr>next_index := prepared_append_next_index p,
                      match_index := prepared_append_match_index p\<rparr>
           in if \<not> prepared_append_commit p then applied n1 changed (transition p)
              else let n2 = move_state n1 (prepared_append_state p);
                       n3 = (case prepared_append_membership p of
                               Some d \<Rightarrow> n2\<lparr>committed_voters := dm_committed_voters d,
                                            voters := dm_active_voters d, joint := dm_joint d\<rparr>
                             | None \<Rightarrow> n2);
                       n4 = (if prepared_append_step_down p
                             then become_follower n3 (current_term (state n3)) None else n3)
                   in applied n4 True (transition p))"

definition apply_install_request :: "RaftNode \<Rightarrow> NodeId \<Rightarrow> InstallSnapshotRequest \<Rightarrow> Prepared \<Rightarrow> bool \<Rightarrow>
    Applied" where
  "apply_install_request n source m p changed =
     (if \<not> prepared_install_request p then apply_failed kCorruption n changed (transition p)
      else if is_term m < current_term (state n) then applied n changed (transition p)
      else let persistence = prepared_install_request_persistence p;
               n1 = (if persistence then move_state n (prepared_install_request_state p) else n);
               n2 = become_follower n1 (is_term m) (Some source);
               n3 = (if prepared_install_request_new p
                     then n2\<lparr>pending_snapshot := prepared_pending_snapshot p\<rparr> else n2)
           in applied n3 (changed \<or> persistence) (transition p))"

definition apply_snapshot_response :: "RaftNode \<Rightarrow> InstallSnapshotResponse \<Rightarrow> Prepared \<Rightarrow> bool \<Rightarrow>
    Applied" where
  "apply_snapshot_response n m p changed =
     (if isr_term m < current_term (state n) \<or> role n \<noteq> kLeader \<or>
         isr_term m \<noteq> current_term (state n)
      then applied n changed (transition p)
      else if \<not> prepared_snapshot_response p then apply_failed kCorruption n changed (transition p)
      else applied (if isr_success m
                    then n\<lparr>next_index := prepared_snapshot_next_index p,
                           match_index := prepared_snapshot_match_index p\<rparr>
                    else n) changed (transition p))"

definition apply_barrier_probe :: "RaftNode \<Rightarrow> NodeId \<Rightarrow> ReadBarrierRequest \<Rightarrow> Prepared \<Rightarrow> bool \<Rightarrow>
    Applied" where
  "apply_barrier_probe n source m p changed =
     (let accepted = (rb_term m = current_term (state n));
          n1 = (if accepted then become_follower n (rb_term m) (Some source) else n);
          tr = transition p
      in applied n1 changed (tr\<lparr>outbound := outbound tr @
           [\<lparr>destination = source,
             message = ReadBarrierReply \<lparr>rbr_term = current_term (state n1),
                         rbr_context = rb_context m, rbr_accepted = accepted\<rparr>\<rparr>]\<rparr>))"

definition apply_barrier_response :: "AllocationFault \<Rightarrow> RaftNode \<Rightarrow> NodeId \<Rightarrow> ReadBarrierResponse \<Rightarrow>
    Prepared \<Rightarrow> bool \<Rightarrow> Applied" where
  "apply_barrier_response fault n source m p changed =
     (case pending_read_barrier n of
        None \<Rightarrow> applied n changed (transition p)
      | Some pending \<Rightarrow>
          if rbr_term m < current_term (state n) \<or> role n \<noteq> kLeader \<or>
             rbr_term m \<noteq> current_term (state n) \<or> \<not> rbr_accepted m \<or>
             rbr_context m \<noteq> prb_context pending \<or> rbr_term m \<noteq> prb_term pending
          then applied n changed (transition p)
          else if throws fault then apply_failed kResourceExhausted n changed (transition p)
          else let n1 = n\<lparr>pending_read_barrier := Some (pending\<lparr>acknowledgements :=
                            insert source (acknowledgements pending)\<rparr>)\<rparr>;
                   (n2, tr) = finish_read_barrier n1 (transition p)
               in applied n2 changed tr)"

definition apply_message :: "AllocationFault \<Rightarrow> RaftNode \<Rightarrow> NodeId \<Rightarrow> Message \<Rightarrow>
    ValidatedAppend option \<Rightarrow> Prepared \<Rightarrow> bool \<Rightarrow> Applied" where
  "apply_message fault n source msg v p changed =
     (case msg of
        RequestVote m \<Rightarrow> apply_request_vote n source p changed
      | RequestVoteReply m \<Rightarrow> apply_vote_response n m p changed
      | AppendEntries m \<Rightarrow> apply_append_request n source m v p changed
      | AppendEntriesReply m \<Rightarrow> apply_append_response n m p changed
      | InstallSnapshot m \<Rightarrow> apply_install_request n source m p changed
      | InstallSnapshotReply m \<Rightarrow> apply_snapshot_response n m p changed
      | ReadBarrierProbe m \<Rightarrow> apply_barrier_probe n source m p changed
      | ReadBarrierReply m \<Rightarrow> apply_barrier_response fault n source m p changed)"

text \<open>The end of \<^verbatim>\<open>receive\<close>: a newer term is observed, the message is applied, and a state change
  without a prepared persistent state would be filled in.\<close>

definition commit_message :: "AllocationFault \<Rightarrow> RaftNode \<Rightarrow> NodeId \<Rightarrow> Message \<Rightarrow>
    ValidatedAppend option \<Rightarrow> Prepared \<Rightarrow> RaftNode \<times> Transition outcome" where
  "commit_message fault n source msg v p =
     (let newer = message_term msg > current_term (state n);
          n1 = (if newer then become_follower n (message_term msg) None else n);
          a = apply_message fault n1 source msg v p newer
      in if \<not> is_ok (ap_status a) then (ap_node a, Inl (Failed (ap_status a)))
         else let tr = ap_transition a;
                  tr' = (if persistence_changed a \<and> persistent_state tr = None
                         then tr\<lparr>persistent_state := Some (state (ap_node a))\<rparr> else tr)
              in (ap_node a, Inr tr'))"

section \<open>The operation\<close>

record ReceiveFaults =
  validation_fault :: AllocationFault
  preparation_fault :: AllocationFault
  acknowledgement_fault :: AllocationFault

definition no_faults :: ReceiveFaults where
  "no_faults = \<lparr>validation_fault = NoFault, preparation_fault = NoFault,
                acknowledgement_fault = NoFault\<rparr>"

definition learner_replication_request :: "Message \<Rightarrow> bool" where
  "learner_replication_request msg =
     (case msg of AppendEntries _ \<Rightarrow> True | InstallSnapshot _ \<Rightarrow> True | _ \<Rightarrow> False)"

definition receive :: "ReceiveFaults \<Rightarrow> RaftNode \<Rightarrow> NodeId \<Rightarrow> Message \<Rightarrow>
    RaftNode \<times> Transition outcome" where
  "receive faults n source msg =
     (let active_source = voter n source in
      if source = 0 \<or> source = node_id n \<or> (\<not> active_source \<and> \<not> learner_replication_request msg)
      then (n, Inl (Failed kInvalidArgument))
      else if throws (validation_fault faults) then (n, Inl (Failed kResourceExhausted))
      else case validate_message n active_source source msg of
        Inl e \<Rightarrow> (n, Inl (Failed e))
      | Inr v \<Rightarrow>
          if throws (preparation_fault faults) then (n, Inl (Failed kResourceExhausted))
          else case prepare_message n source msg v of
            Inl e \<Rightarrow> (n, Inl e)
          | Inr p \<Rightarrow> commit_message (acknowledgement_fault faults) n source msg v p)"

end
