(* ===== verification/Raft_Invariant.thy ===== *)
theory Raft_Invariant
  imports Raft_Log Raft_Quorum Raft_Receive
begin

text \<open>
  The invariant of a node. \<open>state_wf\<close> is what \<^verbatim>\<open>RaftNode::create\<close> demands of a persistent state,
  \<open>core_wf\<close> adds that the node's configuration is the one its log derives, and \<open>node_wf\<close> adds the
  volatile parts: role, progress of the followers, pending snapshot and pending read barrier.
\<close>

section \<open>Definitions\<close>

definition valid_entry :: "RaftLimits \<Rightarrow> Term \<Rightarrow> LogEntry \<Rightarrow> bool" where
  "valid_entry lim cur e =
     (entry_term e \<noteq> 0 \<and> entry_term e \<le> cur \<and> entry_type e \<noteq> 0 \<and>
      length (entry_payload e) \<le> maximum_entry_bytes lim \<and>
      (entry_type e = kLeaderNoopEntryType \<longrightarrow> entry_payload e = []))"

definition snapshot_wf :: "RaftLimits \<Rightarrow> PersistentState \<Rightarrow> bool" where
  "snapshot_wf lim st =
     ((if snapshot_index st = 0 then empty_snapshot_canonical (snapshot st)
       else valid_snapshot (snapshot st) (maximum_voters lim)) \<and>
      last_included_term (snapshot st) \<le> current_term st)"

definition log_wf :: "RaftLimits \<Rightarrow> PersistentState \<Rightarrow> bool" where
  "log_wf lim st =
     (log_contiguous st \<and> list_all (valid_entry lim (current_term st)) (log st) \<and>
      length (log st) \<le> maximum_log_entries lim \<and>
      persistent_state_fits (length (snapshot_voters (snapshot st))) (log st) lim = kOk)"

definition state_wf :: "RaftLimits \<Rightarrow> PersistentState \<Rightarrow> bool" where
  "state_wf lim st =
     (log_wf lim st \<and> snapshot_wf lim st \<and>
      snapshot_index st \<le> applied_index st \<and> applied_index st \<le> commit_index st \<and>
      commit_index st \<le> last_index st \<and>
      voted_for st \<noteq> Some 0 \<and> (current_term st = 0 \<longrightarrow> voted_for st = None))"

definition membership_of :: "RaftNode \<Rightarrow> DerivedMembership" where
  "membership_of n = \<lparr>dm_committed_voters = committed_voters n, dm_active_voters = voters n,
                      dm_joint = joint n\<rparr>"

definition core_wf :: "RaftNode \<Rightarrow> bool" where
  "core_wf n =
     (limits_and_identity_valid (node_id n) (base_voters n) (limits n) \<and>
      valid_voters (base_voters n) (maximum_voters (limits n)) \<and>
      (snapshot_index (state n) \<noteq> 0 \<longrightarrow> base_voters n = snapshot_voters (snapshot (state n))) \<and>
      state_wf (limits n) (state n) \<and>
      derive_membership (base_voters n) (log (state n)) (commit_index (state n)) (limits n)
        = Inr (membership_of n))"

definition progress_wf :: "LogIndex \<Rightarrow> NodeId list \<Rightarrow> Progress \<Rightarrow> Progress \<Rightarrow> bool" where
  "progress_wf last_i vs nxt mtch =
     (dom nxt = set vs \<and> dom mtch = set vs \<and>
      (\<forall>k v. nxt k = Some v \<longrightarrow> 1 \<le> v \<and> v \<le> last_i + 1) \<and>
      (\<forall>k v. mtch k = Some v \<longrightarrow> v \<le> last_i))"

definition role_wf :: "RaftNode \<Rightarrow> bool" where
  "role_wf n =
     (case role n of
        kFollower \<Rightarrow> votes n = {} \<and> next_index n = Map.empty \<and> match_index n = Map.empty
      | kCandidate \<Rightarrow> voted_for (state n) = Some (node_id n) \<and> node_id n \<in> votes n
      | kLeader \<Rightarrow> voted_for (state n) = Some (node_id n) \<and>
          progress_wf (last_index (state n)) (voters n) (next_index n) (match_index n))"

definition pending_wf :: "RaftNode \<Rightarrow> bool" where
  "pending_wf n =
     (case pending_snapshot n of
        None \<Rightarrow> True
      | Some m \<Rightarrow>
          snapshot_index (state n) < last_included_index (is_snapshot m) \<and>
          valid_snapshot (is_snapshot m) (maximum_voters (limits n)) \<and>
          last_included_term (is_snapshot m) \<le> is_term m \<and>
          is_term m \<le> current_term (state n) \<and>
          (role n \<noteq> kFollower \<longrightarrow> is_term m < current_term (state n)))"

definition barrier_wf :: "RaftNode \<Rightarrow> bool" where
  "barrier_wf n =
     (case pending_read_barrier n of
        None \<Rightarrow> True
      | Some b \<Rightarrow>
          role n = kLeader \<and> prb_term b = current_term (state n) \<and>
          prb_read_index b \<le> commit_index (state n) \<and> prb_context b \<noteq> 0 \<and>
          node_id n \<in> acknowledgements b)"

definition node_wf :: "RaftNode \<Rightarrow> bool" where
  "node_wf n = (core_wf n \<and> role_wf n \<and> pending_wf n \<and> barrier_wf n)"

section \<open>Updates that leave the log alone\<close>

lemma log_reads [simp]:
  "snapshot_index (st\<lparr>current_term := t\<rparr>) = snapshot_index st"
  "snapshot_index (st\<lparr>voted_for := v\<rparr>) = snapshot_index st"
  "snapshot_index (st\<lparr>commit_index := i\<rparr>) = snapshot_index st"
  "snapshot_index (st\<lparr>applied_index := i\<rparr>) = snapshot_index st"
  "snapshot_index (st\<lparr>log := es\<rparr>) = snapshot_index st"
  "last_index (st\<lparr>current_term := t\<rparr>) = last_index st"
  "last_index (st\<lparr>voted_for := v\<rparr>) = last_index st"
  "last_index (st\<lparr>commit_index := i\<rparr>) = last_index st"
  "last_index (st\<lparr>applied_index := i\<rparr>) = last_index st"
  "last_term (st\<lparr>current_term := t\<rparr>) = last_term st"
  "last_term (st\<lparr>voted_for := v\<rparr>) = last_term st"
  "last_term (st\<lparr>commit_index := i\<rparr>) = last_term st"
  "last_term (st\<lparr>applied_index := i\<rparr>) = last_term st"
  by (simp_all add: snapshot_index_def last_index_def last_term_def)

lemma log_contiguous_updates [simp]:
  "log_contiguous (st\<lparr>current_term := t\<rparr>) = log_contiguous st"
  "log_contiguous (st\<lparr>voted_for := v\<rparr>) = log_contiguous st"
  "log_contiguous (st\<lparr>commit_index := i\<rparr>) = log_contiguous st"
  "log_contiguous (st\<lparr>applied_index := i\<rparr>) = log_contiguous st"
  by (simp_all add: log_contiguous_def)

lemma term_at_updates [simp]:
  "term_at (st\<lparr>current_term := t\<rparr>) = term_at st"
  "term_at (st\<lparr>voted_for := v\<rparr>) = term_at st"
  "term_at (st\<lparr>commit_index := c\<rparr>) = term_at st"
  "term_at (st\<lparr>applied_index := c\<rparr>) = term_at st"
  by (simp_all add: fun_eq_iff term_at_def offset_for_def)

lemma valid_entry_mono: "valid_entry lim t e \<Longrightarrow> t \<le> t' \<Longrightarrow> valid_entry lim t' e"
  by (auto simp: valid_entry_def)

lemma valid_entries_mono: "list_all (valid_entry lim t) es \<Longrightarrow> t \<le> t' \<Longrightarrow> list_all (valid_entry lim t') es"
  by (auto simp: list_all_iff intro: valid_entry_mono)

lemma log_wf_term: "log_wf lim st \<Longrightarrow> current_term st \<le> t \<Longrightarrow> log_wf lim (st\<lparr>current_term := t\<rparr>)"
  by (auto simp: log_wf_def intro: valid_entries_mono)

lemma log_wf_updates [simp]:
  "log_wf lim (st\<lparr>voted_for := v\<rparr>) = log_wf lim st"
  "log_wf lim (st\<lparr>commit_index := i\<rparr>) = log_wf lim st"
  "log_wf lim (st\<lparr>applied_index := i\<rparr>) = log_wf lim st"
  by (simp_all add: log_wf_def)

lemma snapshot_wf_term: "snapshot_wf lim st \<Longrightarrow> current_term st \<le> t \<Longrightarrow> snapshot_wf lim (st\<lparr>current_term := t\<rparr>)"
  by (auto simp: snapshot_wf_def)

lemma snapshot_wf_updates [simp]:
  "snapshot_wf lim (st\<lparr>voted_for := v\<rparr>) = snapshot_wf lim st"
  "snapshot_wf lim (st\<lparr>commit_index := i\<rparr>) = snapshot_wf lim st"
  "snapshot_wf lim (st\<lparr>applied_index := i\<rparr>) = snapshot_wf lim st"
  "snapshot_wf lim (st\<lparr>log := es\<rparr>) = snapshot_wf lim st"
  by (simp_all add: snapshot_wf_def)

lemma state_wf_new_term:
  assumes "state_wf lim st" and "current_term st \<le> t" and "t \<noteq> 0" and "v \<noteq> Some 0"
  shows "state_wf lim (st\<lparr>current_term := t, voted_for := v\<rparr>)"
  using assms by (simp add: state_wf_def log_wf_term snapshot_wf_term)

lemma state_wf_vote:
  "state_wf lim st \<Longrightarrow> current_term st \<noteq> 0 \<Longrightarrow> v \<noteq> Some 0 \<Longrightarrow> state_wf lim (st\<lparr>voted_for := v\<rparr>)"
  by (simp add: state_wf_def)

lemma state_wf_commit:
  "state_wf lim st \<Longrightarrow> commit_index st \<le> i \<Longrightarrow> i \<le> last_index st \<Longrightarrow> state_wf lim (st\<lparr>commit_index := i\<rparr>)"
  by (auto simp: state_wf_def)

lemma state_wfD:
  assumes "state_wf lim st"
  shows "log_contiguous st" and "snapshot_index st \<le> commit_index st" and "commit_index st \<le> last_index st"
    and "last_index st \<noteq> - 1" and "snapshot_index st \<le> last_index st"
  using assms last_index_bound [of st] by (auto simp: state_wf_def log_wf_def)

section \<open>Progress maps\<close>

lemma add_members_eq:
  "dom nxt = dom mtch \<Longrightarrow>
   add_members self last_i ms (nxt, mtch) =
     (\<lambda>k. if nxt k = None \<and> k \<in> set ms then Some (if k = self then last_i + 1 else 1) else nxt k,
      \<lambda>k. if nxt k = None \<and> k \<in> set ms then Some (if k = self then last_i else 0) else mtch k)"
proof (induction ms arbitrary: nxt mtch)
  case (Cons m ms)
  show ?case
  proof (cases "nxt m")
    case None
    then have "mtch m = None"
      using Cons.prems by (metis domIff)
    define x y where "x = (if m = self then last_i + 1 else 1)" and "y = (if m = self then last_i else 0)"
    have "add_members self last_i (m # ms) (nxt, mtch) =
        add_members self last_i ms (nxt(m \<mapsto> x), mtch(m \<mapsto> y))"
      using None \<open>mtch m = None\<close> by (simp add: emplace_def x_def y_def)
    also have "\<dots> = (\<lambda>k. if (nxt(m \<mapsto> x)) k = None \<and> k \<in> set ms
          then Some (if k = self then last_i + 1 else 1) else (nxt(m \<mapsto> x)) k,
        \<lambda>k. if (nxt(m \<mapsto> x)) k = None \<and> k \<in> set ms
          then Some (if k = self then last_i else 0) else (mtch(m \<mapsto> y)) k)"
      by (rule Cons.IH [of "nxt(m \<mapsto> x)" "mtch(m \<mapsto> y)"])
        (simp only: dom_fun_upd Cons.prems option.distinct if_False)
    finally show ?thesis
      using None by (auto simp: fun_eq_iff x_def y_def)
  next
    case (Some v)
    with Cons.IH [OF Cons.prems] show ?thesis by (auto simp: fun_eq_iff)
  qed
qed (simp add: fun_eq_iff)

lemma erase_departed_eq:
  "dom nxt = dom mtch \<Longrightarrow>
   erase_departed vs (nxt, mtch) =
     (\<lambda>k. if k \<in> set vs then nxt k else None, \<lambda>k. if k \<in> set vs then mtch k else None)"
  by (auto simp: erase_departed_def fun_eq_iff domIff)

text \<open>The progress maps after a membership change cover exactly the new voters.\<close>

lemma migrated_progress:
  assumes dom: "dom nxt = dom mtch"
    and nxt: "\<And>k v. nxt k = Some v \<Longrightarrow> 1 \<le> v \<and> v \<le> last_i + 1"
    and mtch: "\<And>k v. mtch k = Some v \<Longrightarrow> v \<le> last_i"
    and last: "last_i \<noteq> - 1"
  shows "case add_members self last_i vs (erase_departed vs (nxt, mtch)) of
           (nxt', mtch') \<Rightarrow> progress_wf last_i vs nxt' mtch'"
proof -
  have le: "1 \<le> last_i + 1"
    using unat_Suc_word [OF last] by (simp add: word_le_nat_alt)
  have dom': "dom (\<lambda>k. if k \<in> set vs then nxt k else None) = dom (\<lambda>k. if k \<in> set vs then mtch k else None)"
    using dom by (auto simp: dom_def)
  show ?thesis
    unfolding erase_departed_eq [OF dom] add_members_eq [OF dom']
    using nxt mtch dom le by (auto simp: progress_wf_def split: if_splits) (metis domIff option.exhaust)
qed

lemma leader_next_index_eq:
  "leader_next_index ps last_i m = (\<lambda>k. if m k = None \<and> k \<in> set ps then Some (last_i + 1) else m k)"
  by (induction ps arbitrary: m) (auto simp: emplace_def fun_eq_iff split: option.splits)

lemma leader_match_index_eq:
  "leader_match_index self ps last_i m =
     (\<lambda>k. if m k = None \<and> k \<in> set ps then Some (if k = self then last_i else 0) else m k)"
  by (induction ps arbitrary: m) (auto simp: emplace_def fun_eq_iff split: option.splits)

lemma leader_progress:
  assumes "last_i \<noteq> - 1"
  shows "progress_wf last_i vs (leader_next_index vs last_i Map.empty)
           (leader_match_index self vs last_i Map.empty)"
  using unat_Suc_word [OF assms]
  by (auto simp: progress_wf_def leader_next_index_eq leader_match_index_eq dom_def word_le_nat_alt
      split: if_splits)

lemma replicate_to_total:
  "set ps - {node_id n} \<subseteq> dom nxt \<Longrightarrow> \<exists>out. replicate_to n ps nxt c = Some out"
proof (induction ps)
  case (Cons p ps)
  then have "p \<noteq> node_id n \<Longrightarrow> \<exists>m. replication_for n p nxt c = Some m"
    by (auto simp: replication_for_def Let_def)
  moreover have "\<exists>out. replicate_to n ps nxt c = Some out"
    using Cons.prems by (intro Cons.IH) auto
  ultimately show ?case by auto
qed simp

section \<open>Node updates\<close>

lemma become_follower_simps [simp]:
  "node_id (become_follower n t l) = node_id n"
  "base_voters (become_follower n t l) = base_voters n"
  "committed_voters (become_follower n t l) = committed_voters n"
  "voters (become_follower n t l) = voters n"
  "joint (become_follower n t l) = joint n"
  "limits (become_follower n t l) = limits n"
  "role (become_follower n t l) = kFollower"
  "leader_id (become_follower n t l) = l"
  "votes (become_follower n t l) = {}"
  "next_index (become_follower n t l) = Map.empty"
  "match_index (become_follower n t l) = Map.empty"
  "pending_snapshot (become_follower n t l) = pending_snapshot n"
  "pending_read_barrier (become_follower n t l) = None"
  "next_read_context (become_follower n t l) = next_read_context n"
  "state (become_follower n t l) =
     (if t > current_term (state n) then (state n)\<lparr>current_term := t, voted_for := None\<rparr> else state n)"
  by (simp_all add: become_follower_def)

lemma install_membership_simps [simp]:
  "node_id (install_membership n d) = node_id n"
  "base_voters (install_membership n d) = base_voters n"
  "committed_voters (install_membership n d) = dm_committed_voters d"
  "voters (install_membership n d) = dm_active_voters d"
  "joint (install_membership n d) = dm_joint d"
  "state (install_membership n d) = state n"
  "limits (install_membership n d) = limits n"
  "role (install_membership n d) = role n"
  "leader_id (install_membership n d) = leader_id n"
  "votes (install_membership n d) = votes n"
  "pending_snapshot (install_membership n d) = pending_snapshot n"
  "pending_read_barrier (install_membership n d) = pending_read_barrier n"
  "next_read_context (install_membership n d) = next_read_context n"
  by (simp_all add: install_membership_def Let_def split: prod.split)

lemma install_membership_follower:
  "role n \<noteq> kLeader \<Longrightarrow>
   next_index (install_membership n d) = next_index n \<and> match_index (install_membership n d) = match_index n"
  by (simp add: install_membership_def Let_def)

lemma install_membership_progress:
  assumes "role n = kLeader" and "dom (next_index n) = dom (match_index n)"
    and "\<And>k v. next_index n k = Some v \<Longrightarrow> 1 \<le> v \<and> v \<le> last_index (state n) + 1"
    and "\<And>k v. match_index n k = Some v \<Longrightarrow> v \<le> last_index (state n)"
    and "last_index (state n) \<noteq> - 1"
  shows "progress_wf (last_index (state n)) (dm_active_voters d)
    (next_index (install_membership n d)) (match_index (install_membership n d))"
  using migrated_progress [OF assms(2-5), where self = "node_id n" and vs = "dm_active_voters d"] assms(1)
  by (auto simp: install_membership_def Let_def split: prod.splits)

lemma membership_of_install [simp]: "membership_of (install_membership n d) = d"
  by (simp add: membership_of_def)

lemma membership_of_follower [simp]: "membership_of (become_follower n t l) = membership_of n"
  by (simp add: membership_of_def)

lemma membership_of_updates [simp]:
  "membership_of (n\<lparr>state := st\<rparr>) = membership_of n"
  "membership_of (n\<lparr>role := r\<rparr>) = membership_of n"
  "membership_of (n\<lparr>leader_id := l\<rparr>) = membership_of n"
  "membership_of (n\<lparr>votes := v\<rparr>) = membership_of n"
  "membership_of (n\<lparr>next_index := m\<rparr>) = membership_of n"
  "membership_of (n\<lparr>match_index := m\<rparr>) = membership_of n"
  "membership_of (n\<lparr>pending_snapshot := p\<rparr>) = membership_of n"
  "membership_of (n\<lparr>pending_read_barrier := b\<rparr>) = membership_of n"
  "membership_of (n\<lparr>next_read_context := c\<rparr>) = membership_of n"
  "membership_of (n\<lparr>base_voters := bs\<rparr>) = membership_of n"
  by (simp_all add: membership_of_def)

lemma core_wf_updates [simp]:
  "core_wf (n\<lparr>role := r\<rparr>) = core_wf n"
  "core_wf (n\<lparr>leader_id := l\<rparr>) = core_wf n"
  "core_wf (n\<lparr>votes := v\<rparr>) = core_wf n"
  "core_wf (n\<lparr>next_index := m\<rparr>) = core_wf n"
  "core_wf (n\<lparr>match_index := m\<rparr>) = core_wf n"
  "core_wf (n\<lparr>pending_snapshot := p\<rparr>) = core_wf n"
  "core_wf (n\<lparr>pending_read_barrier := b\<rparr>) = core_wf n"
  "core_wf (n\<lparr>next_read_context := c\<rparr>) = core_wf n"
  by (simp_all add: core_wf_def)

lemma core_wfD:
  assumes "core_wf n"
  shows "state_wf (limits n) (state n)" and "log_contiguous (state n)"
    and "valid_voters (base_voters n) (maximum_voters (limits n))"
    and "config_wf (limits n) (membership_of n)"
    and "valid_voters (voters n) (maximum_voters (limits n))"
    and "node_id n \<noteq> 0"
    and "derive_membership (base_voters n) (log (state n)) (commit_index (state n)) (limits n)
           = Inr (membership_of n)"
proof -
  show *: "state_wf (limits n) (state n)" "valid_voters (base_voters n) (maximum_voters (limits n))"
    "derive_membership (base_voters n) (log (state n)) (commit_index (state n)) (limits n)
           = Inr (membership_of n)" "node_id n \<noteq> 0"
    using assms by (simp_all add: core_wf_def limits_and_identity_valid_def)
  then show "log_contiguous (state n)" and config: "config_wf (limits n) (membership_of n)"
    by (auto simp: state_wf_def log_wf_def intro: derive_membership_wf)
  show "valid_voters (voters n) (maximum_voters (limits n))"
    using config_wf_active [OF config] by (simp add: membership_of_def)
qed

text \<open>A node that keeps identity and snapshot and takes a new state together with the configuration
  the state derives.\<close>

lemma core_wf_install:
  assumes "core_wf n" and "node_id n' = node_id n" and "base_voters n' = base_voters n"
    and "limits n' = limits n" and "snapshot (state n') = snapshot (state n)"
    and "state_wf (limits n) (state n')"
    and "derive_membership (base_voters n) (log (state n')) (commit_index (state n')) (limits n)
           = Inr (membership_of n')"
  shows "core_wf n'"
  using assms by (simp add: core_wf_def snapshot_index_def)

lemma core_wf_new_term:
  assumes "core_wf n" and "current_term (state n) \<le> t" and "t \<noteq> 0" and "v \<noteq> Some 0"
  shows "core_wf (n\<lparr>state := (state n)\<lparr>current_term := t, voted_for := v\<rparr>\<rparr>)"
  using assms core_wfD [OF assms(1)]
  by (intro core_wf_install [OF assms(1)]) (simp_all add: state_wf_new_term)

lemma core_wf_become_follower:
  assumes "core_wf n"
  shows "core_wf (become_follower n t l)"
proof (rule core_wf_install [OF assms])
  show "state_wf (limits n) (state (become_follower n t l))"
    using core_wfD(1) [OF assms] by (auto intro: state_wf_new_term)
  show "derive_membership (base_voters n) (log (state (become_follower n t l)))
      (commit_index (state (become_follower n t l))) (limits n) = Inr (membership_of (become_follower n t l))"
    using core_wfD(7) [OF assms] by simp
qed simp_all

lemma pending_wf_follower:
  assumes "pending_wf n" and "pending_snapshot n' = pending_snapshot n" and "limits n' = limits n"
    and "snapshot_index (state n') = snapshot_index (state n)" and "role n' = kFollower"
    and "current_term (state n) \<le> current_term (state n')"
  shows "pending_wf n'"
  using assms by (auto simp: pending_wf_def split: option.splits)

lemma become_follower_wf: "core_wf n \<Longrightarrow> pending_wf n \<Longrightarrow> node_wf (become_follower n t l)"
  using pending_wf_follower [of n "become_follower n t l"]
  by (cases "current_term (state n) < t")
    (simp_all add: node_wf_def role_wf_def barrier_wf_def core_wf_become_follower)

lemma node_wfD:
  assumes "node_wf n"
  shows "core_wf n" and "role_wf n" and "pending_wf n" and "barrier_wf n"
    and "state_wf (limits n) (state n)" and "log_contiguous (state n)" and "last_index (state n) \<noteq> - 1"
    and "node_id n \<noteq> 0" and "commit_index (state n) \<le> last_index (state n)"
    and "snapshot_index (state n) \<le> commit_index (state n)"
  using assms core_wfD [of n] state_wfD [of "limits n" "state n"] by (auto simp: node_wf_def)

lemma leader_progress_wf:
  "node_wf n \<Longrightarrow> role n = kLeader \<Longrightarrow>
   progress_wf (last_index (state n)) (voters n) (next_index n) (match_index n) \<and>
   voted_for (state n) = Some (node_id n)"
  by (simp add: node_wf_def role_wf_def)

section \<open>Appending to the log\<close>

lemma log_size_snoc:
  "log_size_loop sz (es @ [e]) =
     (case log_size_loop sz es of
        Inl code \<Rightarrow> Inl code
      | Inr sz' \<Rightarrow> (case add_entry_size sz' e of None \<Rightarrow> Inl kOutOfRange | Some r \<Rightarrow> Inr r))"
  by (induction es arbitrary: sz) (auto split: option.splits sum.splits)

lemma appended_entry_fits_snoc:
  assumes "appended_entry_fits st (length (entry_payload e)) lim = kOk"
  shows "persistent_state_fits (length (snapshot_voters (snapshot st))) (log st @ [e]) lim = kOk"
proof -
  let ?size = "raft_persistent_state_payload_size (length (snapshot_voters (snapshot st)))"
  have "?size (log st @ [e]) =
     (case ?size (log st) of
        Inl code \<Rightarrow> Inl code
      | Inr sz' \<Rightarrow> (case add_entry_size sz' e of None \<Rightarrow> Inl kOutOfRange | Some r \<Rightarrow> Inr r))"
    by (simp add: raft_persistent_state_payload_size_def log_size_snoc split: option.splits)
  with assms show ?thesis
    by (auto simp: appended_entry_fits_def persistent_state_fits_def add_entry_size_def
        split: sum.splits option.splits if_splits)
qed

lemma push_entry_simps [simp]:
  "node_id (push_entry n t p) = node_id n"
  "base_voters (push_entry n t p) = base_voters n"
  "limits (push_entry n t p) = limits n"
  "role (push_entry n t p) = role n"
  "next_index (push_entry n t p) = next_index n"
  "match_index (push_entry n t p) = match_index n"
  "membership_of (push_entry n t p) = membership_of n"
  "last_index (state (push_entry n t p)) = last_index (state n) + 1"
  "snapshot_index (state (push_entry n t p)) = snapshot_index (state n)"
  by (simp_all add: push_entry_def last_index_def)

lemma state_wf_push:
  assumes wf: "state_wf (limits n) (state n)" and cur: "current_term (state n) \<noteq> 0"
    and room: "last_index (state n) < - 1 - 1" "length (log (state n)) < maximum_log_entries (limits n)"
    and fits: "appended_entry_fits (state n) (length payload) (limits n) = kOk"
    and entry: "t \<noteq> 0" "length payload \<le> maximum_entry_bytes (limits n)"
      "t = kLeaderNoopEntryType \<longrightarrow> payload = []"
  shows "state_wf (limits n) (state (push_entry n t payload))"
proof -
  let ?st = "state n"
  let ?e = "\<lparr>entry_index = last_index ?st + 1, entry_term = current_term ?st, entry_type = t,
             entry_payload = payload\<rparr>"
  have log: "log_wf (limits n) ?st" and contig: "log_contiguous ?st"
    using wf by (simp_all add: state_wf_def log_wf_def)
  have "unat (last_index ?st) < 2 ^ 64 - 2"
    using room(1) by (simp add: word_less_nat_alt unat_max_minus)
  then have idx: "unat (last_index ?st + 1) = unat (snapshot_index ?st) + length (log ?st) + 1"
    and bound: "unat (snapshot_index ?st) + length (log ?st) + 1 < 2 ^ 64 - 1"
    using last_index_unat [OF contig] by (simp_all add: unat_plus_one)
  have "log_wf (limits n) (?st\<lparr>log := log ?st @ [?e]\<rparr>)"
    using log room(2) cur entry appended_entry_fits_snoc [of ?st ?e "limits n"] fits idx bound
    by (simp add: log_wf_def log_contiguous_def contiguous_snoc valid_entry_def)
  moreover have "last_index ?st \<le> last_index ?st + 1"
    using idx last_index_unat [OF contig] by (simp add: word_le_nat_alt)
  ultimately show ?thesis
    using wf by (auto simp: state_wf_def push_entry_def last_index_def [of "?st\<lparr>log := _\<rparr>"])
qed

lemma progress_wf_mono:
  assumes "progress_wf l vs nxt mtch" and "l \<le> l'" and "l' \<noteq> - 1"
  shows "progress_wf l' vs nxt mtch"
proof -
  have "l \<noteq> - 1"
    using assms(2,3) by (metis word_order.extremum_unique)
  then have "l + 1 \<le> l' + 1"
    using assms(2,3) by (simp add: word_le_nat_alt unat_Suc_word)
  with assms show ?thesis
    unfolding progress_wf_def by (meson order_trans)
qed

lemma progress_wf_update:
  assumes "progress_wf l vs nxt mtch" and "k \<in> set vs" and "1 \<le> x" and "x \<le> l + 1" and "y \<le> l"
  shows "progress_wf l vs (nxt(k \<mapsto> x)) (mtch(k \<mapsto> y))"
  using assms by (auto simp: progress_wf_def split: if_splits)

lemma progress_wfD:
  assumes "progress_wf l vs nxt mtch"
  shows "dom nxt = dom mtch" and "\<And>k v. nxt k = Some v \<Longrightarrow> 1 \<le> v \<and> v \<le> l + 1"
    and "\<And>k v. mtch k = Some v \<Longrightarrow> v \<le> l"
  using assms by (auto simp: progress_wf_def)

end
