(* ===== verification/Raft_Local_Invariant.thy ===== *)
theory Raft_Local_Invariant
  imports Raft_Invariant
begin

text \<open>
  The operations that the node's owner starts (elections, proposals, membership changes, snapshots,
  read barriers, application) keep the invariant, never throw, and hand the changed persistent state
  to the runtime.
\<close>

section \<open>Definitions\<close>

definition leader_wf :: "RaftNode \<Rightarrow> bool" where
  "leader_wf n =
     (core_wf n \<and> role n = kLeader \<and> voted_for (state n) = Some (node_id n) \<and>
      progress_wf (last_index (state n)) (voters n) (next_index n) (match_index n))"

text \<open>What the appends of a leader leave alone.\<close>

definition leader_frame :: "RaftNode \<Rightarrow> RaftNode \<Rightarrow> bool" where
  "leader_frame n n' =
     (node_id n' = node_id n \<and> limits n' = limits n \<and> base_voters n' = base_voters n \<and>
      snapshot (state n') = snapshot (state n) \<and> current_term (state n') = current_term (state n) \<and>
      voted_for (state n') = voted_for (state n) \<and>
      applied_index (state n') = applied_index (state n) \<and>
      commit_index (state n) \<le> commit_index (state n') \<and>
      pending_snapshot n' = pending_snapshot n \<and>
      (role n' = kLeader \<longrightarrow> pending_read_barrier n' = pending_read_barrier n))"

text \<open>The outcome of an append on a working copy of the node.\<close>

definition append_result :: "RaftNode \<Rightarrow> (RaftNode \<times> Transition) outcome \<Rightarrow> bool" where
  "append_result n r =
     (case r of
        Inl f \<Rightarrow> (\<exists>code. f = Failed code)
      | Inr (n', tr) \<Rightarrow>
          node_wf n' \<and> leader_frame n n' \<and> persistent_state tr = Some (state n') \<and>
          (\<exists>e. log (state n') = log (state n) @ [e]) \<and>
          advanced_commit_index tr =
            (if commit_index (state n) < commit_index (state n') then Some (commit_index (state n'))
             else None))"

text \<open>What every operation of the node promises: an error leaves the node as it was, no exception
  escapes, the invariant holds afterwards, and the transition carries the persistent state whenever
  it changed.\<close>

definition operation_ok :: "RaftNode \<Rightarrow> RaftNode \<times> Transition outcome \<Rightarrow> bool" where
  "operation_ok n r =
     (case r of
        (n', Inl f) \<Rightarrow> n' = n \<and> f \<noteq> OutOfRangeThrown
      | (n', Inr tr) \<Rightarrow>
          node_wf n' \<and> node_id n' = node_id n \<and> limits n' = limits n \<and>
          current_term (state n) \<le> current_term (state n') \<and>
          commit_index (state n) \<le> commit_index (state n') \<and>
          applied_index (state n) \<le> applied_index (state n') \<and>
          snapshot_index (state n) \<le> snapshot_index (state n') \<and>
          committed_stable (state n) (state n') \<and>
          (current_term (state n') = current_term (state n) \<and> voted_for (state n) \<noteq> None \<longrightarrow>
             voted_for (state n') = voted_for (state n)) \<and>
          persistent_state tr \<in> {None, Some (state n')} \<and>
          (persistent_state tr = None \<longrightarrow> state n' = state n) \<and>
          advanced_commit_index tr \<in> {None, Some (commit_index (state n'))} \<and>
          (commit_index (state n) < commit_index (state n') \<longrightarrow>
             advanced_commit_index tr = Some (commit_index (state n'))))"

section \<open>Commit advance\<close>

lemma leader_wf_node: "node_wf n \<Longrightarrow> role n = kLeader \<Longrightarrow> leader_wf n"
  by (simp add: leader_wf_def node_wf_def role_wf_def)

lemma node_wf_leader:
  assumes "leader_wf n'" and "node_wf n" and "role n = kLeader" and "leader_frame n n'"
  shows "node_wf n'"
proof -
  have "pending_wf n'"
    using assms by (auto simp: node_wf_def pending_wf_def leader_frame_def leader_wf_def
        snapshot_index_def split: option.splits)
  moreover have "barrier_wf n'"
    using assms by (auto simp: node_wf_def barrier_wf_def leader_frame_def leader_wf_def
        split: option.splits intro: order_trans)
  ultimately show ?thesis
    using assms(1) by (simp add: node_wf_def leader_wf_def role_wf_def)
qed

lemma commit_candidate:
  assumes "core_wf n"
    and "commit_search (committable n m) (last_index (state n)) (commit_index (state n)) = Some c"
  shows "commit_index (state n) < c" and "c \<le> last_index (state n)"
    and "\<exists>d. derive_membership (base_voters n) (log (state n)) c (limits n) = Inr d"
proof -
  from commit_search_Some [OF assms(2)]
  show c: "commit_index (state n) < c" "c \<le> last_index (state n)" by simp_all
  from core_wfD(7) [OF assms(1)] c(1)
  show "\<exists>d. derive_membership (base_voters n) (log (state n)) c (limits n) = Inr d"
    by (intro derive_membership_commit_mono) auto
qed

lemma core_wf_commit:
  assumes "core_wf n" and "commit_index (state n) \<le> c" and "c \<le> last_index (state n)"
    and "derive_membership (base_voters n) (log (state n)) c (limits n) = Inr (membership_of n')"
    and "node_id n' = node_id n" and "base_voters n' = base_voters n" and "limits n' = limits n"
    and "state n' = (state n)\<lparr>commit_index := c\<rparr>"
  shows "core_wf n'"
  using assms core_wfD(1) [OF assms(1)]
  by (intro core_wf_install [OF assms(1)]) (simp_all add: state_wf_commit)

lemma advance_commit_leader:
  assumes wf: "leader_wf n"
  obtains adv n' t' where "advance_commit n t = Inr (adv, n', t')" "leader_wf n'" "leader_frame n n'"
    "log (state n') = log (state n)" "last_index (state n') = last_index (state n)"
    "outbound t' = outbound t" "persistent_state t' = persistent_state t"
    "advanced_commit_index t' =
       (if adv then Some (commit_index (state n')) else advanced_commit_index t)"
    "adv \<longleftrightarrow> commit_index (state n) < commit_index (state n')"
proof (cases "commit_search (committable n (match_index n)) (last_index (state n))
      (commit_index (state n))")
  case None
  with wf that [of False n t] show ?thesis
    by (simp add: advance_commit_def leader_frame_def)
next
  case (Some c)
  have core: "core_wf n" and prog: "progress_wf (last_index (state n)) (voters n) (next_index n) (match_index n)"
    and lead: "role n = kLeader" "voted_for (state n) = Some (node_id n)"
    using wf by (simp_all add: leader_wf_def)
  from commit_candidate [OF core Some] obtain d where
      c: "commit_index (state n) < c" "c \<le> last_index (state n)"
    and d: "derive_membership (base_voters n) (log (state n)) c (limits n) = Inr d"
    by blast
  let ?n1 = "n\<lparr>state := (state n)\<lparr>commit_index := c\<rparr>\<rparr>"
  let ?n' = "install_membership ?n1 d"
  have "core_wf ?n'"
    using c d by (intro core_wf_commit [OF core, of c]) simp_all
  moreover have "progress_wf (last_index (state ?n')) (voters ?n') (next_index ?n') (match_index ?n')"
    using install_membership_progress [of ?n1 d] progress_wfD [OF prog] lead(1)
      state_wfD(4) [OF core_wfD(1) [OF core]]
    by simp
  ultimately have "leader_wf ?n'"
    using lead by (simp add: leader_wf_def)
  moreover have "advance_commit n t = Inr (True, ?n', t\<lparr>advanced_commit_index := Some c\<rparr>)"
    using Some d by (simp add: advance_commit_def)
  ultimately show ?thesis
    using that [of True ?n' "t\<lparr>advanced_commit_index := Some c\<rparr>"] c
    by (simp add: leader_frame_def)
qed

section \<open>Local appends\<close>

lemma push_entry_state [simp]:
  "voters (push_entry n t p) = voters n"
  "voted_for (state (push_entry n t p)) = voted_for (state n)"
  "current_term (state (push_entry n t p)) = current_term (state n)"
  "commit_index (state (push_entry n t p)) = commit_index (state n)"
  "log (state (push_entry n t p)) = log (state n) @
     [\<lparr>entry_index = last_index (state n) + 1, entry_term = current_term (state n), entry_type = t,
       entry_payload = p\<rparr>]"
  by (simp_all add: push_entry_def)

lemma leader_wfD:
  assumes "leader_wf n"
  shows "core_wf n" and "role n = kLeader" and "voted_for (state n) = Some (node_id n)"
    and "progress_wf (last_index (state n)) (voters n) (next_index n) (match_index n)"
    and "state_wf (limits n) (state n)" and "last_index (state n) \<noteq> - 1"
  using assms core_wfD(1) [of n] state_wfD(4) [of "limits n" "state n"]
  by (simp_all add: leader_wf_def)

lemma leader_frame_trans: "leader_frame a b \<Longrightarrow> role b = kLeader \<Longrightarrow> leader_frame b c \<Longrightarrow> leader_frame a c"
  by (auto simp: leader_frame_def)

lemma leader_push_progress:
  assumes "leader_wf n" and "state_wf (limits n) (state (push_entry n t p))"
  shows "progress_wf (last_index (state n) + 1) (voters n) (next_index n) (match_index n)"
proof (rule progress_wf_mono)
  show "progress_wf (last_index (state n)) (voters n) (next_index n) (match_index n)"
    by (rule leader_wfD(4) [OF assms(1)])
  show "last_index (state n) + 1 \<noteq> - 1"
    using state_wfD(4) [OF assms(2)] by simp
  show "last_index (state n) \<le> last_index (state n) + 1"
    using word_less_Suc [OF leader_wfD(6) [OF assms(1)]] by simp
qed

lemma leader_frame_push: "leader_frame n (push_entry n t p)"
  by (simp add: leader_frame_def push_entry_def)

lemma leader_push:
  assumes "leader_wf n" and "state_wf (limits n) (state (push_entry n t p))"
    and "\<not> is_membership_entry_type t"
  shows "leader_wf (push_entry n t p)"
proof -
  have core: "core_wf n" by (rule leader_wfD(1) [OF assms(1)])
  have "core_wf (push_entry n t p)"
  proof (rule core_wf_install [OF core])
    show "derive_membership (base_voters n) (log (state (push_entry n t p)))
        (commit_index (state (push_entry n t p))) (limits n) = Inr (membership_of (push_entry n t p))"
      using core_wfD(7) [OF core] assms(3)
      by (simp add: derive_membership_def derive_loop_append derive_step_def)
  qed (use assms(2) in \<open>simp_all add: push_entry_def\<close>)
  then show ?thesis
    using leader_push_progress [OF assms(1,2)] leader_wfD [OF assms(1)]
    by (simp add: leader_wf_def)
qed

lemma record_self_progress_wf:
  assumes "leader_wf n" and "record_self_progress n (last_index (state n)) = Inr n'"
  shows "leader_wf n'" and "leader_frame n n'" and "state n' = state n"
proof -
  have prog: "progress_wf (last_index (state n)) (voters n) (next_index n) (match_index n)"
    and last: "last_index (state n) \<noteq> - 1"
    using leader_wfD [OF assms(1)] by simp_all
  have n': "n' = n\<lparr>match_index := (match_index n)(node_id n \<mapsto> last_index (state n)),
                  next_index := (next_index n)(node_id n \<mapsto> last_index (state n) + 1)\<rparr>"
    and self: "node_id n \<in> dom (match_index n)"
    using assms(2) by (auto simp: record_self_progress_def split: if_splits)
  show "leader_frame n n'" "state n' = state n"
    by (simp_all add: n' leader_frame_def)
  have "1 \<le> last_index (state n) + 1"
    using unat_Suc_word [OF last] by (simp add: word_le_nat_alt)
  moreover have "node_id n \<in> set (voters n)"
    using self prog by (simp add: progress_wf_def)
  ultimately show "leader_wf n'"
    using progress_wf_update [OF prog] leader_wfD [OF assms(1)] by (simp add: n' leader_wf_def)
qed

text \<open>The common tail of both appends.\<close>

lemma append_to_all_total:
  assumes "leader_wf n"
  shows "\<exists>out. append_to_all n = Some out"
  using leader_wfD(4) [OF assms] unfolding append_to_all_def
  by (intro replicate_to_total) (auto simp: progress_wf_def)

lemma append_local_entry_result:
  assumes wf: "node_wf n" "role n = kLeader"
    and st: "state_wf (limits n) (state (push_entry n t p))" and kind: "\<not> is_membership_entry_type t"
  shows "append_result n (append_local_entry n t p)"
proof -
  let ?n0 = "push_entry n t p"
  have lead: "leader_wf ?n0"
    by (rule leader_push [OF leader_wf_node [OF wf] st kind])
  show ?thesis
  proof (cases "record_self_progress ?n0 (last_index (state n) + 1)")
    case (Inl e)
    then show ?thesis by (simp add: append_local_entry_def append_result_def)
  next
    case (Inr n1)
    note rec = record_self_progress_wf [OF lead, unfolded push_entry_simps, OF Inr]
    obtain adv n2 t2 where adv: "advance_commit n1 empty_transition = Inr (adv, n2, t2)"
      and n2: "leader_wf n2" "leader_frame n1 n2" "log (state n2) = log (state n1)"
      and t2: "advanced_commit_index t2 = (if adv then Some (commit_index (state n2))
                 else advanced_commit_index empty_transition)"
        "adv \<longleftrightarrow> commit_index (state n1) < commit_index (state n2)"
      by (rule advance_commit_leader [OF rec(1)]) blast
    obtain out where out: "append_to_all n2 = Some out"
      using append_to_all_total [OF n2(1)] by blast
    have frame: "leader_frame n n2"
      using leader_frame_push rec n2 leader_wfD(2) [OF lead] leader_wfD(2) [OF rec(1)]
      by (meson leader_frame_trans)
    have "append_local_entry n t p =
        Inr (n2, t2\<lparr>outbound := out, persistent_state := Some (state n2)\<rparr>)"
      using Inr adv out by (simp add: append_local_entry_def)
    moreover have "commit_index (state n1) = commit_index (state n)" "log (state n1) = log (state ?n0)"
      using rec(3) by simp_all
    ultimately show ?thesis
      using node_wf_leader [OF n2(1) wf frame] frame n2(3) t2
      by (simp add: append_result_def empty_transition_def)
  qed
qed

lemma leader_push_membership:
  assumes "leader_wf n" and st: "state_wf (limits n) (state (push_entry n t p))"
    and d: "derive_membership (base_voters n) (log (state (push_entry n t p)))
              (commit_index (state n)) (limits n) = Inr d"
  shows "leader_wf (install_membership (push_entry n t p) d)"
    and "leader_frame n (install_membership (push_entry n t p) d)"
proof -
  let ?n1 = "push_entry n t p" and ?n2 = "install_membership (push_entry n t p) d"
  have core: "core_wf n" by (rule leader_wfD(1) [OF assms(1)])
  have "core_wf ?n2"
    using st d by (intro core_wf_install [OF core]) (simp_all add: push_entry_def)
  moreover have "progress_wf (last_index (state ?n1)) (voters ?n2) (next_index ?n2) (match_index ?n2)"
    using install_membership_progress [of ?n1 d] leader_wfD(2) [OF assms(1)] state_wfD(4) [OF st]
      progress_wfD [OF leader_push_progress [OF assms(1) st]]
    by simp
  ultimately show "leader_wf ?n2"
    using leader_wfD [OF assms(1)] by (simp add: leader_wf_def)
  show "leader_frame n ?n2"
    by (simp add: leader_frame_def push_entry_def)
qed

lemma step_down_if_removed_wf:
  assumes "node_wf n'" and "leader_frame n n'" and "role n' = kLeader"
  shows "node_wf (step_down_if_removed n')" and "leader_frame n (step_down_if_removed n')"
    and "state (step_down_if_removed n') = state n'"
  using assms become_follower_wf [of n'] node_wfD [OF assms(1)]
  by (simp_all add: step_down_if_removed_def leader_frame_def)

lemma append_membership_entry_result:
  assumes wf: "node_wf n" "role n = kLeader"
    and st: "state_wf (limits n) (state (push_entry n t p))"
  shows "append_result n (append_membership_entry n t p)"
proof (cases "derive_membership (base_voters n) (log (state (push_entry n t p)))
              (commit_index (state n)) (limits n)")
  case (Inl e)
  then show ?thesis by (simp add: append_membership_entry_def append_result_def Let_def)
next
  case d: (Inr d)
  let ?n1 = "install_membership (push_entry n t p) d"
  note n1 = leader_push_membership [OF leader_wf_node [OF wf] st d]
  have last: "last_index (state ?n1) = last_index (state n) + 1" by simp
  show ?thesis
  proof (cases "record_self_progress ?n1 (last_index (state n) + 1)")
    case (Inl e)
    with d show ?thesis by (simp add: append_membership_entry_def append_result_def Let_def)
  next
    case (Inr n2)
    note rec = record_self_progress_wf [OF n1(1), unfolded last, OF Inr]
    obtain adv n3 t3 where adv: "advance_commit n2 empty_transition = Inr (adv, n3, t3)"
      and n3: "leader_wf n3" "leader_frame n2 n3" "log (state n3) = log (state n2)"
      and t3: "advanced_commit_index t3 = (if adv then Some (commit_index (state n3))
                 else advanced_commit_index empty_transition)"
        "adv \<longleftrightarrow> commit_index (state n2) < commit_index (state n3)"
      by (rule advance_commit_leader [OF rec(1)]) blast
    obtain out where out: "append_to_all n3 = Some out"
      using append_to_all_total [OF n3(1)] by blast
    have frame: "leader_frame n n3"
      using n1 rec n3 leader_wfD(2) [OF n1(1)] leader_wfD(2) [OF rec(1)]
      by (meson leader_frame_trans)
    note down = step_down_if_removed_wf [OF node_wf_leader [OF n3(1) wf frame] frame leader_wfD(2) [OF n3(1)]]
    have "append_membership_entry n t p = Inr (step_down_if_removed n3,
        t3\<lparr>outbound := out, persistent_state := Some (state (step_down_if_removed n3))\<rparr>)"
      using d Inr adv out by (simp add: append_membership_entry_def Let_def)
    then show ?thesis
      using down n3(3) t3 rec(3) by (simp add: append_result_def empty_transition_def)
  qed
qed

section \<open>Proposals and membership changes\<close>

lemma operation_ok_error [simp]: "operation_ok n (n, Inl (Failed code))"
  by (simp add: operation_ok_def)

lemma operation_ok_noop [simp]: "node_wf n \<Longrightarrow> operation_ok n (n, Inr empty_transition)"
  by (simp add: operation_ok_def empty_transition_def committed_stable_same)

lemma append_result_stable:
  assumes "node_wf n" and "append_result n (Inr (n', tr))"
  shows "committed_stable (state n) (state n')"
proof (rule committed_stable_prefix [where k = "length (log (state n))"])
  have n': "node_wf n'" "snapshot (state n') = snapshot (state n)"
    using assms(2) by (simp_all add: append_result_def leader_frame_def)
  then show "log_contiguous (state n')" "snapshot_index (state n') = snapshot_index (state n)"
    using node_wfD by (simp_all add: snapshot_index_def)
  show "log_contiguous (state n)"
    using node_wfD(6) [OF assms(1)] .
  show "unat (commit_index (state n)) \<le> unat (snapshot_index (state n)) + length (log (state n))"
    using node_wfD(9) [OF assms(1)] last_index_unat [OF node_wfD(6) [OF assms(1)]]
    by (simp add: word_le_nat_alt)
qed (use assms(2) in \<open>auto simp: append_result_def\<close>)

lemma install_prepared_ok:
  assumes "node_wf n" and "append_result n r"
  shows "operation_ok n (install_prepared fault n r)"
  using assms append_result_stable [OF assms(1)]
  by (auto simp: install_prepared_def operation_ok_def append_result_def leader_frame_def
      snapshot_index_def split: sum.splits if_splits)

lemma leader_term_nonzero: "node_wf n \<Longrightarrow> role n = kLeader \<Longrightarrow> current_term (state n) \<noteq> 0"
  by (auto simp: node_wf_def role_wf_def core_wf_def state_wf_def)

lemma is_ok_iff [simp]: "is_ok code \<longleftrightarrow> code = kOk"
  by (simp add: is_ok_def)

lemma leader_state_wf_push:
  assumes "node_wf n" and "role n = kLeader"
    and "last_index (state n) < - 1 - 1" and "length (log (state n)) < maximum_log_entries (limits n)"
    and "appended_entry_fits (state n) (length payload) (limits n) = kOk"
    and "t \<noteq> 0" and "length payload \<le> maximum_entry_bytes (limits n)"
    and "t = kLeaderNoopEntryType \<longrightarrow> payload = []"
  shows "state_wf (limits n) (state (push_entry n t payload))"
  using assms leader_term_nonzero [OF assms(1,2)] node_wfD(5) [OF assms(1)]
  by (intro state_wf_push)

lemma append_local_ok:
  assumes "node_wf n" and "role n = kLeader"
    and "\<not> - 1 - 1 \<le> last_index (state n)" and "length (log (state n)) < maximum_log_entries (limits n)"
    and "appended_entry_fits (state n) (length payload) (limits n) = kOk"
    and "t \<noteq> 0" and "length payload \<le> maximum_entry_bytes (limits n)"
    and "t = kLeaderNoopEntryType \<longrightarrow> payload = []" and "\<not> is_membership_entry_type t"
  shows "operation_ok n (install_prepared fault n (append_local_entry n t payload))"
  using assms
  by (intro install_prepared_ok append_local_entry_result leader_state_wf_push) (simp_all only: not_le not_False_eq_True)

lemma propose_ok:
  assumes "node_wf n"
  shows "operation_ok n (propose fault n t payload)"
  using assms append_local_ok [of n payload t fault]
  by (auto simp: propose_def Let_def is_internal_raft_entry_type_def)

lemma noop_not_membership: "\<not> is_membership_entry_type kLeaderNoopEntryType" "kLeaderNoopEntryType \<noteq> 0"
  by (simp_all add: is_membership_entry_type_def kLeaderNoopEntryType_def
      kJointMembershipEntryType_def kFinalMembershipEntryType_def)

lemma commit_current_term_ok:
  assumes "node_wf n"
  shows "operation_ok n (commit_current_term fault n)"
  using assms append_local_ok [of n "[]" kLeaderNoopEntryType fault] noop_not_membership
  by (auto simp: commit_current_term_def Let_def)

lemma propose_exact_retained_ok:
  "node_wf n \<Longrightarrow> operation_ok n (propose_exact_retained fault n t payload)"
  by (auto simp: propose_exact_retained_def propose_ok commit_current_term_ok
      split: option.splits bool.splits)

lemma append_membership_command_ok:
  assumes "node_wf n" and "role n = kLeader" and "\<not> - 1 - 1 \<le> last_index (state n)"
    and "length (log (state n)) < maximum_log_entries (limits n)" and "is_membership_entry_type t"
  shows "operation_ok n (append_membership_command n t command)"
proof (cases "encode_membership_command_v1 command (maximum_voters (limits n))")
  case (Inl e)
  then show ?thesis by (simp add: append_membership_command_def)
next
  case (Inr payload)
  show ?thesis
  proof (cases "length payload \<le> maximum_entry_bytes (limits n) \<and>
      appended_entry_fits (state n) (length payload) (limits n) = kOk")
    case False
    with Inr show ?thesis
      by (auto simp: append_membership_command_def Let_def)
  next
    case True
    have "t \<noteq> 0" "t \<noteq> kLeaderNoopEntryType"
      using assms(5) by (auto simp: is_membership_entry_type_def kLeaderNoopEntryType_def
          kJointMembershipEntryType_def kFinalMembershipEntryType_def)
    with True have "append_result n (append_membership_entry n t payload)"
      using assms by (intro append_membership_entry_result leader_state_wf_push)
        (simp_all only: not_le simp_thms)
    with Inr True assms(1) show ?thesis
      by (simp add: append_membership_command_def install_prepared_ok)
  qed
qed

lemma begin_membership_change_ok:
  "node_wf n \<Longrightarrow> operation_ok n (begin_membership_change fault retry_fault n vs)"
  by (auto simp: begin_membership_change_def Let_def commit_current_term_ok not_le
      is_membership_entry_type_def split: option.splits intro!: append_membership_command_ok)

lemma finalize_membership_change_ok:
  "node_wf n \<Longrightarrow> operation_ok n (finalize_membership_change fault retry_fault n)"
  by (auto simp: finalize_membership_change_def commit_current_term_ok not_le
      is_membership_entry_type_def split: option.splits intro!: append_membership_command_ok)

section \<open>Elections, heartbeats, read barriers, application\<close>

lemma start_election_ok:
  assumes "node_wf n"
  shows "operation_ok n (start_election fault n)"
proof (cases "voter n (node_id n) \<and> current_term (state n) \<noteq> - 1 \<and> last_index (state n) \<noteq> - 1 \<and>
    \<not> throws fault")
  case False
  then show ?thesis by (auto simp: start_election_def)
next
  case True
  let ?t = "current_term (state n) + 1"
  let ?st = "(state n)\<lparr>current_term := ?t, voted_for := Some (node_id n)\<rparr>"
  define n' out where "n' = fst (start_election fault n)"
    and "out = (if configuration_quorum n (\<lambda>node. node = node_id n) then leader_announcements n ?t
                else vote_requests n ?t)"
  have run: "start_election fault n = (n', Inr (empty_transition\<lparr>outbound := out,
        persistent_state := Some ?st\<rparr>))"
    using True by (simp add: start_election_def Let_def n'_def out_def)
  have n': "node_id n' = node_id n" "base_voters n' = base_voters n" "limits n' = limits n"
      "state n' = ?st" "role n' \<noteq> kFollower" "votes n' = {node_id n}"
      "pending_snapshot n' = pending_snapshot n" "pending_read_barrier n' = None"
      "membership_of n' = membership_of n" "voters n' = voters n"
      "role n' = kLeader \<Longrightarrow> next_index n' = leader_next_index (voters n) (last_index (state n)) Map.empty"
      "role n' = kLeader \<Longrightarrow> match_index n' = leader_match_index (node_id n) (voters n)
         (last_index (state n)) Map.empty"
    using True by (simp_all add: start_election_def Let_def n'_def split: if_splits)
  have less: "current_term (state n) < ?t"
    using True by (simp add: word_less_Suc)
  then have "?t \<noteq> 0" by auto
  then have "state_wf (limits n) ?st"
    using less node_wfD [OF assms] by (intro state_wf_new_term) auto
  then have "core_wf n'"
    using core_wfD(7) [OF node_wfD(1) [OF assms]]
    by (intro core_wf_install [OF node_wfD(1) [OF assms]]) (simp_all add: n')
  moreover have "role_wf n'"
    using n' leader_progress [of "last_index (state n)" "voters n" "node_id n"] True
    by (cases "role n'") (simp_all add: role_wf_def)
  moreover have "pending_wf n'"
    using node_wfD(3) [OF assms] less n' by (auto simp: pending_wf_def split: option.splits)
  moreover have "barrier_wf n'"
    by (simp add: barrier_wf_def n')
  ultimately show ?thesis
    using less by (simp add: run operation_ok_def node_wf_def n' empty_transition_def committed_stable_same)
qed

lemma heartbeat_ok:
  assumes "node_wf n"
  shows "operation_ok n (heartbeat n)"
proof (cases "role n = kLeader")
  case True
  with append_to_all_total [OF leader_wf_node [OF assms]] obtain out where "append_to_all n = Some out"
    by blast
  with True assms show ?thesis
    by (simp add: heartbeat_def operation_ok_def empty_transition_def committed_stable_same)
qed (simp add: heartbeat_def)

lemma wf_updates [simp]:
  "role_wf (n\<lparr>next_read_context := c\<rparr>) = role_wf n"
  "pending_wf (n\<lparr>next_read_context := c\<rparr>) = pending_wf n"
  "barrier_wf (n\<lparr>next_read_context := c\<rparr>) = barrier_wf n"
  "role_wf (n\<lparr>pending_read_barrier := b\<rparr>) = role_wf n"
  "pending_wf (n\<lparr>pending_read_barrier := b\<rparr>) = pending_wf n"
  "role_wf (n\<lparr>pending_snapshot := p\<rparr>) = role_wf n"
  "barrier_wf (n\<lparr>pending_snapshot := p\<rparr>) = barrier_wf n"
  by (simp_all add: role_wf_def pending_wf_def barrier_wf_def cong: option.case_cong Role.case_cong)

lemma begin_read_barrier_ok:
  assumes "node_wf n"
  shows "operation_ok n (begin_read_barrier fault n)"
proof -
  have "barrier_wf (n\<lparr>pending_read_barrier := Some (new_read_barrier n)\<rparr>)"
    if "role n = kLeader" "next_read_context n \<noteq> 0"
    using that by (simp add: barrier_wf_def new_read_barrier_def)
  then show ?thesis
    using assms
    by (auto simp: begin_read_barrier_def Let_def operation_ok_def empty_transition_def node_wf_def
        committed_stable_same)
qed

lemma mark_applied_ok:
  assumes "node_wf n"
  shows "operation_ok n (mark_applied fault n i)"
proof (cases "applied_index (state n) < i \<and> i \<le> commit_index (state n) \<and> \<not> throws fault")
  case False
  then show ?thesis
    using assms by (auto simp: mark_applied_def Let_def not_less)
next
  case True
  let ?st = "(state n)\<lparr>applied_index := i\<rparr>" and ?n = "n\<lparr>state := (state n)\<lparr>applied_index := i\<rparr>\<rparr>"
  have run: "mark_applied fault n i = (?n, Inr (empty_transition\<lparr>persistent_state := Some ?st\<rparr>))"
    using True by (auto simp: mark_applied_def Let_def)
  have "state_wf (limits n) ?st"
    using True node_wfD(5) [OF assms] by (auto simp: state_wf_def)
  then have "core_wf ?n"
    using core_wfD(7) [OF node_wfD(1) [OF assms]]
    by (intro core_wf_install [OF node_wfD(1) [OF assms]]) simp_all
  moreover have "role_wf ?n" "pending_wf ?n" "barrier_wf ?n"
    using node_wfD [OF assms] by (simp_all add: role_wf_def pending_wf_def barrier_wf_def split: Role.splits option.splits)
  ultimately show ?thesis
    using True by (auto simp: run operation_ok_def node_wf_def empty_transition_def committed_stable_same)
qed

section \<open>Snapshots\<close>

lemma snapshot_index_update [simp]: "snapshot_index (st\<lparr>snapshot := s\<rparr>) = last_included_index s"
  by (simp add: snapshot_index_def)

lemma unat_offset:
  assumes "snapshot_index st < i"
  shows "snapshot_index st + of_nat (offset_for st i + 1) = i"
  using arg_cong [OF offset_for_exact [OF assms], of "of_nat :: nat \<Rightarrow> u64"]
  by (simp add: ac_simps)

text \<open>Dropping the log through an index inside it leaves a contiguous log above that index.\<close>

lemma drop_through:
  assumes contig: "log_contiguous st" and above: "snapshot_index st < i" and inside: "i \<le> last_index st"
  shows "contiguous i (drop (offset_for st i + 1) (log st))"
    and "unat i + length (drop (offset_for st i + 1) (log st)) = unat (last_index st)"
proof -
  have k: "offset_for st i + 1 \<le> length (log st)"
    using offset_for_less [OF assms] by simp
  show "contiguous i (drop (offset_for st i + 1) (log st))"
    using contiguous_drop [OF contig [unfolded log_contiguous_def] k] unfolding unat_offset [OF above] .
  show "unat i + length (drop (offset_for st i + 1) (log st)) = unat (last_index st)"
    using k offset_for_exact [OF above] last_index_unat [OF contig] by simp
qed

lemma drop_through_last:
  assumes "log_contiguous st" and "snapshot_index st < i" and "i \<le> last_index st"
    and "last_included_index s = i"
  shows "last_index (st\<lparr>log := drop (offset_for st i + 1) (log st), snapshot := s\<rparr>) = last_index st"
proof -
  let ?st = "st\<lparr>log := drop (offset_for st i + 1) (log st), snapshot := s\<rparr>"
  have "log_contiguous ?st"
    using drop_through(1) [OF assms(1-3)] assms(4) by (simp add: log_contiguous_def snapshot_index_def)
  from last_index_unat [OF this] drop_through(2) [OF assms(1-3)] assms(4) show ?thesis
    by (simp add: snapshot_index_def word_unat_eq_iff)
qed

lemma prefix_through:
  assumes "log_contiguous st" and "snapshot_index st < i" and "i \<le> last_index st"
  shows "\<forall>e \<in> set (take (offset_for st i + 1) (log st)). entry_index e \<le> i"
proof
  fix e assume "e \<in> set (take (offset_for st i + 1) (log st))"
  then obtain k where "k < length (log st)" "k \<le> offset_for st i" "e = log st ! k"
    by (auto simp: in_set_conv_nth)
  then show "entry_index e \<le> i"
    using contiguous_nth [OF assms(1) [unfolded log_contiguous_def], of k] offset_for_exact [OF assms(2)]
    by (simp add: word_le_nat_alt)
qed

lemma term_at_bound:
  assumes "log_wf lim st" and "snapshot_index st < i" and "term_at st i = Some t"
  shows "i \<le> last_index st" and "t \<noteq> 0" and "t \<le> current_term st"
proof -
  have contig: "log_contiguous st" and valid: "list_all (valid_entry lim (current_term st)) (log st)"
    using assms(1) by (simp_all add: log_wf_def)
  show i: "i \<le> last_index st"
    using assms term_at_above [OF contig assms(2)] by (simp split: if_splits)
  then have "t = entry_term (log st ! offset_for st i)"
    using assms(3) term_at_above [OF contig assms(2)] by simp
  moreover have "log st ! offset_for st i \<in> set (log st)"
    using offset_for_less [OF contig assms(2) i] by simp
  ultimately show "t \<noteq> 0" "t \<le> current_term st"
    using valid by (auto simp: list_all_iff valid_entry_def)
qed

lemma identity_voters:
  "limits_and_identity_valid i base lim \<Longrightarrow> valid_voters vs (maximum_voters lim) \<Longrightarrow>
   limits_and_identity_valid i vs lim"
  by (auto simp: limits_and_identity_valid_def valid_voters_def)

text \<open>A node whose state moves to a new snapshot, with the configuration it derives.\<close>

lemma core_wf_snapshot:
  assumes core: "core_wf n" and same: "node_id n' = node_id n" "limits n' = limits n"
    and base: "base_voters n' = snapshot_voters (snapshot (state n'))"
    and valid: "valid_snapshot (snapshot (state n')) (maximum_voters (limits n))"
    and st: "state_wf (limits n) (state n')"
    and d: "derive_membership (base_voters n') (log (state n')) (commit_index (state n')) (limits n)
             = Inr (membership_of n')"
  shows "core_wf n'"
  using assms identity_voters [of "node_id n" "base_voters n" "limits n" "base_voters n'"]
  by (auto simp: core_wf_def valid_snapshot_def)

lemma prepare_snapshot_metadata_Inr:
  assumes "prepare_snapshot_metadata fault n s = Inr s'"
  obtains d where "pending_snapshot n = None" "joint n = None"
    "snapshot_index (state n) < last_included_index s'" "last_included_index s' \<le> applied_index (state n)"
    "term_at (state n) (last_included_index s') = Some (last_included_term s')"
    "derive_membership (base_voters n)
       (take (offset_for (state n) (last_included_index s') + 1) (log (state n)))
       (last_included_index s') (limits n) = Inr d" "dm_joint d = None"
    "snapshot_voters s' = dm_committed_voters d"
    "valid_snapshot s' (maximum_voters (limits n))"
    "persistent_state_fits (length (snapshot_voters s'))
       (drop (offset_for (state n) (last_included_index s') + 1) (log (state n))) (limits n) = kOk"
    "last_included_index s' = last_included_index s" "last_included_term s' = last_included_term s"
    "manifest_generation s' = manifest_generation s" "part_set_checksum s' = part_set_checksum s"
  using assms
  by (auto simp: prepare_snapshot_metadata_def Let_def not_le not_less split: if_splits sum.splits)

lemma compacted_state_wf:
  assumes wf: "state_wf lim st" and above: "snapshot_index st < last_included_index s"
    and below: "last_included_index s \<le> applied_index st"
    and t: "term_at st (last_included_index s) = Some (last_included_term s)"
    and valid: "valid_snapshot s (maximum_voters lim)"
    and fits: "persistent_state_fits (length (snapshot_voters s))
       (drop (offset_for st (last_included_index s) + 1) (log st)) lim = kOk"
  shows "state_wf lim (st\<lparr>log := drop (offset_for st (last_included_index s) + 1) (log st), snapshot := s\<rparr>)"
    (is "state_wf lim ?st")
proof -
  have log: "log_wf lim st" and contig: "log_contiguous st"
    using wf by (simp_all add: state_wf_def log_wf_def)
  have inside: "last_included_index s \<le> last_index st"
    using term_at_bound(1) [OF log above t] .
  have "log_wf lim ?st"
    using log fits drop_through(1) [OF contig above inside]
    by (auto simp: log_wf_def log_contiguous_def list_all_iff dest: in_set_dropD)
  moreover have "snapshot_wf lim ?st"
    using valid term_at_bound(3) [OF log above t] by (simp add: snapshot_wf_def valid_snapshot_def)
  moreover have "last_index ?st = last_index st"
    by (rule drop_through_last [OF contig above inside refl])
  ultimately show ?thesis
    using wf below by (simp add: state_wf_def)
qed

lemma compact_snapshot_ok:
  assumes wf: "node_wf n"
  shows "operation_ok n (compact_snapshot prepare_fault fault n s)"
proof (cases "prepare_snapshot_metadata prepare_fault n s")
  case (Inl e)
  then show ?thesis by (simp add: compact_snapshot_def)
next
  case (Inr s')
  let ?i = "last_included_index s'"
  let ?k = "offset_for (state n) ?i + 1"
  let ?st = "(state n)\<lparr>log := drop ?k (log (state n)), snapshot := s'\<rparr>"
  let ?n = "n\<lparr>state := ?st, base_voters := snapshot_voters s'\<rparr>"
  obtain d where pending: "pending_snapshot n = None" and above: "snapshot_index (state n) < ?i"
    and below: "?i \<le> applied_index (state n)"
    and t: "term_at (state n) ?i = Some (last_included_term s')"
    and d: "derive_membership (base_voters n) (take ?k (log (state n))) ?i (limits n) = Inr d"
      "dm_joint d = None" "snapshot_voters s' = dm_committed_voters d"
    and valid: "valid_snapshot s' (maximum_voters (limits n))"
    and fits: "persistent_state_fits (length (snapshot_voters s')) (drop ?k (log (state n))) (limits n) = kOk"
    by (rule prepare_snapshot_metadata_Inr [OF Inr])
  have st: "state_wf (limits n) ?st"
    by (rule compacted_state_wf [OF node_wfD(5) [OF wf] above below t valid fits])
  have inside: "?i \<le> last_index (state n)" "?i \<le> commit_index (state n)"
    using below node_wfD(5,9) [OF wf] by (auto simp: state_wf_def)
  have derive: "derive_membership (snapshot_voters s') (log ?st) (commit_index ?st) (limits n)
      = Inr (membership_of n)"
    using derive_compacted [of "base_voters n" "take ?k (log (state n))" "drop ?k (log (state n))"]
      d core_wfD [OF node_wfD(1) [OF wf]] inside prefix_through [OF node_wfD(6) [OF wf] above inside(1)]
    by simp
  have core: "core_wf ?n"
    using st derive valid by (intro core_wf_snapshot [OF node_wfD(1) [OF wf]]) simp_all
  have last: "last_index ?st = last_index (state n)"
    by (rule drop_through_last [OF node_wfD(6) [OF wf] above inside(1) refl])
  have "role_wf ?n" "barrier_wf ?n"
    using node_wfD(2,4) [OF wf] last
    by (simp_all add: role_wf_def barrier_wf_def cong: option.case_cong Role.case_cong)
  with core pending have "node_wf ?n"
    by (simp add: node_wf_def pending_wf_def)
  moreover have "committed_stable (state n) ?st"
    using above last node_wfD(6) [OF wf] core_wfD(2) [OF core]
    by (intro committed_stable_drop) simp_all
  ultimately show ?thesis
    using Inr above by (auto simp: compact_snapshot_def operation_ok_def empty_transition_def Let_def)
qed

lemma retained_after_snapshot_wf:
  assumes wf: "state_wf lim st" and above: "snapshot_index st < last_included_index s"
    and valid: "valid_snapshot s (maximum_voters lim)" and t: "last_included_term s \<le> current_term st"
    and agree: "last_included_index s < commit_index st \<longrightarrow>
      term_at st (last_included_index s) = Some (last_included_term s)"
    and fits: "persistent_state_fits (length (snapshot_voters s)) (retained_after_snapshot st s) lim = kOk"
  shows "state_wf lim (st\<lparr>snapshot := s, log := retained_after_snapshot st s,
      commit_index := max (commit_index st) (last_included_index s),
      applied_index := max (applied_index st) (last_included_index s)\<rparr>)" (is "state_wf lim ?st")
proof -
  let ?i = "last_included_index s" and ?r = "retained_after_snapshot st s"
  have log: "log_wf lim st" and contig: "log_contiguous st"
    using wf by (simp_all add: state_wf_def log_wf_def)
  have r: "contiguous ?i ?r \<and> set ?r \<subseteq> set (log st) \<and> length ?r \<le> length (log st) \<and>
      (?i < commit_index st \<longrightarrow> unat ?i + length ?r = unat (last_index st))"
  proof (cases "term_at st ?i = Some (last_included_term s) \<and> ?i < last_index st")
    case True
    then show ?thesis
      using drop_through [OF contig above] by (auto simp: retained_after_snapshot_def dest: in_set_dropD)
  next
    case False
    then have "?r = []" "\<not> ?i < commit_index st"
      using agree state_wfD(3) [OF wf] by (auto simp: retained_after_snapshot_def)
    with valid show ?thesis by (simp add: valid_snapshot_def)
  qed
  have contig': "log_contiguous ?st"
    using r by (simp add: log_contiguous_def)
  have "log_wf lim ?st"
    using log r fits contig' by (auto simp: log_wf_def list_all_iff)
  moreover have "snapshot_wf lim ?st"
    using valid t by (simp add: snapshot_wf_def valid_snapshot_def)
  moreover have "max (commit_index st) ?i \<le> last_index ?st"
  proof -
    have "unat (last_index ?st) = unat ?i + length ?r"
      using last_index_unat [OF contig'] by simp
    with r state_wfD(3) [OF wf] show ?thesis
      by (cases "?i < commit_index st") (auto simp: word_le_nat_alt word_less_nat_alt max_def)
  qed
  ultimately show ?thesis
    using wf by (auto simp: state_wf_def max_def)
qed

lemma retained_after_snapshot_stable:
  assumes wf: "state_wf lim st" and above: "snapshot_index st < last_included_index s"
    and agree: "last_included_index s < commit_index st \<longrightarrow>
      term_at st (last_included_index s) = Some (last_included_term s)"
    and st': "snapshot st' = s" "log st' = retained_after_snapshot st s" "log_contiguous st'"
  shows "committed_stable st st'"
proof (cases "last_included_index s < commit_index st")
  case True
  have contig: "log_contiguous st" and last: "last_included_index s < last_index st"
    using state_wfD [OF wf] True by auto
  have index: "snapshot_index st' = last_included_index s"
    using st'(1) by (simp add: snapshot_index_def)
  have log: "log st' = drop (offset_for st (snapshot_index st') + 1) (log st)"
    using True agree last st'(2) by (simp add: retained_after_snapshot_def index)
  have "unat (last_index st') = unat (last_index st)"
    using drop_through(2) [OF contig above] last last_index_unat [OF st'(3)] by (simp add: log index)
  then show ?thesis
    using contig above st'(3) log by (intro committed_stable_drop) (simp_all add: index word_unat_eq_iff)
next
  case False
  then show ?thesis
    using st'(1) by (auto simp: committed_stable_def snapshot_index_def)
qed

lemma complete_snapshot_install_ok:
  assumes wf: "node_wf n"
  shows "operation_ok n (complete_snapshot_install fault n source s installed)"
proof (cases "pending_snapshot n")
  case None
  then show ?thesis by (simp add: complete_snapshot_install_def)
next
  case (Some m)
  let ?st = "state n" and ?i = "last_included_index s"
  have m: "snapshot_index ?st < last_included_index (is_snapshot m)"
    "valid_snapshot (is_snapshot m) (maximum_voters (limits n))"
    "last_included_term (is_snapshot m) \<le> is_term m"
    "role n \<noteq> kFollower \<longrightarrow> is_term m < current_term ?st"
    using node_wfD(3) [OF wf] Some by (simp_all add: pending_wf_def)
  have dismissed: "operation_ok n (n\<lparr>pending_snapshot := None\<rparr>, Inr (empty_transition\<lparr>outbound := out\<rparr>))"
    for out
    using wf by (simp add: operation_ok_def node_wf_def pending_wf_def empty_transition_def
        committed_stable_same)
  let ?r = "retained_after_snapshot ?st s"
  let ?st' = "?st\<lparr>snapshot := s, log := ?r, commit_index := max (commit_index ?st) ?i,
      applied_index := max (applied_index ?st) ?i\<rparr>"
  have installed: "operation_ok n
      (n\<lparr>pending_snapshot := None, state := ?st', base_voters := snapshot_voters s,
         committed_voters := dm_committed_voters d, voters := dm_active_voters d, joint := dm_joint d\<rparr>,
       Inr (empty_transition\<lparr>persistent_state := Some ?st',
         advanced_commit_index := Some (max (commit_index ?st) ?i), outbound := out\<rparr>))"
    (is "operation_ok n (?n, _)")
    if s: "s = is_snapshot m" "is_term m = current_term ?st"
      and agree: "?i < commit_index ?st \<longrightarrow> term_at ?st ?i = Some (last_included_term s)"
      and d: "derive_membership (snapshot_voters s) ?r (max (commit_index ?st) ?i) (limits n) = Inr d"
      and fits: "persistent_state_fits (length (snapshot_voters s)) ?r (limits n) = kOk" for d out
  proof -
    have st: "state_wf (limits n) ?st'"
      using m s agree fits by (intro retained_after_snapshot_wf [OF node_wfD(5) [OF wf]]) simp_all
    have "core_wf ?n"
      using m(2) s(1) st d
      by (intro core_wf_snapshot [OF node_wfD(1) [OF wf]]) (simp_all add: membership_of_def)
    moreover have "role n = kFollower"
      using m(4) s(2) by auto
    ultimately have "node_wf ?n"
      using node_wfD(2,4) [OF wf]
      by (simp add: node_wf_def role_wf_def pending_wf_def barrier_wf_def split: option.splits)
    moreover have "committed_stable ?st ?st'"
      using m(1) s(1) agree state_wfD(1) [OF st]
      by (intro retained_after_snapshot_stable [OF node_wfD(5) [OF wf], of s]) simp_all
    ultimately show ?thesis
      using m(1) s(1) by (simp add: operation_ok_def empty_transition_def)
  qed
  show ?thesis
    using Some dismissed installed
    by (auto simp: complete_snapshot_install_def Let_def split: sum.splits)
qed

end
