(* ===== verification/Raft_Append.thy ===== *)
theory Raft_Append
  imports Raft_Local_Invariant
begin


text \<open>
  The log merge of an append request. A request that passes the checks of \<^verbatim>\<open>validate_message\<close>
  carries a contiguous run of valid entries; the scan for the first conflict then determines the
  merged log completely: the local log up to the conflict followed by the rest of the request.
\<close>

section \<open>Definitions\<close>

text \<open>Where the scan stops: at a position whose entry lies above the commit index and at most one
  above the end of the log.\<close>

definition conflict_at :: "PersistentState \<Rightarrow> LogIndex \<Rightarrow> bool" where
  "conflict_at st i = (snapshot_index st < i \<and> commit_index st < i \<and> unat i \<le> unat (last_index st) + 1)"

text \<open>What the validation of an append request promises when it prepares a log: the log is well
  formed for the term of the request, it keeps the committed prefix, and the commit index only
  grows and stays within the log.\<close>

definition append_valid :: "RaftNode \<Rightarrow> AppendEntriesRequest \<Rightarrow> ValidatedAppend \<Rightarrow> bool" where
  "append_valid n m v =
     (let st = state n; st' = st\<lparr>current_term := ae_term m, log := validated_append_log v\<rparr> in
      log_wf (limits n) st' \<and> committed_stable st st' \<and>
      commit_index st \<le> validated_append_commit v \<and> validated_append_commit v \<le> last_index st' \<and>
      derive_membership (base_voters n) (validated_append_log v) (validated_append_commit v) (limits n)
        = Inr (validated_membership v))"

section \<open>Finding an entry by its index\<close>

lemma find_entry:
  assumes "log_contiguous st"
  shows "find (\<lambda>l. entry_index l = i) (log st) = entry_at st i"
proof (cases "entry_at st i")
  case None
  have "entry_index (log st ! k) \<noteq> i" if "k < length (log st)" for k
    using None entry_index_range [OF assms that] by (auto simp: entry_at_def)
  then show ?thesis
    using None by (auto simp: find_None_iff in_set_conv_nth)
next
  case (Some e)
  then obtain k where k: "k < length (log st)" "unat i = unat (snapshot_index st) + k + 1" "log st ! k = e"
    using entry_at_nth [OF assms] by auto
  have "entry_index (log st ! j) = i \<longleftrightarrow> j = k" if "j < length (log st)" for j
    using contiguous_nth [of "snapshot_index st" "log st" j] assms k(2) that
    by (simp add: log_contiguous_def word_unat_eq_iff)
  then show ?thesis
    unfolding Some find_Some_iff using k by (intro exI [of _ k]) auto
qed

lemma takeWhile_before:
  assumes "log_contiguous st" and "entry_at st i = Some e"
  shows "takeWhile (\<lambda>l. entry_index l \<noteq> i) (log st) = take (offset_for st i) (log st)"
proof (rule takeWhile_eq_take_P_nth)
  have i: "snapshot_index st < i" "i \<le> last_index st"
    using assms(2) by (auto simp: entry_at_def split: if_splits)
  show "entry_index (log st ! k) \<noteq> i" if "k < offset_for st i" "k < length (log st)" for k
    using offset_of_entry [OF assms(1) that(2)] that(1) by auto
  show "\<not> entry_index (log st ! offset_for st i) \<noteq> i"
    using entry_at_offset [OF assms(1) i] by simp
qed

lemma merge_entry_cases:
  assumes "log_contiguous st"
  shows "merge_entry (log st) e =
    (case entry_at st (entry_index e) of
       None \<Rightarrow> log st @ [e]
     | Some l \<Rightarrow> if entry_term l = entry_term e then log st
               else take (offset_for st (entry_index e)) (log st) @ [e])"
proof (cases "entry_at st (entry_index e)")
  case None
  then show ?thesis
    by (simp add: merge_entry_def Let_def find_entry [OF assms])
next
  case (Some l)
  have "find (\<lambda>l. entry_index l = entry_index e)
      (takeWhile (\<lambda>l. entry_index l \<noteq> entry_index e) (log st)) = None"
    by (auto simp: find_None_iff dest: set_takeWhileD)
  with Some takeWhile_before [OF assms Some] show ?thesis
    by (simp add: merge_entry_def Let_def find_entry [OF assms])
qed

section \<open>Checked entries\<close>

lemma checked_entries:
  "check_append_entries p t lim es = kOk \<Longrightarrow> p \<noteq> - 1 \<Longrightarrow>
   contiguous p es \<and> list_all (valid_entry lim t) es"
  by (induction p t lim es rule: check_append_entries.induct)
    (auto simp: contiguous_Cons valid_entry_def split: if_splits)

lemma merge_fresh: "contiguous base (xs @ es) \<Longrightarrow> merge_entries xs es = xs @ es"
proof (induction es arbitrary: xs)
  case (Cons e es)
  have "contiguous base (xs @ [e])"
    using Cons.prems contiguous_append [of base "xs @ [e]" es] by simp
  then have "contiguous base xs" "unat (entry_index e) = unat base + length xs + 1"
    by (simp_all add: contiguous_snoc)
  then have "find (\<lambda>l. entry_index l = entry_index e) xs = None"
    using contiguous_in_set [of base xs] by (fastforce simp: find_None_iff)
  then have "merge_entry xs e = xs @ [e]"
    by (simp add: merge_entry_def Let_def)
  with Cons.IH [of "xs @ [e]"] Cons.prems show ?case
    by (simp add: merge_entries_def)
qed (simp add: merge_entries_def)

section \<open>The merged log\<close>

lemma contiguous_splice:
  assumes "log_contiguous st" and "contiguous p es" and "unat p = unat (snapshot_index st) + k"
    and "k \<le> length (log st)"
  shows "contiguous (snapshot_index st) (take k (log st) @ es)"
  using assms by (auto simp: log_contiguous_def contiguous_def nth_append)

lemma merge_scan:
  assumes st: "log_contiguous st" "snapshot_index st \<le> commit_index st" "commit_index st \<le> last_index st"
    and "contiguous p es" "snapshot_index st \<le> p" "p \<le> last_index st"
    and "find_first_conflict st j es = Inr r"
  shows "(r = None \<longrightarrow> merge_entries (log st) es = log st) \<and>
    (\<forall>i. r = Some i \<longrightarrow> j \<le> i \<and> i - j < length es \<and> conflict_at st (entry_index (es ! (i - j))) \<and>
       merge_entries (log st) es =
         take (offset_for st (entry_index (es ! (i - j)))) (log st) @ drop (i - j) es)"
  using assms(4-7)
proof (induction es arbitrary: p j)
  case (Cons e es)
  let ?i = "entry_index e"
  have e: "?i = p + 1" "p \<noteq> - 1" "contiguous (p + 1) es"
    using Cons.prems(1) by (auto simp: contiguous_Cons)
  have above: "p < ?i" "snapshot_index st < ?i" "unat ?i = unat p + 1"
    using e Cons.prems(2) by (auto simp: unat_Suc_word word_less_nat_alt word_le_nat_alt)
  show ?case
  proof (cases "term_at st ?i = Some (entry_term e)")
    case True
    then have in_range: "?i \<le> last_index st" "entry_at st ?i = Some (log st ! offset_for st ?i)"
      "log st ! offset_for st ?i = e"
      using above Cons.prems(4) by (auto simp: term_at_above [OF st(1)] entry_at_def Let_def split: if_splits)
    then have "merge_entry (log st) e = log st"
      by (simp add: merge_entry_cases [OF st(1)])
    moreover have "find_first_conflict st (Suc j) es = Inr r"
      using Cons.prems(4) True in_range by (simp add: Let_def)
    ultimately show ?thesis
      using Cons.IH [of "p + 1" "Suc j"] e in_range(1) above Cons.prems(2)
      by (auto simp: merge_entries_def Suc_diff_le Suc_le_eq less_imp_le nth_Cons' drop_Cons')
  next
    case False
    then have r: "r = Some j" and none: "term_at st ?i = None \<or> commit_index st < ?i"
      using Cons.prems(4) by (auto simp: Let_def split: if_splits)
    have conflict: "conflict_at st ?i"
      using none above st(2,3) Cons.prems(3)
      by (auto simp: conflict_at_def term_at_above [OF st(1)] word_le_nat_alt word_less_nat_alt split: if_splits)
    have "merge_entry (log st) e = take (offset_for st ?i) (log st) @ [e]"
      using False above Cons.prems(3) last_index_unat [OF st(1)] offset_for_exact [OF above(2)]
      by (auto simp: merge_entry_cases [OF st(1)] entry_at_def term_at_above [OF st(1)] word_le_nat_alt)
    moreover have "contiguous (snapshot_index st) ((take (offset_for st ?i) (log st) @ [e]) @ es)"
      using contiguous_splice [OF st(1) Cons.prems(1), of "offset_for st ?i"] above(3) Cons.prems(3)
        offset_for_exact [OF above(2)] last_index_unat [OF st(1)]
      by (simp add: word_le_nat_alt)
    ultimately show ?thesis
      using r conflict merge_fresh [of "snapshot_index st" "take (offset_for st ?i) (log st) @ [e]" es]
      by (simp add: merge_entries_def)
  qed
qed (simp add: merge_entries_def)

lemma predecessor_range:
  assumes "predecessor_matches st m" and "log_contiguous st"
  shows "snapshot_index st \<le> previous_log_index m" and "previous_log_index m \<le> last_index st"
  using assms last_index_bound [OF assms(2)]
  by (auto simp: predecessor_matches_def append_predecessor_term_def term_at_def not_less split: if_splits)

lemma merged_log_wf:
  assumes wf: "state_wf (limits n) st" and cur: "current_term st \<le> t"
    and es: "contiguous p es" "list_all (valid_entry (limits n) t) es" "snapshot_index st \<le> p" "p \<le> last_index st"
    and scan: "find_first_conflict st 0 es = Inr r"
    and room: "\<And>i. r = Some i \<Longrightarrow> append_capacity_ok (n\<lparr>state := st\<rparr>) es i"
    and fits: "persistent_state_fits (length (snapshot_voters (snapshot st))) (merge_entries (log st) es) (limits n) = kOk"
  shows "log_wf (limits n) (st\<lparr>current_term := t, log := merge_entries (log st) es\<rparr>)"
    and "committed_stable st (st\<lparr>current_term := t, log := merge_entries (log st) es\<rparr>)"
    and "commit_index st \<le> last_index (st\<lparr>current_term := t, log := merge_entries (log st) es\<rparr>)"
proof -
  note st = state_wfD [OF wf]
  let ?st' = "st\<lparr>current_term := t, log := merge_entries (log st) es\<rparr>"
  have old: "list_all (valid_entry (limits n) t) (log st)" "length (log st) \<le> maximum_log_entries (limits n)"
    using wf cur by (auto simp: state_wf_def log_wf_def intro: valid_entries_mono)
  note scan' = merge_scan [OF st(1-3) es(1,3,4) scan]
  have "log_wf (limits n) ?st' \<and> committed_stable st ?st' \<and> commit_index st \<le> last_index ?st'"
  proof (cases r)
    case None
    with scan' have same: "merge_entries (log st) es = log st" by simp
    have "last_index (st\<lparr>current_term := t, log := log st\<rparr>) = last_index st"
      by (simp add: last_index_def)
    then show ?thesis
      using old st fits unfolding same
      by (auto simp: log_wf_def log_contiguous_def intro: committed_stable_same)
  next
    case (Some i)
    let ?i = "entry_index (es ! i)" and ?k = "offset_for st (entry_index (es ! i))"
    from scan' Some have i: "i < length es" "conflict_at st ?i"
      and merged: "merge_entries (log st) es = take ?k (log st) @ drop i es"
      by auto
    have idx: "unat ?i = unat (snapshot_index st) + ?k + 1" "?k \<le> length (log st)"
      "unat (commit_index st) \<le> unat (snapshot_index st) + ?k"
      using i(2) offset_for_exact [of st ?i] last_index_unat [OF st(1)]
      by (auto simp: conflict_at_def word_less_nat_alt)
    have off: "unat ?i = unat p + i + 1"
      using contiguous_nth [OF es(1) i(1)] .
    have "unat (p + of_nat i) = unat p + i"
      using contiguous_bound [OF es(1)] i(1) by (simp add: unat_word_ariths unat_of_nat_small)
    then have contig: "log_contiguous ?st'"
      using contiguous_splice [OF st(1) contiguous_drop [OF es(1), of i], of ?k] idx(1,2) off i(1)
      by (simp add: log_contiguous_def merged)
    have "(if ?i \<le> last_index st then ?k else length (log st)) = ?k"
      using idx(1,2) last_index_unat [OF st(1)] by (auto simp: word_le_nat_alt)
    then have "length (merge_entries (log st) es) \<le> maximum_log_entries (limits n)"
      using room [OF Some] idx(2) i(1) by (simp add: append_capacity_ok_def Let_def merged)
    then have "log_wf (limits n) ?st'"
      using contig fits old(1) es(2) by (auto simp: log_wf_def merged list_all_iff dest: in_set_takeD in_set_dropD)
    moreover have "committed_stable st ?st'"
      using idx by (intro committed_stable_prefix [OF st(1) contig, of ?k]) (simp_all add: merged)
    moreover have "commit_index st \<le> last_index ?st'"
      using last_index_unat [OF contig] idx i(1) by (simp add: merged word_le_nat_alt)
    ultimately show ?thesis by simp
  qed
  then show "log_wf (limits n) ?st'" "committed_stable st ?st'" "commit_index st \<le> last_index ?st'"
    by simp_all
qed

lemma validated_append:
  assumes wf: "node_wf n" and v: "validate_append_entries n active source m = Inr r"
  shows "r = Some v \<Longrightarrow> append_valid n m v"
    and "current_term (state n) \<le> ae_term m \<Longrightarrow> predecessor_matches (state n) m \<Longrightarrow> r \<noteq> None"
proof -
  have chk: "check_append_entries (previous_log_index m) (ae_term m) (limits n) (ae_entries m) = kOk"
    "previous_log_index m \<noteq> - 1"
    using v by (auto simp: validate_append_entries_def Let_def split: if_splits)
  note es = checked_entries [OF chk]
  show "append_valid n m v" if r: "r = Some v"
  proof -
    have cur: "current_term (state n) \<le> ae_term m" and pre: "predecessor_matches (state n) m"
      and suffix: "validate_append_suffix n active source m = Inr (Some v)"
      using v r by (auto simp: validate_append_entries_def Let_def not_less split: if_splits)
    obtain c where scan: "find_first_conflict (state n) 0 (ae_entries m) = Inr c"
      using suffix by (auto simp: validate_append_suffix_def Let_def split: sum.splits)
    have room: "append_capacity_ok n (ae_entries m) i" if "c = Some i" for i
      using suffix scan that by (auto simp: validate_append_suffix_def Let_def split: if_splits)
    have fits: "persistent_state_fits (length (snapshot_voters (snapshot (state n))))
        (merge_entries (log (state n)) (ae_entries m)) (limits n) = kOk"
      using suffix scan by (auto simp: validate_append_suffix_def Let_def split: if_splits sum.splits)
    note merged = merged_log_wf [OF node_wfD(5) [OF wf] cur conjunct1 [OF es] conjunct2 [OF es]
        predecessor_range [OF pre node_wfD(6) [OF wf]] scan _ fits]
    have "append_capacity_ok (n\<lparr>state := state n\<rparr>) (ae_entries m) i" if "c = Some i" for i
      using room [OF that] by simp
    note merged = merged [OF this]
    show ?thesis
      using suffix scan merged
      by (auto simp: validate_append_suffix_def append_valid_def Let_def last_index_def snapshot_index_def
          split: if_splits sum.splits)
  qed
  show "r \<noteq> None" if "current_term (state n) \<le> ae_term m" "predecessor_matches (state n) m"
    using v that by (auto simp: validate_append_entries_def validate_append_suffix_def Let_def
        split: if_splits sum.splits)
qed

end
