(* ===== verification/Raft_Receive_Invariant.thy ===== *)
theory Raft_Receive_Invariant
  imports Raft_Append
begin

text \<open>
  Every message, from any source and with any content, keeps the invariant of the node: each of the
  eight kinds is followed through validation, preparation and application.
\<close>

section \<open>Outcomes\<close>

lemma operation_ok_volatile:
  assumes "node_wf n'" and "state n' = state n" and "node_id n' = node_id n" and "limits n' = limits n"
    and "persistent_state tr = None" and "advanced_commit_index tr = None"
  shows "operation_ok n (n', Inr tr)"
  using assms by (simp add: operation_ok_def committed_stable_same)

lemma operation_ok_observe:
  assumes "node_wf n" and "current_term (state n) < t"
    and "persistent_state tr = Some (observe_term (state n) t)" and "advanced_commit_index tr = None"
  shows "operation_ok n (become_follower n t l, Inr tr)"
  using assms become_follower_wf [of n t l] node_wfD [OF assms(1)]
  by (auto simp: operation_ok_def observe_term_def committed_stable_same)

lemma become_follower_again:
  "become_follower (become_follower n t l) t l' = become_follower n t l'"
  by (simp add: become_follower_def)

lemma core_wf_follower_state [simp]:
  "core_wf (become_follower n t l\<lparr>state := st\<rparr>) = core_wf (n\<lparr>state := st\<rparr>)"
  by (simp add: core_wf_def)

lemma become_follower_over:
  "become_follower (become_follower n t' l'\<lparr>state := st\<rparr>) t l = become_follower (n\<lparr>state := st\<rparr>) t l"
  by (simp add: become_follower_def)

lemma observe_follower:
  "current_term (state n) < t \<Longrightarrow>
   become_follower (become_follower n t l\<lparr>state := observe_term (state n) t\<rparr>) t l' = become_follower n t l'"
  by (simp add: become_follower_def observe_term_def)

lemma empty_transition_simps [simp]:
  "persistent_state empty_transition = None"
  "outbound empty_transition = []"
  "advanced_commit_index empty_transition = None"
  "snapshot_install empty_transition = None"
  "read_barrier_ready empty_transition = None"
  by (simp_all add: empty_transition_def)

lemma nothing_prepared_simps [simp]:
  "transition nothing_prepared = empty_transition"
  "prepared_vote_granted nothing_prepared = False"
  "prepared_vote_response nothing_prepared = False"
  "prepared_append_response nothing_prepared = False"
  "prepared_append_commit nothing_prepared = False"
  "prepared_append_step_down nothing_prepared = False"
  "prepared_snapshot_response nothing_prepared = False"
  "prepared_append_request nothing_prepared = False"
  "prepared_append_request_accepted nothing_prepared = False"
  "prepared_append_request_persistence nothing_prepared = False"
  "prepared_install_request nothing_prepared = False"
  "prepared_install_request_new nothing_prepared = False"
  "prepared_install_request_persistence nothing_prepared = False"
  by (simp_all add: nothing_prepared_def)

lemma applied_simps [simp]:
  "ap_status (applied n c tr) = kOk" "ap_node (applied n c tr) = n"
  "persistence_changed (applied n c tr) = c" "ap_transition (applied n c tr) = tr"
  "ap_status (apply_failed e n c tr) = e" "ap_node (apply_failed e n c tr) = n"
  by (simp_all add: applied_def apply_failed_def)

section \<open>Votes\<close>

lemma vote_transition [simp]:
  "persistent_state (transition (prepare_request_vote n source m)) = None"
  "advanced_commit_index (transition (prepare_request_vote n source m)) = None"
  "prepared_vote_granted (prepare_vote_response n source r) = False"
  "persistent_state (transition (prepare_vote_response n source r)) = None"
  "advanced_commit_index (transition (prepare_vote_response n source r)) = None"
  by (simp_all add: prepare_request_vote_def prepare_vote_response_def Let_def)

lemma request_vote_ok:
  assumes wf: "node_wf n" and source: "source \<noteq> 0" "source \<noteq> node_id n" and t: "rv_term m \<noteq> 0"
  shows "operation_ok n (commit_message fault n source (RequestVote m) v
    (prepare_persistence n source (RequestVote m) (prepare_request_vote n source m)))"
proof (cases "prepared_vote_granted (prepare_request_vote n source m)")
  case True
  then have cur: "rv_term m = max (current_term (state n)) (rv_term m)"
    and vote: "rv_term m > current_term (state n) \<or> voted_for (state n) \<in> {None, Some source}"
    by (auto simp: prepare_request_vote_def Let_def split: if_splits)
  let ?newer = "current_term (state n) < rv_term m"
  define n' where "n' = (if ?newer then become_follower n (rv_term m) None else n)
    \<lparr>state := (state n)\<lparr>current_term := rv_term m, voted_for := Some source\<rparr>, role := kFollower,
     leader_id := None\<rparr>"
  have grows: "current_term (state n) \<le> rv_term m" "\<not> ?newer \<Longrightarrow> rv_term m = current_term (state n)"
    using cur by (auto simp: max_def split: if_splits)
  obtain tr where run: "commit_message fault n source (RequestVote m) v
      (prepare_persistence n source (RequestVote m) (prepare_request_vote n source m)) = (n', Inr tr)"
    and tr: "persistent_state tr = Some (state n')" "advanced_commit_index tr = None"
    using True grows(2)
    by (cases ?newer) (simp_all add: commit_message_def apply_message_def apply_request_vote_def
        Let_def prepare_persistence_def n'_def observe_term_def)
  have quiet: "role n = kFollower" if "\<not> ?newer"
    using that vote source(2) node_wfD(2) [OF wf] by (cases "role n") (auto simp: role_wf_def)
  have "core_wf n'"
    using core_wf_new_term [OF node_wfD(1) [OF wf] grows(1) t, of "Some source"] source(1)
    by (simp add: n'_def)
  moreover have "role_wf n'" "pending_wf n'" "barrier_wf n'"
    using quiet node_wfD(2-4) [OF wf] grows(1) pending_wf_follower [OF node_wfD(3) [OF wf], of n']
    by (auto simp: n'_def role_wf_def barrier_wf_def split: option.splits)
  ultimately have "node_wf n'"
    by (simp add: node_wf_def)
  then show ?thesis
    using grows vote tr by (auto simp: run operation_ok_def n'_def committed_stable_same)
next
  case False
  show ?thesis
  proof (cases "current_term (state n) < rv_term m")
    case True
    with False wf show ?thesis
      by (simp add: commit_message_def apply_message_def apply_request_vote_def Let_def
          prepare_persistence_def operation_ok_observe)
  next
    case not_newer: False
    with False wf show ?thesis
      by (simp add: commit_message_def apply_message_def apply_request_vote_def Let_def
          prepare_persistence_def operation_ok_volatile)
  qed
qed

lemma vote_response_ok:
  assumes wf: "node_wf n"
  shows "operation_ok n (commit_message fault n source (RequestVoteReply m) v
    (prepare_persistence n source (RequestVoteReply m) (prepare_vote_response n source m)))"
proof (cases "current_term (state n) < rvr_term m")
  case True
  with wf show ?thesis
    by (simp add: commit_message_def apply_message_def apply_vote_response_def Let_def
        prepare_persistence_def operation_ok_observe)
next
  case False
  show ?thesis
  proof (cases "rvr_term m = current_term (state n) \<and> role n = kCandidate \<and> granted m")
    case True
    let ?votes = "insert source (votes n)"
    define n' where "n' = (if configuration_quorum n (\<lambda>node. node \<in> ?votes)
      then n\<lparr>votes := ?votes, role := kLeader, leader_id := Some (node_id n),
             next_index := leader_next_index (voters n) (last_index (state n)) Map.empty,
             match_index := leader_match_index (node_id n) (voters n) (last_index (state n)) Map.empty,
             pending_read_barrier := None\<rparr>
      else n\<lparr>votes := ?votes\<rparr>)"
    have run: "apply_vote_response n m (prepare_vote_response n source m) False
        = applied n' False (transition (prepare_vote_response n source m))"
      using True by (simp add: apply_vote_response_def prepare_vote_response_def n'_def Let_def)
    have "core_wf n'" "barrier_wf n'" "pending_wf n'"
      using True node_wfD [OF wf]
      by (auto simp: n'_def barrier_wf_def pending_wf_def split: option.splits)
    moreover have "role_wf n'"
      using True node_wfD(2) [OF wf] leader_progress [OF node_wfD(7) [OF wf], of "voters n" "node_id n"]
      by (simp add: n'_def role_wf_def)
    ultimately have "node_wf n'"
      by (simp add: node_wf_def)
    moreover have "state n' = state n" "node_id n' = node_id n" "limits n' = limits n"
      by (simp_all add: n'_def)
    ultimately show ?thesis
      using True by (simp add: commit_message_def apply_message_def Let_def operation_ok_volatile
          prepare_persistence_def run)
  next
    case no_vote: False
    with False wf show ?thesis
      by (auto simp: commit_message_def apply_message_def apply_vote_response_def Let_def
          prepare_persistence_def operation_ok_volatile)
  qed
qed

section \<open>Snapshots\<close>

lemma progress_matched:
  assumes "progress_wf l vs nxt mtch" and "mtch k = Some matched" and "x \<le> l" and "l \<noteq> - 1"
  shows "progress_wf l vs (nxt(k \<mapsto> max matched x + 1)) (mtch(k \<mapsto> max matched x))"
proof (rule progress_wf_update [OF assms(1)])
  show "k \<in> set vs" "max matched x \<le> l"
    using assms by (auto simp: progress_wf_def max_def)
  then have "max matched x \<noteq> - 1"
    using assms(4) by (metis word_order.extremum_unique)
  then show "1 \<le> max matched x + 1" "max matched x + 1 \<le> l + 1"
    using \<open>max matched x \<le> l\<close> assms(4) by (simp_all add: word_le_nat_alt unat_Suc_word)
qed

lemma install_request_ok:
  assumes wf: "node_wf n" and t: "is_term m \<noteq> 0" and valid: "validate_install_snapshot n source m = kOk"
  shows "operation_ok n (commit_message fault n source (InstallSnapshot m) v (prepare_install_request n source m))"
proof (cases "is_term m < current_term (state n)")
  case True
  with wf show ?thesis
    by (simp add: commit_message_def apply_message_def apply_install_request_def Let_def
        prepare_install_request_def operation_ok_volatile)
next
  case False
  let ?newer = "current_term (state n) < is_term m"
  let ?new = "snapshot_index (state n) < last_included_index (is_snapshot m) \<and> pending_snapshot n = None"
  define n' where "n' = become_follower n (is_term m) (Some source)
    \<lparr>pending_snapshot := if ?new then Some m else pending_snapshot n\<rparr>"
  have base: "node_wf (become_follower n (is_term m) (Some source))"
    using node_wfD [OF wf] by (simp add: become_follower_wf)
  have "pending_wf n'"
    using node_wfD(3) [OF base] valid False
    by (auto simp: n'_def pending_wf_def validate_install_snapshot_def split: if_splits option.splits)
  then have wf': "node_wf n'"
    using base by (simp add: n'_def node_wf_def)
  let ?p = "prepare_install_request n source m"
  have prep: "prepared_install_request ?p" "prepared_install_request_persistence ?p = ?newer"
    "?newer \<Longrightarrow> prepared_install_request_state ?p = Some (observe_term (state n) (is_term m))"
    "persistent_state (transition ?p) = (if ?newer then Some (observe_term (state n) (is_term m)) else None)"
    "advanced_commit_index (transition ?p) = None"
    "prepared_install_request_new ?p = ?new" "?new \<Longrightarrow> prepared_pending_snapshot ?p = Some m"
    using False by (auto simp: prepare_install_request_def Let_def split: option.split)
  then have "commit_message fault n source (InstallSnapshot m) v ?p = (n', Inr (transition ?p))"
    using False by (cases ?newer) (simp_all add: commit_message_def apply_message_def apply_install_request_def
        Let_def move_state_def observe_follower n'_def)
  with wf' prep(4,5) False show ?thesis
    by (cases ?newer) (auto simp: operation_ok_def n'_def committed_stable_same observe_term_def)
qed

lemma snapshot_response_ok:
  assumes wf: "node_wf n" and valid: "validate_snapshot_response n m = kOk"
    and p: "prepare_snapshot_response n source m = Inr p"
  shows "operation_ok n (commit_message fault n source (InstallSnapshotReply m) v
    (prepare_persistence n source (InstallSnapshotReply m) p))"
proof (cases "isr_term m = current_term (state n) \<and> role n = kLeader")
  case True
  from p True obtain matched x where mtch: "match_index n source = Some matched" "next_index n source = Some x"
    by (auto simp: prepare_snapshot_response_def split: option.splits)
  note prog = leader_progress_wf [OF wf conjunct2 [OF True]]
  let ?new = "max matched (isr_last_included_index m)"
  have "isr_success m \<Longrightarrow> progress_wf (last_index (state n)) (voters n)
      ((next_index n)(source \<mapsto> ?new + 1)) ((match_index n)(source \<mapsto> ?new))"
    using progress_matched [OF conjunct1 [OF prog] mtch(1), of "isr_last_included_index m"] valid node_wfD(7) [OF wf]
    by (auto simp: validate_snapshot_response_def split: if_splits)
  then have "isr_success m \<Longrightarrow> node_wf (n\<lparr>next_index := (next_index n)(source \<mapsto> ?new + 1),
      match_index := (match_index n)(source \<mapsto> ?new)\<rparr>)"
    using wf True prog by (simp add: node_wf_def role_wf_def pending_wf_def barrier_wf_def cong: option.case_cong)
  then show ?thesis
    using p True mtch wf
    by (auto simp: commit_message_def apply_message_def apply_snapshot_response_def Let_def
        prepare_snapshot_response_def prepare_persistence_def
        split: option.splits intro!: operation_ok_volatile)
next
  case False
  then have p: "p = nothing_prepared"
    using p by (auto simp: prepare_snapshot_response_def)
  show ?thesis
    using False wf by (cases "current_term (state n) < isr_term m")
      (auto simp: p commit_message_def apply_message_def apply_snapshot_response_def Let_def
        prepare_persistence_def intro!: operation_ok_volatile operation_ok_observe)
qed

section \<open>Read barriers\<close>

lemma barrier_probe_ok:
  assumes wf: "node_wf n"
  shows "operation_ok n (commit_message fault n source (ReadBarrierProbe m) v
    (prepare_persistence n source (ReadBarrierProbe m) nothing_prepared))"
proof (cases "current_term (state n) < rb_term m")
  case True
  with wf show ?thesis
    by (simp add: commit_message_def apply_message_def apply_barrier_probe_def Let_def
        prepare_persistence_def become_follower_again operation_ok_observe)
next
  case False
  have "node_wf (become_follower n (rb_term m) (Some source))"
    using node_wfD [OF wf] by (simp add: become_follower_wf)
  with wf False show ?thesis
    by (auto simp: commit_message_def apply_message_def apply_barrier_probe_def Let_def
        prepare_persistence_def operation_ok_volatile)
qed

lemma barrier_response_ok:
  assumes wf: "node_wf n"
  shows "operation_ok n (commit_message fault n source (ReadBarrierReply m) v
    (prepare_persistence n source (ReadBarrierReply m) nothing_prepared))"
proof (cases "current_term (state n) < rbr_term m")
  case True
  with wf show ?thesis
    by (auto simp: commit_message_def apply_message_def apply_barrier_response_def Let_def
        prepare_persistence_def operation_ok_observe)
next
  case False
  show ?thesis
  proof (cases "pending_read_barrier n")
    case None
    with wf False show ?thesis
      by (simp add: commit_message_def apply_message_def apply_barrier_response_def Let_def
          prepare_persistence_def operation_ok_volatile)
  next
    case (Some b)
    let ?b = "b\<lparr>acknowledgements := insert source (acknowledgements b)\<rparr>"
    have "node_wf (n\<lparr>pending_read_barrier := Some ?b\<rparr>)" "node_wf (n\<lparr>pending_read_barrier := None\<rparr>)"
      using wf Some by (simp_all add: node_wf_def barrier_wf_def)
    with wf False Some show ?thesis
      by (auto simp: commit_message_def apply_message_def apply_barrier_response_def
          Let_def finish_read_barrier_def prepare_persistence_def operation_ok_volatile)
  qed
qed

section \<open>Append requests\<close>

lemma append_rejected_ok:
  assumes wf: "node_wf n" and ge: "\<not> ae_term m < current_term (state n)"
    and reject: "\<not> predecessor_matches (state n) m"
    and p: "prepare_append_request n source m v = Inr p"
  shows "operation_ok n (commit_message fault n source (AppendEntries m) v p)"
proof -
  let ?newer = "current_term (state n) < ae_term m"
  define n' where "n' = become_follower n (ae_term m) (Some source)"
  have prep: "prepared_append_request p" "\<not> prepared_append_request_accepted p"
    "prepared_append_request_persistence p = ?newer"
    "?newer \<Longrightarrow> prepared_append_request_state p = Some (observe_term (state n) (ae_term m))"
    "persistent_state (transition p) = (if ?newer then Some (observe_term (state n) (ae_term m)) else None)"
    "advanced_commit_index (transition p) = None"
    using p ge reject by (cases ?newer; simp add: prepare_append_request_def Let_def; auto)+
  then have run: "commit_message fault n source (AppendEntries m) v p = (n', Inr (transition p))"
    using ge by (cases ?newer) (simp_all add: commit_message_def apply_message_def apply_append_request_def
        Let_def n'_def move_state_def observe_follower)
  show ?thesis
  proof (cases ?newer)
    case True
    with wf prep show ?thesis
      unfolding run n'_def by (intro operation_ok_observe) simp_all
  next
    case False
    have "node_wf n'"
      using node_wfD [OF wf] by (simp add: n'_def become_follower_wf)
    with False prep show ?thesis
      unfolding run by (intro operation_ok_volatile) (simp_all add: n'_def)
  qed
qed

lemma state_cong:
  assumes "log st' = log st" and "snapshot st' = snapshot st"
  shows "current_term st' = current_term st \<Longrightarrow> log_wf lim st' = log_wf lim st"
    and "current_term st' = current_term st \<Longrightarrow> snapshot_wf lim st' = snapshot_wf lim st"
    and "last_index st' = last_index st" and "snapshot_index st' = snapshot_index st"
    and "committed_stable st0 st' = committed_stable st0 st"
  using assms entry_at_same [OF assms(2,1)]
  by (simp_all add: log_wf_def log_contiguous_def snapshot_index_def snapshot_wf_def last_index_def
      committed_stable_def)

lemma accepted_node_wf:
  assumes wf: "node_wf n" and ge: "current_term (state n) \<le> ae_term m" and t: "ae_term m \<noteq> 0"
    and va: "append_valid n m va"
    and st': "st' = (state n)\<lparr>current_term := ae_term m,
      voted_for := if current_term (state n) < ae_term m then None else voted_for (state n),
      log := validated_append_log va, commit_index := validated_append_commit va\<rparr>"
  shows "node_wf (install_membership (become_follower (n\<lparr>state := st'\<rparr>) (ae_term m) l) (validated_membership va))"
    (is "node_wf ?n'")
proof -
  have same: "state ?n' = st'"
    by (simp add: st')
  let ?st = "(state n)\<lparr>current_term := ae_term m, log := validated_append_log va\<rparr>"
  have "log_wf (limits n) ?st" "snapshot_wf (limits n) ?st" "validated_append_commit va \<le> last_index ?st"
    using va node_wfD(5) [OF wf] snapshot_wf_term [OF _ ge, of "limits n"]
    by (simp_all add: state_wf_def append_valid_def Let_def)
  then have "log_wf (limits n) st'" "snapshot_wf (limits n) st'" "commit_index st' \<le> last_index st'"
    using state_cong [of st' ?st] by (simp_all add: st')
  moreover have "commit_index (state n) \<le> commit_index st'" "snapshot_index st' = snapshot_index (state n)"
    using va by (simp_all add: append_valid_def Let_def st')
  ultimately have "state_wf (limits n) st'"
    using node_wfD(5) [OF wf] t by (auto simp: state_wf_def st')
  then have "core_wf ?n'"
    using va by (intro core_wf_install [OF node_wfD(1) [OF wf]])
      (simp_all add: same, simp_all add: st' append_valid_def Let_def)
  moreover have "pending_wf ?n'"
    using ge by (intro pending_wf_follower [OF node_wfD(3) [OF wf]]) (simp_all add: same, simp_all add: st')
  moreover have "role_wf ?n'" "barrier_wf ?n'"
    by (simp_all add: role_wf_def barrier_wf_def install_membership_follower)
  ultimately show ?thesis
    by (simp add: node_wf_def)
qed

lemma append_accepted_run:
  assumes ge: "\<not> ae_term m < current_term (state n)" and accept: "predecessor_matches (state n) m"
    and va: "v = Some va" "append_valid n m va" and p: "prepare_append_request n source m v = Inr p"
    and st': "st' = (state n)\<lparr>current_term := ae_term m,
      voted_for := if current_term (state n) < ae_term m then None else voted_for (state n),
      log := validated_append_log va, commit_index := validated_append_commit va\<rparr>"
    and n': "n' = install_membership (become_follower (n\<lparr>state := st'\<rparr>) (ae_term m) (Some source))
      (validated_membership va)"
    and changed: "changed = (current_term (state n) < ae_term m \<or> log st' \<noteq> log (state n) \<or>
      commit_index (state n) < commit_index st')"
  shows "commit_message fault n source (AppendEntries m) v p = (n', Inr (transition p))"
    and "\<not> changed \<Longrightarrow> st' = state n" and "state n' = st'"
    and "persistent_state (transition p) = (if changed then Some st' else None)"
    and "advanced_commit_index (transition p) =
      (if commit_index (state n) < commit_index st' then Some (commit_index st') else None)"
    and "outbound (transition p) = [append_reply source (ae_term m) True
      (if ae_entries m = [] then previous_log_index m else entry_index (last (ae_entries m))) None 0]"
proof -
  show same: "st' = state n" if "\<not> changed"
  proof -
    have "commit_index (state n) \<le> validated_append_commit va"
      using va(2) by (simp add: append_valid_def Let_def)
    moreover have "ae_term m = current_term (state n)" "validated_append_log va = log (state n)"
      "\<not> commit_index (state n) < validated_append_commit va"
      using that ge unfolding changed st' by simp_all
    moreover from this have "validated_append_commit va = commit_index (state n)"
      using calculation(1) by order
    ultimately show ?thesis
      by (simp add: st')
  qed
  let ?q = "prepare_append_accept (state n) source m va"
  have q: "prepared_append_request_accepted ?q" "prepared_append_request_persistence ?q = changed"
    "prepared_append_request_state ?q = (if changed then Some st' else None)"
    "persistent_state (transition ?q) = (if changed then Some st' else None)"
    by (simp_all add: prepare_append_accept_def Let_def st' changed)
  have pq: "p = ?q\<lparr>prepared_append_request := True\<rparr>"
    using p ge accept q(4) by (auto simp: prepare_append_request_def Let_def va(1) changed)
  then show "persistent_state (transition p) = (if changed then Some st' else None)"
    "advanced_commit_index (transition p) =
      (if commit_index (state n) < commit_index st' then Some (commit_index st') else None)"
    "outbound (transition p) = [append_reply source (ae_term m) True
      (if ae_entries m = [] then previous_log_index m else entry_index (last (ae_entries m))) None 0]"
    using q(4) by (simp_all add: prepare_append_accept_def Let_def st')
  show "state n' = st'"
    by (simp add: n' st')
  show "commit_message fault n source (AppendEntries m) v p = (n', Inr (transition p))"
  proof (cases changed)
    case True
    with pq q ge show ?thesis
      by (simp add: commit_message_def apply_message_def apply_append_request_def Let_def n' move_state_def va
          become_follower_over)
  next
    case False
    have "n\<lparr>state := st'\<rparr> = n"
      by (simp add: same [OF False])
    moreover have "\<not> current_term (state n) < ae_term m"
      using False unfolding changed by blast
    ultimately show ?thesis
      using False pq q ge
      by (simp add: commit_message_def apply_message_def apply_append_request_def Let_def n' va)
  qed
qed

lemma append_accepted_ok:
  assumes wf: "node_wf n" and t: "ae_term m \<noteq> 0" and ge: "\<not> ae_term m < current_term (state n)"
    and accept: "predecessor_matches (state n) m" and va: "v = Some va" "append_valid n m va"
    and p: "prepare_append_request n source m v = Inr p"
  shows "operation_ok n (commit_message fault n source (AppendEntries m) v p)"
proof -
  let ?newer = "current_term (state n) < ae_term m"
  define st' where "st' = (state n)\<lparr>current_term := ae_term m,
      voted_for := if ?newer then None else voted_for (state n),
      log := validated_append_log va, commit_index := validated_append_commit va\<rparr>"
  define n' where "n' = install_membership (become_follower (n\<lparr>state := st'\<rparr>) (ae_term m) (Some source))
    (validated_membership va)"
  note run = append_accepted_run [OF ge accept va p st'_def n'_def refl]
  have "node_wf n'"
    unfolding n'_def using ge by (intro accepted_node_wf [OF wf _ t va(2) st'_def]) simp
  moreover have "committed_stable (state n) st'"
    using va(2) state_cong(5) [of st' "(state n)\<lparr>current_term := ae_term m, log := validated_append_log va\<rparr>"]
    by (simp add: append_valid_def Let_def st'_def)
  moreover have "commit_index (state n) \<le> commit_index st'"
    using va(2) by (simp add: append_valid_def Let_def st'_def)
  moreover have "current_term st' = ae_term m" "applied_index st' = applied_index (state n)"
    "snapshot_index st' = snapshot_index (state n)" "\<not> ?newer \<Longrightarrow> voted_for st' = voted_for (state n)"
    "node_id n' = node_id n" "limits n' = limits n"
    by (simp_all add: st'_def n'_def)
  ultimately show ?thesis
    using run(2,4,5) ge unfolding run(1) by (simp add: operation_ok_def run(3) not_less)
qed

lemma append_request_ok:
  assumes wf: "node_wf n" and t: "ae_term m \<noteq> 0"
    and v: "validate_append_entries n active source m = Inr v"
    and p: "prepare_append_request n source m v = Inr p"
  shows "operation_ok n (commit_message fault n source (AppendEntries m) v p)"
proof (cases "ae_term m < current_term (state n)")
  case True
  then have "prepared_append_request p" "persistent_state (transition p) = None"
    "advanced_commit_index (transition p) = None"
    using p by (auto simp: prepare_append_request_def Let_def)
  with True wf show ?thesis
    by (auto simp: commit_message_def apply_message_def apply_append_request_def Let_def operation_ok_volatile)
next
  case ge: False
  show ?thesis
  proof (cases "predecessor_matches (state n) m")
    case False
    with append_rejected_ok [OF wf ge _ p] show ?thesis by simp
  next
    case True
    with validated_append [OF wf v] ge obtain va where va: "v = Some va" "append_valid n m va"
      by (cases v) (auto simp: not_less)
    with append_accepted_ok [OF wf t ge True va p] show ?thesis by simp
  qed
qed

section \<open>Append responses\<close>

text \<open>The part of \<open>apply_append_response\<close> that moves the commit index.\<close>

lemma leader_commit_ok:
  assumes wf: "node_wf n" and lead: "role n = kLeader"
    and c: "commit_index (state n) < c" "c \<le> last_index (state n)"
    and d: "derive_membership (base_voters n) (log (state n)) c (limits n) = Inr d"
    and prog: "progress_wf (last_index (state n)) (dm_active_voters d) nxt mtch"
    and n3: "n3 = n\<lparr>next_index := nxt, match_index := mtch, state := (state n)\<lparr>commit_index := c\<rparr>,
      committed_voters := dm_committed_voters d, voters := dm_active_voters d, joint := dm_joint d\<rparr>"
    and tr: "persistent_state tr = Some ((state n)\<lparr>commit_index := c\<rparr>)" "advanced_commit_index tr = Some c"
  shows "operation_ok n
    (if down then become_follower n3 (current_term (state n3)) None else n3, Inr tr)"
proof -
  have d': "membership_of n3 = d"
    by (simp add: n3 membership_of_def)
  have "core_wf n3"
    using c d by (intro core_wf_commit [OF node_wfD(1) [OF wf], of c]) (simp_all add: d', simp_all add: n3)
  moreover have "pending_wf n3"
    using node_wfD(3) [OF wf] by (simp add: n3 pending_wf_def cong: option.case_cong)
  moreover have "barrier_wf n3"
    using node_wfD(4) [OF wf] c(1) by (auto simp: n3 barrier_wf_def split: option.splits)
  moreover have "role_wf n3"
    using prog lead leader_progress_wf [OF wf lead] by (simp add: n3 role_wf_def)
  ultimately have "node_wf n3" "node_wf (become_follower n3 (current_term (state n3)) None)"
    by (simp_all add: node_wf_def become_follower_wf [unfolded node_wf_def])
  moreover have "committed_stable (state n) ((state n)\<lparr>commit_index := c\<rparr>)"
    by (rule committed_stable_same) simp_all
  moreover have "state n3 = (state n)\<lparr>commit_index := c\<rparr>" "node_id n3 = node_id n" "limits n3 = limits n"
    by (simp_all add: n3)
  ultimately show ?thesis
    using c(1) tr by (auto simp: operation_ok_def)
qed

lemma leader_progress_ok:
  assumes "node_wf n" and "role n = kLeader"
    and "progress_wf (last_index (state n)) (voters n) nxt mtch"
  shows "node_wf (n\<lparr>next_index := nxt, match_index := mtch\<rparr>)"
  using assms leader_progress_wf [OF assms(1,2)]
  by (simp add: node_wf_def role_wf_def pending_wf_def barrier_wf_def cong: option.case_cong)

lemma append_success_ok:
  assumes wf: "node_wf n" and valid: "validate_append_response n m = kOk" "aer_success m"
    and cur: "aer_term m = current_term (state n)" "role n = kLeader"
    and mtch: "match_index n source = Some matched"
    and p: "prepare_append_success n source matched m = Inr p"
  shows "operation_ok n (commit_message fault n source (AppendEntriesReply m) v
    (prepare_persistence n source (AppendEntriesReply m) p))"
proof -
  let ?last = "last_index (state n)" and ?new = "max matched (aer_match_index m)"
  let ?nxt = "(next_index n)(source \<mapsto> ?new + 1)" and ?mtch = "(match_index n)(source \<mapsto> ?new)"
  have prog: "progress_wf ?last (voters n) ?nxt ?mtch"
    using progress_matched [OF conjunct1 [OF leader_progress_wf [OF wf cur(2)]] mtch] valid node_wfD(7) [OF wf]
    by (auto simp: validate_append_response_def split: if_splits)
  show ?thesis
  proof (cases "commit_search (committable n ?mtch) ?last (commit_index (state n))")
    case None
    then have "prepared_append_response p" "\<not> prepared_append_commit p" "\<not> prepared_vote_granted p"
      "prepared_append_next_index p = ?nxt" "prepared_append_match_index p = ?mtch"
      "persistent_state (transition p) = None" "advanced_commit_index (transition p) = None"
      using p by (auto simp: prepare_append_success_def Let_def split: if_splits option.splits)
    with leader_progress_ok [OF wf cur(2) prog] cur show ?thesis
      by (simp add: commit_message_def apply_message_def apply_append_response_def Let_def
          prepare_persistence_def operation_ok_volatile)
  next
    case (Some c)
    note c = commit_search_Some [OF Some]
    obtain d where d: "derive_membership (base_voters n) (log (state n)) c (limits n) = Inr d"
      using p Some by (auto simp: prepare_append_success_def Let_def split: sum.splits)
    obtain nxt' mtch' where migrated: "add_members (node_id n) ?last (dm_active_voters d)
        (erase_departed (dm_active_voters d) (?nxt, ?mtch)) = (nxt', mtch')"
      by fastforce
    have "case (nxt', mtch') of (nxt'', mtch'') \<Rightarrow> progress_wf ?last (dm_active_voters d) nxt'' mtch''"
      unfolding migrated [symmetric]
      by (rule migrated_progress) (use progress_wfD [OF prog] node_wfD(7) [OF wf] in \<open>simp_all only: not_False_eq_True\<close>)
    then have prog': "progress_wf ?last (dm_active_voters d) nxt' mtch'"
      by simp
    have "prepared_append_response p" "prepared_append_commit p" "\<not> prepared_vote_granted p"
      "prepared_append_next_index p = nxt'" "prepared_append_match_index p = mtch'"
      "prepared_append_state p = Some ((state n)\<lparr>commit_index := c\<rparr>)" "prepared_append_membership p = Some d"
      "persistent_state (transition p) = Some ((state n)\<lparr>commit_index := c\<rparr>)"
      "advanced_commit_index (transition p) = Some c"
      using p Some d migrated by (auto simp: prepare_append_success_def Let_def split: option.splits)
    with leader_commit_ok [OF wf cur(2) _ _ d prog' refl, of "transition p" "prepared_append_step_down p"] c cur
    show ?thesis
      by (simp add: commit_message_def apply_message_def apply_append_response_def Let_def
          prepare_persistence_def move_state_def)
  qed
qed

lemma append_failure_ok:
  assumes wf: "node_wf n"
    and cur: "aer_term m = current_term (state n)" "role n = kLeader"
    and mtch: "match_index n source = Some matched"
    and p: "prepare_append_failure n source m = Inr p"
  shows "operation_ok n (commit_message fault n source (AppendEntriesReply m) v
    (prepare_persistence n source (AppendEntriesReply m) p))"
proof -
  let ?last = "last_index (state n)" and ?nxt = "(next_index n)(source \<mapsto> backed_up_next (state n) m)"
  have "1 \<le> ?last + 1"
    using node_wfD(7) [OF wf] by (simp add: word_le_nat_alt unat_Suc_word)
  then have "1 \<le> backed_up_next (state n) m" "backed_up_next (state n) m \<le> ?last + 1"
    by (auto simp: backed_up_next_def Let_def)
  then have "progress_wf ?last (voters n) ?nxt (match_index n)"
    using leader_progress_wf [OF wf cur(2)] mtch by (auto simp: progress_wf_def split: if_splits)
  from leader_progress_ok [OF wf cur(2) this] have "node_wf (n\<lparr>next_index := ?nxt, match_index := match_index n\<rparr>)" .
  moreover have "prepared_append_response p" "\<not> prepared_append_commit p" "\<not> prepared_vote_granted p"
      "prepared_append_next_index p = ?nxt" "prepared_append_match_index p = match_index n"
      "persistent_state (transition p) = None" "advanced_commit_index (transition p) = None"
    using p by (auto simp: prepare_append_failure_def Let_def split: option.splits)
  ultimately show ?thesis
    using cur by (simp add: commit_message_def apply_message_def apply_append_response_def Let_def
          prepare_persistence_def operation_ok_volatile)
qed

lemma append_response_ok:
  assumes wf: "node_wf n" and valid: "validate_append_response n m = kOk"
    and p: "prepare_append_response n source m = Inr p"
  shows "operation_ok n (commit_message fault n source (AppendEntriesReply m) v
    (prepare_persistence n source (AppendEntriesReply m) p))"
proof (cases "aer_term m = current_term (state n) \<and> role n = kLeader")
  case True
  with p obtain matched x where mtch: "match_index n source = Some matched" "next_index n source = Some x"
    by (auto simp: prepare_append_response_def split: option.splits)
  show ?thesis
  proof (cases "aer_success m")
    case success: True
    with True p mtch append_success_ok [OF wf valid success, of source matched p fault v] show ?thesis
      by (simp add: prepare_append_response_def)
  next
    case failure: False
    with True p mtch append_failure_ok [OF wf, of m source matched p fault v] show ?thesis
      by (simp add: prepare_append_response_def)
  qed
next
  case False
  then have p: "p = nothing_prepared"
    using p by (auto simp: prepare_append_response_def)
  show ?thesis
    using False wf by (cases "current_term (state n) < aer_term m")
      (auto simp: p commit_message_def apply_message_def apply_append_response_def Let_def
        prepare_persistence_def intro!: operation_ok_volatile operation_ok_observe)
qed

section \<open>No exception escapes\<close>

lemma replication_for_None [simp]: "replication_for n peer nxt c = None \<longleftrightarrow> nxt peer = None"
  by (auto simp: replication_for_def Let_def split: option.splits)

lemma migrated_covers:
  assumes "add_members self l vs (erase_departed vs (nxt, mtch)) = (nxt', mtch')" and dom: "dom nxt = dom mtch"
  shows "set vs \<subseteq> dom nxt'"
proof -
  have "dom (\<lambda>k. if k \<in> set vs then nxt k else None) = dom (\<lambda>k. if k \<in> set vs then mtch k else None)"
    using dom by (auto simp: dom_def)
  with assms(1) show ?thesis
    unfolding erase_departed_eq [OF dom] by (auto simp: add_members_eq split: if_splits)
qed

lemma prepare_append_success_total:
  assumes wf: "node_wf n" and lead: "role n = kLeader" and mtch: "match_index n source = Some matched"
  shows "prepare_append_success n source matched m \<noteq> Inl OutOfRangeThrown"
proof -
  let ?new = "max matched (aer_match_index m)"
  let ?nxt = "(next_index n)(source \<mapsto> ?new + 1)" and ?mtch = "(match_index n)(source \<mapsto> ?new)"
  have dom: "dom ?nxt = dom ?mtch"
    using leader_progress_wf [OF wf lead] mtch by (auto simp: progress_wf_def)
  have sent: False
    if "add_members (node_id n) l vs (erase_departed vs (?nxt, ?mtch)) = (nxt', mtch')"
      and "replicate_to n vs nxt' c = None" for vs l c nxt' mtch'
    using replicate_to_total [of vs n nxt' c] migrated_covers [OF that(1) dom] that(2) by auto
  show ?thesis
    by (auto simp: prepare_append_success_def Let_def fun_upd_same simp del: fun_upd_apply
        split: option.splits sum.splits prod.splits dest: sent)
qed

lemma prepare_message_total:
  assumes "node_wf n"
  shows "prepare_message n source msg v \<noteq> Inl OutOfRangeThrown"
proof -
  have "prepare_append_response n source m \<noteq> Inl OutOfRangeThrown" for m
    using prepare_append_success_total [OF assms]
    by (auto simp: prepare_append_response_def prepare_append_failure_def Let_def split: option.splits)
  moreover have "prepare_snapshot_response n source m \<noteq> Inl OutOfRangeThrown" for m
    by (auto simp: prepare_snapshot_response_def Let_def split: option.splits)
  moreover have "prepare_append_request n source m v \<noteq> Inl OutOfRangeThrown" for m
    by (auto simp: prepare_append_request_def Let_def split: option.splits if_splits)
  ultimately show ?thesis
    by (cases msg) (auto simp: prepare_message_def map_sum_def split: sum.splits)
qed

section \<open>The operation\<close>

lemma validated_ok: "validated code = Inr v \<Longrightarrow> code = kOk"
  by (auto simp: validated_def split: if_splits)

lemma commit_message_ok:
  assumes wf: "node_wf n" and v: "validate_message n active source msg = Inr v"
    and p: "prepare_message n source msg v = Inr p" and source: "source \<noteq> 0" "source \<noteq> node_id n"
  shows "operation_ok n (commit_message fault n source msg v p)"
proof -
  have t: "message_term msg \<noteq> 0"
    using v by (auto simp: validate_message_def)
  show ?thesis
  proof (cases msg)
    case (RequestVote m)
    with p t request_vote_ok [OF wf source, of m fault v] show ?thesis
      by (auto simp: prepare_message_def)
  next
    case (RequestVoteReply m)
    with p vote_response_ok [OF wf, of fault source m v] show ?thesis
      by (auto simp: prepare_message_def)
  next
    case (AppendEntries m)
    with p v t append_request_ok [OF wf, of m active source v p fault] show ?thesis
      by (auto simp: prepare_message_def validate_message_def)
  next
    case (AppendEntriesReply m)
    with p obtain q where "prepare_append_response n source m = Inr q" "p = prepare_persistence n source msg q"
      by (auto simp: prepare_message_def map_sum_def split: sum.splits)
    with append_response_ok [OF wf, of m source q fault v] AppendEntriesReply v t validated_ok show ?thesis
      by (auto simp: validate_message_def)
  next
    case (InstallSnapshot m)
    with p v t install_request_ok [OF wf, of m source fault v] validated_ok show ?thesis
      by (auto simp: prepare_message_def validate_message_def)
  next
    case (InstallSnapshotReply m)
    with p obtain q where "prepare_snapshot_response n source m = Inr q" "p = prepare_persistence n source msg q"
      by (auto simp: prepare_message_def map_sum_def split: sum.splits)
    with snapshot_response_ok [OF wf, of m source q fault v] InstallSnapshotReply v t validated_ok show ?thesis
      by (auto simp: validate_message_def)
  next
    case (ReadBarrierProbe m)
    with p barrier_probe_ok [OF wf, of fault source m v] show ?thesis
      by (auto simp: prepare_message_def)
  next
    case (ReadBarrierReply m)
    with p barrier_response_ok [OF wf, of fault source m v] show ?thesis
      by (auto simp: prepare_message_def)
  qed
qed

lemma receive_ok:
  assumes wf: "node_wf n"
  shows "operation_ok n (receive faults n source msg)"
proof (cases "source = 0 \<or> source = node_id n \<or> (\<not> voter n source \<and> \<not> learner_replication_request msg) \<or>
    throws (validation_fault faults)")
  case True
  then show ?thesis
    by (auto simp: receive_def Let_def)
next
  case source: False
  let ?valid = "validate_message n (voter n source) source msg"
  show ?thesis
  proof (cases "?valid")
    case (Inl e)
    with source show ?thesis by (auto simp: receive_def Let_def)
  next
    case v: (Inr v)
    show ?thesis
    proof (cases "prepare_message n source msg v")
      case (Inl e)
      with prepare_message_total [OF wf, of source msg v] v source show ?thesis
        by (cases e) (auto simp: receive_def Let_def)
    next
      case p: (Inr p)
      have "operation_ok n (commit_message (acknowledgement_fault faults) n source msg v p)"
        using source by (intro commit_message_ok [OF wf v p]) auto
      with v p source show ?thesis
        by (auto simp: receive_def Let_def)
    qed
  qed
qed

end
