(* ===== verification/Raft_Recovery.thy ===== *)
theory Raft_Recovery
  imports Raft_Receive_Invariant
begin

text \<open>
  Construction and restart of a node. \<^verbatim>\<open>RaftNode::create\<close> accepts exactly the persistent states
  that satisfy the invariant, so every state that a node hands to the runtime can be recovered, and
  the recovered node has the same log, votes and configuration.
\<close>

section \<open>Voters for a restart\<close>

text \<open>The voters of the configuration file matter only until the first snapshot, which carries its own.\<close>

definition restart_voters :: "RaftNode \<Rightarrow> NodeId list \<Rightarrow> bool" where
  "restart_voters n vs =
     (valid_voters (sort vs) (maximum_voters (limits n)) \<and>
      (snapshot_index (state n) = 0 \<longrightarrow> sort vs = base_voters n))"

section \<open>The log check\<close>

lemma check_persistent_log_iff:
  "base \<noteq> - 1 \<Longrightarrow>
   check_persistent_log (base + 1) cur lim es = kOk \<longleftrightarrow>
     contiguous base es \<and> list_all (valid_entry lim cur) es"
proof (induction es arbitrary: base)
  case (Cons e es)
  show ?case
  proof (cases "base + 1 = - 1")
    case True
    then show ?thesis by (simp add: contiguous_Cons)
  next
    case False
    with Cons.IH [of "base + 1"] Cons.prems show ?thesis
      by (auto simp: contiguous_Cons valid_entry_def)
  qed
qed simp

lemma valid_voters_sort:
  "vs \<noteq> [] \<Longrightarrow> length vs \<le> m \<Longrightarrow> hd (sort vs) \<noteq> 0 \<Longrightarrow> no_adjacent_equal (sort vs) \<Longrightarrow> valid_voters (sort vs) m"
  by (simp add: valid_voters_def) (metis length_0_conv length_sort)

lemma limits_identity_sort [simp]:
  "limits_and_identity_valid nid (sort vs) lim = limits_and_identity_valid nid vs lim"
  by (simp add: limits_and_identity_valid_def) (metis length_0_conv length_sort)

section \<open>Construction\<close>

lemma create_checked_wf:
  assumes "create_checked nid vs st lim = Inr n"
    and "limits_and_identity_valid nid vs lim" "valid_voters vs (maximum_voters lim)"
    and "current_term st = 0 \<longrightarrow> voted_for st = None"
    and "last_included_index (snapshot st) = 0 \<longrightarrow> empty_snapshot_canonical (snapshot st)"
    and "last_included_term (snapshot st) \<le> current_term st"
    and "log_contiguous st" "list_all (valid_entry lim (current_term st)) (log st)"
      "length (log st) \<le> maximum_log_entries lim"
  shows "node_wf n"
proof -
  let ?s = "snapshot st"
  let ?compacted = "last_included_index ?s \<noteq> 0"
  define s' where "s' = (if ?compacted \<and> snapshot_voters ?s = [] then ?s\<lparr>snapshot_voters := vs\<rparr> else ?s)"
  define base where "base = (if ?compacted \<and> snapshot_voters ?s \<noteq> [] then snapshot_voters ?s else vs)"
  let ?st = "st\<lparr>snapshot := s'\<rparr>"
  obtain d where d: "derive_membership base (log st) (commit_index st) lim = Inr d"
    and valid: "?compacted \<longrightarrow> valid_snapshot s' (maximum_voters lim)"
    and fits: "persistent_state_fits (length (snapshot_voters s')) (log st) lim = kOk"
    and bounds: "last_included_index s' \<le> commit_index st" "commit_index st \<le> last_index ?st"
      "last_included_index s' \<le> applied_index st" "applied_index st \<le> commit_index st" "voted_for st \<noteq> Some 0"
    and n: "n = initial_node nid base d ?st lim"
    using assms(1) by (auto simp: create_checked_def Let_def s'_def base_def not_less not_le
        split: if_splits sum.splits)
  have s': "last_included_index s' = last_included_index ?s" "last_included_term s' = last_included_term ?s"
    "\<not> ?compacted \<Longrightarrow> s' = ?s"
    by (simp_all add: s'_def)
  have "state_wf lim ?st"
    using assms(4-9) fits bounds valid s'
    by (auto simp: state_wf_def log_wf_def log_contiguous_def snapshot_wf_def snapshot_index_def)
  moreover have "valid_voters base (maximum_voters lim)" "limits_and_identity_valid nid base lim"
    "?compacted \<longrightarrow> base = snapshot_voters s'"
    using assms(2,3) valid
    by (auto simp: base_def s'_def valid_snapshot_def limits_and_identity_valid_def valid_voters_def)
  ultimately have "core_wf n"
    using d s'(1) by (simp add: core_wf_def n initial_node_def membership_of_def snapshot_index_def)
  then show ?thesis
    by (simp add: node_wf_def n initial_node_def role_wf_def pending_wf_def barrier_wf_def)
qed

lemma create_wf:
  assumes "create nid vs st lim = Inr n"
  shows "node_wf n"
proof -
  have valid: "limits_and_identity_valid nid vs lim" "hd (sort vs) \<noteq> 0" "no_adjacent_equal (sort vs)"
    and checked: "create_checked nid (sort vs) st lim = Inr n"
    and snap: "last_included_index (snapshot st) \<noteq> - 1"
    and log: "check_persistent_log (last_included_index (snapshot st) + 1) (current_term st) lim (log st) = kOk"
    and rest: "current_term st = 0 \<longrightarrow> voted_for st = None"
      "last_included_index (snapshot st) = 0 \<longrightarrow> empty_snapshot_canonical (snapshot st)"
      "last_included_term (snapshot st) \<le> current_term st" "length (log st) \<le> maximum_log_entries lim"
    using assms by (auto simp: create_def Let_def not_less split: if_splits)
  have "valid_voters (sort vs) (maximum_voters lim)"
    using valid by (intro valid_voters_sort) (auto simp: limits_and_identity_valid_def not_less)
  with checked valid(1) rest log [unfolded check_persistent_log_iff [OF snap]] show ?thesis
    by (intro create_checked_wf) (auto simp: log_contiguous_def snapshot_index_def)
qed

section \<open>Restart\<close>

lemma create_restart:
  assumes wf: "node_wf n" and vs: "restart_voters n vs"
  shows "create (node_id n) vs (state n) (limits n)
    = Inr (initial_node (node_id n) (base_voters n) (membership_of n) (state n) (limits n))"
proof -
  let ?st = "state n" and ?lim = "limits n"
  note core = node_wfD(1) [OF wf]
  note st = node_wfD(5) [OF wf, unfolded state_wf_def log_wf_def snapshot_wf_def]
  have valid: "valid_voters (sort vs) (maximum_voters ?lim)"
    using vs by (simp add: restart_voters_def)
  then have id: "limits_and_identity_valid (node_id n) vs ?lim" "hd (sort vs) \<noteq> 0" "no_adjacent_equal (sort vs)"
    using core by (auto simp: core_wf_def limits_and_identity_valid_def valid_voters_def)
  have snap: "last_included_index (snapshot ?st) \<noteq> - 1"
    using node_wfD(7,9,10) [OF wf] unfolding snapshot_index_def
    by (metis order_trans word_order.extremum_unique)
  have base: "(if last_included_index (snapshot ?st) \<noteq> 0 \<and> snapshot_voters (snapshot ?st) \<noteq> []
      then snapshot_voters (snapshot ?st) else sort vs) = base_voters n"
    using vs core st by (auto simp: restart_voters_def core_wf_def snapshot_index_def valid_snapshot_def valid_voters_def)
  have keep: "(if last_included_index (snapshot ?st) \<noteq> 0 \<and> snapshot_voters (snapshot ?st) = []
      then (snapshot ?st)\<lparr>snapshot_voters := sort vs\<rparr> else snapshot ?st) = snapshot ?st"
    using st by (auto simp: snapshot_index_def valid_snapshot_def valid_voters_def)
  have "create_checked (node_id n) (sort vs) ?st ?lim =
      Inr (initial_node (node_id n) (base_voters n) (membership_of n) ?st ?lim)"
    unfolding create_checked_def Let_def base keep using st core_wfD(7) [OF core]
    by (auto simp: snapshot_index_def split: if_splits)
  moreover have "check_persistent_log (last_included_index (snapshot ?st) + 1) (current_term ?st) ?lim (log ?st) = kOk"
    using st by (simp add: check_persistent_log_iff [OF snap] log_contiguous_def snapshot_index_def)
  ultimately show ?thesis
    using id snap st by (auto simp: create_def Let_def snapshot_index_def)
qed

end
