(* ===== verification/Raft_Fanout.thy ===== *)
theory Raft_Fanout
  imports Raft_Recovery
begin

text \<open>
  How many messages one operation of a node emits. The multi-group runtime fails closed when a
  transition is larger than its queue, so the bound \<^verbatim>\<open>max(1, maximum_voters - 1)\<close> that its
  constructor checks has to hold for every operation. A leader that has been removed from the
  configuration keeps its role for a moment and then sends to all voters; the invariant
  \<open>fanout_wf\<close> shows that these are fewer than the maximum, because the leader itself was one of
  the voters of the joint configuration.
\<close>

section \<open>Definitions\<close>

definition peers :: "RaftNode \<Rightarrow> NodeId list" where
  "peers n = filter (\<lambda>v. v \<noteq> node_id n) (voters n)"

text \<open>\<^verbatim>\<open>maximum_core_outbound\<close>.\<close>

definition core_outbound :: "RaftLimits \<Rightarrow> nat" where
  "core_outbound lim = (if maximum_voters lim > 1 then maximum_voters lim - 1 else 1)"

definition fanout_wf :: "RaftNode \<Rightarrow> bool" where
  "fanout_wf n = (role n \<noteq> kFollower \<longrightarrow> length (peers n) \<le> maximum_voters (limits n) - 1)"

definition fanout_ok :: "nat \<Rightarrow> RaftNode \<times> Transition outcome \<Rightarrow> bool" where
  "fanout_ok k r =
     (case r of
        (n', Inl f) \<Rightarrow> True
      | (n', Inr tr) \<Rightarrow> fanout_wf n' \<and> length (outbound tr) \<le> k)"

section \<open>Voters\<close>

lemma fanout_ok_error [simp]: "fanout_ok k (n, Inl f)"
  by (simp add: fanout_ok_def)

lemma fanout_follower: "role n = kFollower \<Longrightarrow> fanout_wf n"
  by (simp add: fanout_wf_def)

lemma fanout_wf_cong:
  "fanout_wf n \<Longrightarrow> voters n' = voters n \<Longrightarrow> node_id n' = node_id n \<Longrightarrow> limits n' = limits n \<Longrightarrow>
   role n \<noteq> kFollower \<or> role n' = kFollower \<Longrightarrow> fanout_wf n'"
  by (auto simp: fanout_wf_def peers_def)

lemma core_outbound_le: "k \<le> maximum_voters lim - 1 \<Longrightarrow> k \<le> core_outbound lim"
  by (auto simp: core_outbound_def)

lemma core_outbound_one: "Suc 0 \<le> core_outbound lim"
  by (auto simp: core_outbound_def)

lemma fewer_voters:
  assumes "distinct vs" and "set vs \<subseteq> set ws"
  shows "length (filter P vs) \<le> length (filter P ws)"
proof -
  have "length (filter P vs) = card (set (filter P vs))"
    using assms(1) by (simp add: distinct_card del: set_filter)
  also have "\<dots> \<le> card (set (filter P ws))"
    using assms(2) by (intro card_mono) auto
  finally show ?thesis
    using card_length [of "filter P ws"] by linarith
qed

lemma fewer_peers:
  assumes "distinct vs" and "set vs \<subseteq> set ws" and "self \<in> set ws" and "length ws \<le> m"
  shows "length (filter (\<lambda>v. v \<noteq> self) vs) \<le> m - 1"
proof -
  have "length (filter (\<lambda>v. v \<noteq> self) ws) < length ws"
    using assms(3) by (auto intro: length_filter_less)
  with fewer_voters [OF assms(1,2)] assms(4) show ?thesis
    by (fastforce intro: order_trans)
qed

lemma voters_wf:
  assumes "core_wf n"
  shows "distinct (voters n)" and "length (voters n) \<le> maximum_voters (limits n)"
  using core_wfD(5) [OF assms] by (simp_all add: valid_voters_iff)

lemma voter_fanout:
  "core_wf n \<Longrightarrow> node_id n \<in> set (voters n) \<Longrightarrow> length (peers n) \<le> maximum_voters (limits n) - 1"
  unfolding peers_def by (rule fewer_peers [of _ "voters n"]) (simp_all add: voters_wf)

text \<open>A larger commit index can only shrink the set of active voters.\<close>

lemma derive_active_shrinks:
  assumes "derive_membership base es c lim = Inr d" and "c \<le> c'" and "valid_voters base (maximum_voters lim)"
    and "derive_membership base es c' lim = Inr d'"
  shows "set (dm_active_voters d') \<subseteq> set (dm_active_voters d)"
  using derive_commit_mono [OF assms(1) [unfolded derive_membership_def] assms(2)] assms(4)
    derive_membership_wf [OF assms(3,1)]
  by (auto simp: derive_membership_def config_wf_def voter_union_def set_set_union)

lemma replicate_to_length:
  "replicate_to n ps nxt c = Some out \<Longrightarrow> length out = length (filter (\<lambda>p. p \<noteq> node_id n) ps)"
  by (induction ps arbitrary: out) (auto split: if_splits option.splits)

lemma append_to_all_length: "append_to_all n = Some out \<Longrightarrow> length out = length (peers n)"
  unfolding append_to_all_def peers_def by (rule replicate_to_length)

section \<open>Appends of a leader\<close>

lemma advance_commit_fanout:
  assumes "core_wf n" and "advance_commit n t = Inr (adv, n', t')"
  shows "set (voters n') \<subseteq> set (voters n)" and "node_id n' = node_id n" and "limits n' = limits n"
proof -
  have "n' = n \<or> (\<exists>c d. commit_index (state n) < c \<and>
      derive_membership (base_voters n) (log (state n)) c (limits n) = Inr d \<and>
      n' = install_membership (n\<lparr>state := (state n)\<lparr>commit_index := c\<rparr>\<rparr>) d)"
    using assms(2) commit_candidate(1) [OF assms(1)]
    by (auto simp: advance_commit_def make_unexpected_def split: option.splits sum.splits if_splits)
  moreover have shrink: "set (dm_active_voters d) \<subseteq> set (voters n)"
    if "commit_index (state n) < c" "derive_membership (base_voters n) (log (state n)) c (limits n) = Inr d" for c d
    using derive_active_shrinks [OF core_wfD(7) [OF assms(1)] _ core_wfD(3) [OF assms(1)]] that
    by (auto simp: membership_of_def dest: order.strict_implies_order)
  ultimately show "set (voters n') \<subseteq> set (voters n)" "node_id n' = node_id n" "limits n' = limits n"
    by (auto dest!: shrink)
qed

text \<open>The common tail of both appends: a leader that records its own progress is a voter.\<close>

lemma append_tail_fanout:
  assumes lead: "leader_wf n" and rec: "record_self_progress n (last_index (state n)) = Inr n1"
    and adv: "advance_commit n1 t = Inr (adv, n2, t2)" and out: "append_to_all n2 = Some out"
  shows "length (peers n2) \<le> maximum_voters (limits n2) - 1"
    and "length out \<le> maximum_voters (limits n) - 1"
proof -
  have wf: "leader_wf n1"
    by (rule record_self_progress_wf [OF lead rec])
  have same: "voters n1 = voters n" "node_id n1 = node_id n" "limits n1 = limits n" and
      "node_id n \<in> dom (match_index n)"
    using rec by (auto simp: record_self_progress_def split: if_splits)
  then have self: "node_id n \<in> set (voters n)"
    using leader_wfD(4) [OF lead] by (simp add: progress_wf_def)
  have "core_wf n2"
    by (rule advance_commit_leader [OF wf, of t]) (use adv in \<open>auto dest: leader_wfD(1)\<close>)
  then have "length (peers n2) \<le> maximum_voters (limits n) - 1"
    unfolding peers_def using advance_commit_fanout [OF leader_wfD(1) [OF wf] adv] self same
      voters_wf [OF leader_wfD(1) [OF lead]]
    by (intro fewer_peers [of _ "voters n"]) (simp_all add: voters_wf)
  then show "length (peers n2) \<le> maximum_voters (limits n2) - 1"
    and "length out \<le> maximum_voters (limits n) - 1"
    using advance_commit_fanout [OF leader_wfD(1) [OF wf] adv] same append_to_all_length [OF out] by simp_all
qed

lemma append_local_fanout:
  assumes "node_wf n" "role n = kLeader" and st: "state_wf (limits n) (state (push_entry n t p))"
    and kind: "\<not> is_membership_entry_type t" and app: "append_local_entry n t p = Inr (n', tr)"
  shows "fanout_wf n' \<and> length (outbound tr) \<le> maximum_voters (limits n) - 1"
proof -
  let ?n0 = "push_entry n t p"
  have lead: "leader_wf ?n0"
    using leader_push [OF leader_wf_node [OF assms(1,2)] st kind] .
  obtain n1 t2 adv out where rec: "record_self_progress ?n0 (last_index (state ?n0)) = Inr n1"
    and adv: "advance_commit n1 empty_transition = Inr (adv, n', t2)"
    and out: "append_to_all n' = Some out" and tr: "outbound tr = out"
    using app by (auto simp: append_local_entry_def Let_def split: sum.splits option.splits)
  show ?thesis
    using append_tail_fanout [OF lead rec adv out] tr by (simp add: fanout_wf_def push_entry_def)
qed

lemma append_membership_fanout:
  assumes "node_wf n" "role n = kLeader" and st: "state_wf (limits n) (state (push_entry n t p))"
    and app: "append_membership_entry n t p = Inr (n', tr)"
  shows "fanout_wf n' \<and> length (outbound tr) \<le> maximum_voters (limits n) - 1"
proof -
  obtain d where d: "derive_membership (base_voters n) (log (state (push_entry n t p)))
              (commit_index (state n)) (limits n) = Inr d"
    using app by (auto simp: append_membership_entry_def Let_def split: sum.splits)
  let ?n0 = "install_membership (push_entry n t p) d"
  have lead: "leader_wf ?n0"
    using leader_push_membership [OF leader_wf_node [OF assms(1,2)] st d] by blast
  obtain n1 n2 t2 adv out where rec: "record_self_progress ?n0 (last_index (state ?n0)) = Inr n1"
    and adv: "advance_commit n1 empty_transition = Inr (adv, n2, t2)"
    and out: "append_to_all n2 = Some out" and tr: "outbound tr = out" and n': "n' = step_down_if_removed n2"
    using app d by (auto simp: append_membership_entry_def Let_def split: sum.splits option.splits)
  show ?thesis
    using append_tail_fanout [OF lead rec adv out] tr
    by (simp add: n' fanout_wf_def push_entry_def step_down_if_removed_def peers_def)
qed

section \<open>Operations\<close>

lemma fanout_unchanged: "fanout_wf n \<Longrightarrow> fanout_ok k (n, Inr empty_transition)"
  by (simp add: fanout_ok_def)

lemma install_prepared_fanout:
  assumes "\<And>n' tr. r = Inr (n', tr) \<Longrightarrow> fanout_wf n' \<and> length (outbound tr) \<le> maximum_voters lim - 1"
  shows "fanout_ok (core_outbound lim) (install_prepared fault n r)"
  using assms core_outbound_le
  by (auto simp: install_prepared_def fanout_ok_def split: sum.splits)

lemma append_fanout:
  assumes "node_wf n" "role n = kLeader"
    and "length payload \<le> maximum_entry_bytes (limits n)"
    and "length (log (state n)) < maximum_log_entries (limits n)" and "last_index (state n) < - 1 - 1"
    and "appended_entry_fits (state n) (length payload) (limits n) = kOk"
    and "t \<noteq> 0" and "t = kLeaderNoopEntryType \<longrightarrow> payload = []" and "\<not> is_membership_entry_type t"
  shows "fanout_ok (core_outbound (limits n)) (install_prepared fault n (append_local_entry n t payload))"
  using assms by (intro install_prepared_fanout append_local_fanout [of n t payload] leader_state_wf_push) simp_all

lemma propose_fanout:
  assumes "node_wf n"
  shows "fanout_ok (core_outbound (limits n)) (propose fault n t payload)"
  using assms append_fanout [of n payload t fault]
  by (auto simp: propose_def Let_def is_internal_raft_entry_type_def)

lemma commit_current_term_fanout:
  assumes "node_wf n" and "fanout_wf n"
  shows "fanout_ok (core_outbound (limits n)) (commit_current_term fault n)"
  using assms append_fanout [of n "[]" kLeaderNoopEntryType fault] noop_not_membership
  by (auto simp: commit_current_term_def Let_def fanout_unchanged)

lemma propose_exact_retained_fanout:
  "node_wf n \<Longrightarrow> fanout_wf n \<Longrightarrow> fanout_ok (core_outbound (limits n)) (propose_exact_retained fault n t payload)"
  by (auto simp: propose_exact_retained_def propose_fanout commit_current_term_fanout fanout_unchanged
      split: option.splits bool.splits)

lemma append_membership_command_fanout:
  assumes "node_wf n" and "role n = kLeader" and "\<not> - 1 - 1 \<le> last_index (state n)"
    and "length (log (state n)) < maximum_log_entries (limits n)" and "is_membership_entry_type t"
  shows "fanout_ok (core_outbound (limits n)) (append_membership_command n t command)"
proof (cases "encode_membership_command_v1 command (maximum_voters (limits n))")
  case (Inr payload)
  have kind: "t \<noteq> 0" "t \<noteq> kLeaderNoopEntryType"
    using assms(5) by (auto simp: is_membership_entry_type_def kLeaderNoopEntryType_def
        kJointMembershipEntryType_def kFinalMembershipEntryType_def)
  have "fanout_ok (core_outbound (limits n)) (install_prepared NoFault n (append_membership_entry n t payload))"
    if "length payload \<le> maximum_entry_bytes (limits n)"
      "appended_entry_fits (state n) (length payload) (limits n) = kOk"
    using that kind assms
    by (intro install_prepared_fanout append_membership_fanout [of n t payload] leader_state_wf_push) simp_all
  with Inr show ?thesis
    by (auto simp: append_membership_command_def Let_def)
qed (simp add: append_membership_command_def)

lemma begin_membership_change_fanout:
  "node_wf n \<Longrightarrow> fanout_wf n \<Longrightarrow> fanout_ok (core_outbound (limits n)) (begin_membership_change fault retry_fault n vs)"
  by (auto simp: begin_membership_change_def Let_def commit_current_term_fanout fanout_unchanged not_le
      is_membership_entry_type_def split: option.splits intro!: append_membership_command_fanout)

lemma finalize_membership_change_fanout:
  "node_wf n \<Longrightarrow> fanout_wf n \<Longrightarrow> fanout_ok (core_outbound (limits n)) (finalize_membership_change fault retry_fault n)"
  by (auto simp: finalize_membership_change_def commit_current_term_fanout fanout_unchanged not_le
      is_membership_entry_type_def split: option.splits intro!: append_membership_command_fanout)

lemma start_election_fanout:
  assumes "node_wf n"
  shows "fanout_ok (core_outbound (limits n)) (start_election fault n)"
proof -
  have "voter n (node_id n) \<Longrightarrow> length (peers n) \<le> maximum_voters (limits n) - 1"
    by (rule voter_fanout) (use assms in \<open>simp_all add: node_wf_def voter_def\<close>)
  then show ?thesis
    by (auto simp: start_election_def fanout_ok_def Let_def fanout_wf_def peers_def leader_announcements_def
        vote_requests_def intro: core_outbound_le)
qed

lemma heartbeat_fanout:
  "fanout_wf n \<Longrightarrow> fanout_ok (core_outbound (limits n)) (heartbeat n)"
  by (auto simp: heartbeat_def fanout_ok_def append_to_all_length fanout_wf_def core_outbound_le
      split: option.splits)

lemma begin_read_barrier_fanout:
  "fanout_wf n \<Longrightarrow> fanout_ok (core_outbound (limits n)) (begin_read_barrier fault n)"
  by (auto simp: begin_read_barrier_def fanout_ok_def Let_def barrier_probes_def fanout_wf_def peers_def
      core_outbound_le empty_transition_def)

lemma mark_applied_fanout: "fanout_wf n \<Longrightarrow> fanout_ok 0 (mark_applied fault n i)"
  by (auto simp: mark_applied_def fanout_ok_def Let_def fanout_wf_def peers_def empty_transition_def)

lemma compact_snapshot_fanout: "fanout_wf n \<Longrightarrow> fanout_ok 0 (compact_snapshot prepare_fault fault n s)"
  by (auto simp: compact_snapshot_def fanout_ok_def Let_def fanout_wf_def peers_def empty_transition_def
      split: sum.splits)

lemma complete_snapshot_install_fanout:
  assumes "node_wf n" and "fanout_wf n"
  shows "fanout_ok 1 (complete_snapshot_install fault n source s installed)"
proof -
  have "role n = kFollower" if "pending_snapshot n = Some m" "is_term m = current_term (state n)" for m
    using assms(1) that by (auto simp: node_wf_def pending_wf_def)
  with assms(2) show ?thesis
    by (auto simp: complete_snapshot_install_def fanout_ok_def Let_def fanout_wf_def peers_def
        split: option.splits sum.splits)
qed

section \<open>Received messages\<close>

lemma prepare_persistence_simps [simp]:
  "outbound (transition (prepare_persistence n source msg p)) = outbound (transition p)"
  "prepared_append_membership (prepare_persistence n source msg p) = prepared_append_membership p"
  by (simp_all add: prepare_persistence_def Let_def)

lemma no_prepared_membership [simp]: "prepared_append_membership nothing_prepared = None"
  by (simp add: nothing_prepared_def)

lemma append_success_fanout:
  assumes "node_wf n" and "role n = kLeader" and "fanout_wf n"
    and "prepare_append_success n source matched m = Inr p"
  shows "length (outbound (transition p)) \<le> core_outbound (limits n)"
    and "prepared_append_membership p = Some d \<Longrightarrow>
      length (filter (\<lambda>v. v \<noteq> node_id n) (dm_active_voters d)) \<le> maximum_voters (limits n) - 1"
proof -
  have core: "core_wf n" using assms(1) by (simp add: node_wf_def)
  have shrink: "length (filter (\<lambda>v. v \<noteq> node_id n) (dm_active_voters d)) \<le> maximum_voters (limits n) - 1"
    if "derive_membership (base_voters n) (log (state n)) c (limits n) = Inr d" "commit_index (state n) < c" for c d
  proof -
    have "length (filter (\<lambda>v. v \<noteq> node_id n) (dm_active_voters d)) \<le> length (peers n)"
      unfolding peers_def
    proof (rule fewer_voters)
      show "distinct (dm_active_voters d)"
        using config_wf_active [OF derive_membership_wf [OF core_wfD(3) [OF core] that(1)]]
        by (simp add: valid_voters_iff)
      show "set (dm_active_voters d) \<subseteq> set (voters n)"
        using derive_active_shrinks [OF core_wfD(7) [OF core] _ core_wfD(3) [OF core] that(1)] that(2)
        by (simp add: membership_of_def)
    qed
    with assms(2,3) show ?thesis by (simp add: fanout_wf_def)
  qed
  show "length (outbound (transition p)) \<le> core_outbound (limits n)"
    using assms(4) core_outbound_one
    by (auto simp: prepare_append_success_def Let_def dest!: replicate_to_length
        split: option.splits sum.splits prod.splits if_splits
        intro!: core_outbound_le [OF shrink] commit_candidate(1) [OF core])
  show "length (filter (\<lambda>v. v \<noteq> node_id n) (dm_active_voters d)) \<le> maximum_voters (limits n) - 1"
    if "prepared_append_membership p = Some d"
    using assms(4) that
    by (auto simp: prepare_append_success_def Let_def split: option.splits sum.splits prod.splits if_splits
        intro!: shrink [simplified] commit_candidate(1) [OF core])
qed

lemma append_response_fanout:
  assumes "node_wf n" and "fanout_wf n" and "prepare_append_response n source m = Inr p"
  shows "length (outbound (transition p)) \<le> core_outbound (limits n)"
    and "prepared_append_membership p = Some d \<Longrightarrow>
      length (filter (\<lambda>v. v \<noteq> node_id n) (dm_active_voters d)) \<le> maximum_voters (limits n) - 1"
  using assms append_success_fanout [OF assms(1) _ assms(2)] core_outbound_one
  by (auto simp: prepare_append_response_def prepare_append_failure_def Let_def
      split: if_splits option.splits)

lemma prepared_outbound:
  assumes "node_wf n" and "fanout_wf n" and "prepare_message n source msg v = Inr p"
  shows "length (outbound (transition p)) \<le> (case msg of ReadBarrierProbe _ \<Rightarrow> 0 | _ \<Rightarrow> core_outbound (limits n))"
proof (cases msg)
  case (RequestVoteReply m)
  then show ?thesis
    using assms(2,3) by (auto simp: prepare_message_def prepare_vote_response_def Let_def leader_announcements_def
        fanout_wf_def peers_def core_outbound_le)
next
  case (AppendEntries m)
  then show ?thesis
    using assms(3) core_outbound_one
    by (auto simp: prepare_message_def prepare_append_request_def prepare_append_accept_def Let_def
        split: if_splits option.splits)
next
  case (AppendEntriesReply m)
  then show ?thesis
    using assms(3) append_response_fanout(1) [OF assms(1,2), of source m]
    by (cases "prepare_append_response n source m") (auto simp: prepare_message_def)
next
  case (InstallSnapshot m)
  then show ?thesis
    using assms(3) core_outbound_one
    by (auto simp: prepare_message_def prepare_install_request_def Let_def split: if_splits option.splits)
next
  case (InstallSnapshotReply m)
  then show ?thesis
    using assms(3) core_outbound_one
    by (auto simp: prepare_message_def prepare_snapshot_response_def Let_def split: if_splits option.splits)
qed (use assms(3) core_outbound_one in \<open>auto simp: prepare_message_def prepare_request_vote_def Let_def\<close>)

text \<open>What the last stage does to roles and voters.\<close>

lemma move_state_simps [simp]:
  "role (move_state n st) = role n" "voters (move_state n st) = voters n"
  "node_id (move_state n st) = node_id n" "limits (move_state n st) = limits n"
  by (simp_all add: move_state_def split: option.splits)

lemma apply_message_fanout:
  assumes "fanout_wf n"
    and "\<And>d. prepared_append_membership p = Some d \<Longrightarrow>
      length (filter (\<lambda>v. v \<noteq> node_id n) (dm_active_voters d)) \<le> maximum_voters (limits n) - 1"
  shows "fanout_wf (ap_node (apply_message fault n source msg v p c))"
proof (cases msg)
  case (AppendEntriesReply m)
  with assms show ?thesis
    by (auto simp: apply_message_def apply_append_response_def fanout_wf_def peers_def Let_def
        split: option.splits)
next
  case (ReadBarrierReply m)
  with assms(1) show ?thesis
    by (auto simp: apply_message_def apply_barrier_response_def finish_read_barrier_def fanout_wf_def peers_def
        Let_def split: option.splits)
qed (use assms(1) in \<open>auto simp: apply_message_def apply_request_vote_def apply_vote_response_def
      apply_append_request_def apply_install_request_def apply_snapshot_response_def apply_barrier_probe_def
      fanout_wf_def peers_def Let_def split: option.splits\<close>)

lemma apply_message_outbound:
  "length (outbound (ap_transition (apply_message fault n source msg v p c))) =
     length (outbound (transition p)) + (case msg of ReadBarrierProbe _ \<Rightarrow> 1 | _ \<Rightarrow> 0)"
  by (auto simp: apply_message_def apply_request_vote_def apply_vote_response_def apply_append_request_def
      apply_append_response_def apply_install_request_def apply_snapshot_response_def apply_barrier_probe_def
      apply_barrier_response_def finish_read_barrier_def applied_def apply_failed_def Let_def
      split: Message.splits option.splits)

lemma receive_fanout:
  assumes "node_wf n" and "fanout_wf n"
  shows "fanout_ok (core_outbound (limits n)) (receive faults n source msg)"
proof -
  have "fanout_ok (core_outbound (limits n)) (commit_message fault n source msg v p)"
    if prep: "prepare_message n source msg v = Inr p" for fault v p
  proof -
    let ?newer = "message_term msg > current_term (state n)"
    let ?n1 = "if ?newer then become_follower n (message_term msg) None else n"
    have "fanout_wf ?n1"
      using assms(2) by (simp add: fanout_follower)
    moreover have "length (filter (\<lambda>v. v \<noteq> node_id ?n1) (dm_active_voters d)) \<le> maximum_voters (limits ?n1) - 1"
      if "prepared_append_membership p = Some d" for d
    proof (cases msg)
      case (AppendEntriesReply m)
      then show ?thesis
        using prep that append_response_fanout(2) [OF assms]
        by (cases "prepare_append_response n source m") (auto simp: prepare_message_def)
    qed (use prep that in \<open>auto simp: prepare_message_def prepare_request_vote_def prepare_vote_response_def
          prepare_append_request_def prepare_append_accept_def prepare_install_request_def
          prepare_snapshot_response_def Let_def split: if_splits option.splits\<close>)
    ultimately have "fanout_wf (ap_node (apply_message fault ?n1 source msg v p ?newer))"
      by (intro apply_message_fanout)
    moreover have "length (outbound (ap_transition (apply_message fault ?n1 source msg v p ?newer)))
        \<le> core_outbound (limits n)"
      using prepared_outbound [OF assms prep] core_outbound_one [of "limits n"]
      by (auto simp: apply_message_outbound split: Message.splits)
    ultimately show ?thesis
      by (simp add: commit_message_def fanout_ok_def Let_def)
  qed
  then show ?thesis
    by (auto simp: receive_def Let_def split: sum.splits)
qed

end
