(* ===== verification/Multi_Raft.thy ===== *)
theory Multi_Raft
  imports Multi_Raft_Types Ordered_Map Raft_Fanout
begin

text \<open>
  \<^verbatim>\<open>src/raft/multi_raft.cpp\<close>: one owner of many groups that numbers every persistent state with a
  node-wide physical sequence, tags the outputs of a node operation with the group, and fails closed.
  Every operation of the runtime is the same composition around an operation of \<open>RaftNode\<close>; the locale
  \<open>node_operation\<close> holds the contract of the inner operation, and its lemmas what the composition
  makes of it.
\<close>

section \<open>State\<close>

record MultiRaftRuntime =
  local_node_id :: NodeId
  runtime_limits :: MultiRaftLimits
  groups :: "(GroupId \<times> RaftNode) list"
  physical_sequence :: u64
  failed_state :: bool

definition find_group :: "MultiRaftRuntime \<Rightarrow> GroupId \<Rightarrow> RaftNode option" where
  "find_group r g = map_of (groups r) g"

definition group_count :: "MultiRaftRuntime \<Rightarrow> nat" where
  "group_count r = length (groups r)"

text \<open>A node operation works on the node inside the map.\<close>

definition set_group :: "GroupId \<Rightarrow> RaftNode \<Rightarrow> MultiRaftRuntime \<Rightarrow> MultiRaftRuntime" where
  "set_group g n r = r\<lparr>groups := ordered_insert g n (groups r)\<rparr>"

definition fail_closed :: "MultiRaftRuntime \<Rightarrow> MultiRaftRuntime" where
  "fail_closed r = r\<lparr>failed_state := True\<rparr>"

section \<open>The shape of an operation\<close>

definition transition_group :: "GroupId \<Rightarrow> MultiRaftRuntime \<Rightarrow> MultiRaftRuntime \<times> RaftNode result" where
  "transition_group g r =
     (if failed_state r then (r, Inl kUnavailable)
      else case find_group r g of
        None \<Rightarrow> (r, Inl kNotFound)
      | Some n \<Rightarrow>
          if physical_sequence r = - 1 then (fail_closed r, Inl kOutOfRange)
          else (r, Inr n))"

text \<open>The persistent state of a transition gets the next physical sequence.\<close>

definition number_state :: "GroupId \<Rightarrow> MultiRaftRuntime \<Rightarrow> PersistentState option \<Rightarrow>
    MultiRaftRuntime \<times> GroupPersistentState option result" where
  "number_state g r st =
     (case st of
        None \<Rightarrow> (r, Inr None)
      | Some s \<Rightarrow>
          if physical_sequence r = - 1 then (fail_closed r, Inl kOutOfRange)
          else let sq = physical_sequence r + 1 in
            (r\<lparr>physical_sequence := sq\<rparr>,
             Inr (Some \<lparr>gps_group_id = g, gps_physical_sequence = sq, gps_state = s\<rparr>)))"

definition wrap :: "GroupId \<Rightarrow> MultiRaftRuntime \<Rightarrow> Transition outcome \<Rightarrow>
    MultiRaftRuntime \<times> MultiRaftTransition outcome" where
  "wrap g r tr =
     (case tr of
        Inl f \<Rightarrow> (r, Inl f)
      | Inr core \<Rightarrow>
          if length (outbound core) > maximum_queued_outbound (runtime_limits r)
          then (fail_closed r, Inl (Failed kResourceExhausted))
          else if find_group r g = None then (fail_closed r, Inl (Failed kInternal))
          else case number_state g r (persistent_state core) of
            (r', Inl e) \<Rightarrow> (r', Inl (Failed e))
          | (r', Inr p) \<Rightarrow>
              (r', Inr \<lparr>mt_persistence = p,
                   mt_outbound = map (\<lambda>m. \<lparr>gom_group_id = g, gom_source = local_node_id r, gom_outbound = m\<rparr>)
                                     (outbound core),
                   mt_advanced_commit_index = advanced_commit_index core,
                   mt_snapshot_install = map_option (\<lambda>i. \<lparr>gsi_group_id = g, gsi_install = i\<rparr>)
                                           (snapshot_install core),
                   mt_read_barrier_ready = map_option (\<lambda>b. \<lparr>grb_group_id = g, grb_barrier = b\<rparr>)
                                             (read_barrier_ready core)\<rparr>))"

definition group_operation :: "(RaftNode \<Rightarrow> RaftNode \<times> Transition outcome) \<Rightarrow> GroupId \<Rightarrow> MultiRaftRuntime \<Rightarrow>
    MultiRaftRuntime \<times> MultiRaftTransition outcome" where
  "group_operation op g r =
     (case transition_group g r of
        (r', Inl e) \<Rightarrow> (r', Inl (Failed e))
      | (r', Inr n) \<Rightarrow> (case op n of (n', tr) \<Rightarrow> wrap g (set_group g n' r') tr))"

section \<open>Operations\<close>

definition create_runtime :: "NodeId \<Rightarrow> MultiRaftLimits \<Rightarrow> MultiRaftRuntime result" where
  "create_runtime nid lim =
     (if nid = 0 \<or> maximum_groups lim = 0 \<or> maximum_voters (raft_limits lim) = 0 \<or>
         maximum_queued_outbound lim < core_outbound (raft_limits lim)
      then Inl kInvalidArgument
      else Inr \<lparr>local_node_id = nid, runtime_limits = lim, groups = [], physical_sequence = 0,
                failed_state = False\<rparr>)"

definition add_group :: "MultiRaftRuntime \<Rightarrow> GroupId \<Rightarrow> NodeId list \<Rightarrow> PersistentState \<Rightarrow> u64 \<Rightarrow>
    MultiRaftRuntime \<times> StatusCode" where
  "add_group r g vs st recovered_sequence =
     (if failed_state r then (r, kUnavailable)
      else if is_nil g then (r, kInvalidArgument)
      else if find_group r g \<noteq> None then (r, kAlreadyExists)
      else if group_count r \<ge> maximum_groups (runtime_limits r) then (r, kResourceExhausted)
      else case create (local_node_id r) vs st (raft_limits (runtime_limits r)) of
        Inl e \<Rightarrow> (r, e)
      | Inr n \<Rightarrow>
          (set_group g n (r\<lparr>physical_sequence := max (physical_sequence r) recovered_sequence\<rparr>), kOk))"

definition remove_group :: "MultiRaftRuntime \<Rightarrow> GroupId \<Rightarrow> MultiRaftRuntime \<times> StatusCode" where
  "remove_group r g =
     (if failed_state r then (r, kUnavailable)
      else if find_group r g = None then (r, kNotFound)
      else (r\<lparr>groups := ordered_erase g (groups r)\<rparr>, kOk))"

definition group_start_election where
  "group_start_election fault g = group_operation (start_election fault) g"

definition group_receive where
  "group_receive faults g source msg = group_operation (\<lambda>n. receive faults n source msg) g"

definition group_propose where
  "group_propose fault g kind payload = group_operation (\<lambda>n. propose fault n kind payload) g"

definition group_propose_exact_retained where
  "group_propose_exact_retained fault g kind payload =
     group_operation (\<lambda>n. propose_exact_retained fault n kind payload) g"

definition group_commit_current_term where
  "group_commit_current_term fault g = group_operation (commit_current_term fault) g"

definition group_begin_membership_change where
  "group_begin_membership_change fault retry_fault g new_voters =
     group_operation (\<lambda>n. begin_membership_change fault retry_fault n new_voters) g"

definition group_finalize_membership_change where
  "group_finalize_membership_change fault retry_fault g =
     group_operation (finalize_membership_change fault retry_fault) g"

definition group_complete_snapshot_install where
  "group_complete_snapshot_install fault g source s installed =
     group_operation (\<lambda>n. complete_snapshot_install fault n source s installed) g"

definition group_compact_snapshot where
  "group_compact_snapshot prepare_fault fault g s =
     group_operation (\<lambda>n. compact_snapshot prepare_fault fault n s) g"

definition group_heartbeat where
  "group_heartbeat g = group_operation heartbeat g"

definition group_begin_read_barrier where
  "group_begin_read_barrier fault g = group_operation (begin_read_barrier fault) g"

definition group_mark_applied where
  "group_mark_applied fault g i = group_operation (\<lambda>n. mark_applied fault n i) g"

text \<open>One record per group, in the order of the map.\<close>

fun checkpoint_states :: "u64 \<Rightarrow> (GroupId \<times> RaftNode) list \<Rightarrow> GroupPersistentState list \<times> u64" where
  "checkpoint_states sq [] = ([], sq)"
| "checkpoint_states sq ((g, n) # rest) =
     (case checkpoint_states (sq + 1) rest of
        (records, final) \<Rightarrow>
          (\<lparr>gps_group_id = g, gps_physical_sequence = sq + 1, gps_state = state n\<rparr> # records, final))"

definition create_persistence_checkpoint :: "AllocationFault \<Rightarrow> MultiRaftRuntime \<Rightarrow>
    MultiRaftRuntime \<times> GroupPersistentState list result" where
  "create_persistence_checkpoint fault r =
     (if failed_state r then (r, Inl kUnavailable)
      else if groups r = [] then (r, Inl kInvalidArgument)
      else if group_count r > unat (- 1 - physical_sequence r) then (fail_closed r, Inl kOutOfRange)
      else if throws fault then (r, Inl kResourceExhausted)
      else case checkpoint_states (physical_sequence r) (groups r) of
        (records, sq) \<Rightarrow> (r\<lparr>physical_sequence := sq\<rparr>, Inr records))"

section \<open>Invariant and contract\<close>

definition group_wf :: "NodeId \<Rightarrow> RaftLimits \<Rightarrow> GroupId \<Rightarrow> RaftNode \<Rightarrow> bool" where
  "group_wf nid lim g n =
     (\<not> is_nil g \<and> node_wf n \<and> fanout_wf n \<and> node_id n = nid \<and> limits n = lim)"

definition runtime_wf :: "MultiRaftRuntime \<Rightarrow> bool" where
  "runtime_wf r =
     (ordered_map.holds (group_wf (local_node_id r) (raft_limits (runtime_limits r))) (groups r) \<and>
      group_count r \<le> maximum_groups (runtime_limits r) \<and>
      core_outbound (raft_limits (runtime_limits r)) \<le> maximum_queued_outbound (runtime_limits r))"

text \<open>How the persistent state of a group moves: terms and indexes never decrease, a committed entry
  that is still in the log is never replaced, and a vote is kept for its term.\<close>

definition state_advances :: "PersistentState \<Rightarrow> PersistentState \<Rightarrow> bool" where
  "state_advances st st' =
     (current_term st \<le> current_term st' \<and> commit_index st \<le> commit_index st' \<and>
      applied_index st \<le> applied_index st' \<and> snapshot_index st \<le> snapshot_index st' \<and>
      committed_stable st st' \<and>
      (current_term st' = current_term st \<and> voted_for st \<noteq> None \<longrightarrow> voted_for st' = voted_for st))"

text \<open>A state that changed leaves the runtime numbered with the next physical sequence.\<close>

definition persisted :: "GroupId \<Rightarrow> MultiRaftRuntime \<Rightarrow> MultiRaftRuntime \<Rightarrow> RaftNode \<Rightarrow> RaftNode \<Rightarrow>
    GroupPersistentState option \<Rightarrow> bool" where
  "persisted g r r' n n' p =
     (case p of
        None \<Rightarrow> state n' = state n \<and> physical_sequence r' = physical_sequence r
      | Some gps \<Rightarrow>
          physical_sequence r \<noteq> - 1 \<and> physical_sequence r' = physical_sequence r + 1 \<and>
          gps = \<lparr>gps_group_id = g, gps_physical_sequence = physical_sequence r', gps_state = state n'\<rparr>)"

definition runtime_step :: "nat \<Rightarrow> GroupId \<Rightarrow> MultiRaftRuntime \<Rightarrow>
    MultiRaftRuntime \<times> MultiRaftTransition outcome \<Rightarrow> bool" where
  "runtime_step k g r result =
     (case result of
        (r', Inl f) \<Rightarrow>
          f \<noteq> OutOfRangeThrown \<and> (r' = r \<or> physical_sequence r = - 1 \<and> r' = fail_closed r)
      | (r', Inr tr) \<Rightarrow>
          runtime_wf r' \<and> \<not> failed_state r \<and> \<not> failed_state r' \<and>
          local_node_id r' = local_node_id r \<and> runtime_limits r' = runtime_limits r \<and>
          map fst (groups r') = map fst (groups r) \<and>
          (\<forall>g'. g' \<noteq> g \<longrightarrow> find_group r' g' = find_group r g') \<and>
          length (mt_outbound tr) \<le> k \<and>
          (case (find_group r g, find_group r' g) of
             (Some n, Some n') \<Rightarrow>
               state_advances (state n) (state n') \<and> persisted g r r' n n' (mt_persistence tr)
           | _ \<Rightarrow> False))"

section \<open>Advancing states\<close>

lemma state_advances_refl [simp]: "state_advances st st"
  by (simp add: state_advances_def committed_stable_def)

lemma state_advances_trans:
  assumes "state_advances a b" and "state_advances b c"
  shows "state_advances a c"
proof -
  have "committed_stable a c"
    using assms by (fastforce simp: state_advances_def committed_stable_def)
  then show ?thesis
    using assms by (auto simp: state_advances_def intro: order_trans)
qed

lemma operation_ok_advances: "operation_ok n (n', Inr tr) \<Longrightarrow> state_advances (state n) (state n')"
  by (auto simp: operation_ok_def state_advances_def)

section \<open>The runtime invariant\<close>

lemma set_group_simps [simp]:
  "local_node_id (set_group g n r) = local_node_id r" "runtime_limits (set_group g n r) = runtime_limits r"
  "physical_sequence (set_group g n r) = physical_sequence r" "failed_state (set_group g n r) = failed_state r"
  "groups (set_group g n r) = ordered_insert g n (groups r)"
  by (simp_all add: set_group_def)

lemma fail_closed_simps [simp]:
  "local_node_id (fail_closed r) = local_node_id r" "runtime_limits (fail_closed r) = runtime_limits r"
  "physical_sequence (fail_closed r) = physical_sequence r" "failed_state (fail_closed r)"
  "groups (fail_closed r) = groups r" "find_group (fail_closed r) = find_group r"
  by (simp_all add: fail_closed_def find_group_def fun_eq_iff)

lemma runtime_wf_ordered: "runtime_wf r \<Longrightarrow> ordered (groups r)"
  by (simp add: runtime_wf_def ordered_map.holds_def)

lemma runtime_wf_group:
  "runtime_wf r \<Longrightarrow> find_group r g = Some n \<Longrightarrow>
     group_wf (local_node_id r) (raft_limits (runtime_limits r)) g n"
  unfolding runtime_wf_def find_group_def by (blast dest: ordered_map.holds_find)

lemma runtime_wf_set_group:
  assumes "runtime_wf r" and "find_group r g \<noteq> None \<or> group_count r < maximum_groups (runtime_limits r)"
    and "group_wf (local_node_id r) (raft_limits (runtime_limits r)) g n"
  shows "runtime_wf (set_group g n r)"
  using assms runtime_wf_ordered [OF assms(1)]
  by (auto simp: runtime_wf_def group_count_def find_group_def ordered_map.size_put
      intro: ordered_map.holds_put)

lemma runtime_wf_updates [simp]:
  "runtime_wf (r\<lparr>physical_sequence := sq\<rparr>) = runtime_wf r"
  "runtime_wf (fail_closed r) = runtime_wf r"
  by (simp_all add: runtime_wf_def group_count_def)

lemma find_set_group:
  "runtime_wf r \<Longrightarrow> find_group (set_group g n r) g' = (if g' = g then Some n else find_group r g')"
  by (simp add: find_group_def ordered_map.find_put runtime_wf_ordered)

lemma ordered_insert_same_keys:
  "ordered m \<Longrightarrow> map_of m k \<noteq> None \<Longrightarrow> map fst (ordered_insert k v m) = map fst m"
proof (induction k v m rule: ordered_insert.induct)
  case (2 k v k' v' m)
  then have "k < k' \<Longrightarrow> map_of ((k', v') # m) k = None"
    by (intro ordered_find_above) (auto simp: ordered_Cons intro: less_trans)
  with 2 show ?case
    by (auto simp: ordered_Cons)
qed simp

lemma ordered_insert_same: "ordered m \<Longrightarrow> map_of m k = Some v \<Longrightarrow> ordered_insert k v m = m"
proof (induction k v m rule: ordered_insert.induct)
  case (2 k v k' v' m)
  then have "k < k' \<Longrightarrow> map_of ((k', v') # m) k = None"
    by (intro ordered_find_above) (auto simp: ordered_Cons intro: less_trans)
  with 2 show ?case
    by (auto simp: ordered_Cons)
qed simp

lemma set_group_same: "runtime_wf r \<Longrightarrow> find_group r g = Some n \<Longrightarrow> set_group g n r = r"
  by (simp add: set_group_def find_group_def ordered_insert_same runtime_wf_ordered)

lemma find_group_sequence [simp]: "find_group (r\<lparr>physical_sequence := sq\<rparr>) = find_group r"
  by (simp add: find_group_def fun_eq_iff)

section \<open>The contract of an inner operation\<close>

locale node_operation =
  fixes op :: "RaftNode \<Rightarrow> RaftNode \<times> Transition outcome" and bound :: "RaftLimits \<Rightarrow> nat"
  assumes op_ok: "node_wf n \<Longrightarrow> operation_ok n (op n)"
    and op_fanout: "node_wf n \<Longrightarrow> fanout_wf n \<Longrightarrow> fanout_ok (bound (limits n)) (op n)"
    and bound_core: "bound lim \<le> core_outbound lim"
begin

lemma op_group_wf:
  assumes "group_wf nid lim g n" and "op n = (n', Inr tr)"
  shows "group_wf nid lim g n'" and "length (outbound tr) \<le> bound lim"
    and "state_advances (state n) (state n')"
    and "persistent_state tr = None \<and> state n' = state n \<or> persistent_state tr = Some (state n')"
  using assms op_ok [of n] op_fanout [of n] operation_ok_advances [of n n' tr]
  by (auto simp: group_wf_def operation_ok_def fanout_ok_def)

lemma op_error:
  assumes "group_wf nid lim g n" and "op n = (n', Inl f)"
  shows "n' = n" and "f \<noteq> OutOfRangeThrown"
  using assms op_ok [of n] by (auto simp: group_wf_def operation_ok_def)

lemma group_operation_step:
  assumes wf: "runtime_wf r"
  shows "runtime_step (bound (raft_limits (runtime_limits r))) g r (group_operation op g r)"
proof (cases "\<not> failed_state r \<and> physical_sequence r \<noteq> - 1 \<and> find_group r g \<noteq> None")
  case False
  then show ?thesis
    by (auto simp: group_operation_def transition_group_def runtime_step_def split: option.splits)
next
  case True
  then obtain n where n: "find_group r g = Some n" by blast
  note gwf = runtime_wf_group [OF wf n]
  obtain n' out where op: "op n = (n', out)" by (cases "op n")
  have eq: "group_operation op g r = wrap g (set_group g n' r) out"
    using True n op by (simp add: group_operation_def transition_group_def)
  show ?thesis
  proof (cases out)
    case (Inl f)
    with op op_error [OF gwf] have "n' = n" "f \<noteq> OutOfRangeThrown" by simp_all
    with Inl eq n wf show ?thesis
      by (simp add: wrap_def runtime_step_def set_group_same)
  next
    case (Inr tr)
    note new = op_group_wf [OF gwf op [unfolded Inr]]
    have "runtime_wf (set_group g n' r)"
      using new(1) n wf by (intro runtime_wf_set_group) simp_all
    moreover have "length (outbound tr) \<le> maximum_queued_outbound (runtime_limits r)"
      using new(2) bound_core [of "raft_limits (runtime_limits r)"] wf unfolding runtime_wf_def by linarith
    moreover have "map fst (ordered_insert g n' (groups r)) = map fst (groups r)"
      using n runtime_wf_ordered [OF wf] by (intro ordered_insert_same_keys) (simp_all add: find_group_def)
    ultimately show ?thesis
      using Inr eq n wf True new find_set_group [OF wf]
      by (auto simp: wrap_def number_state_def runtime_step_def persisted_def Let_def)
  qed
qed

end

interpretation start_election_op: node_operation "start_election fault" core_outbound for fault
  by unfold_locales (simp_all add: start_election_ok start_election_fanout)

interpretation receive_op: node_operation "\<lambda>n. receive faults n source msg" core_outbound for faults source msg
  by unfold_locales (simp_all add: receive_ok receive_fanout)

interpretation propose_op: node_operation "\<lambda>n. propose fault n kind payload" core_outbound
  for fault kind payload
  by unfold_locales (simp_all add: propose_ok propose_fanout)

interpretation propose_exact_op: node_operation "\<lambda>n. propose_exact_retained fault n kind payload" core_outbound
  for fault kind payload
  by unfold_locales (simp_all add: propose_exact_retained_ok propose_exact_retained_fanout)

interpretation commit_current_op: node_operation "commit_current_term fault" core_outbound for fault
  by unfold_locales (simp_all add: commit_current_term_ok commit_current_term_fanout)

interpretation begin_membership_op: node_operation "\<lambda>n. begin_membership_change fault retry n vs" core_outbound
  for fault retry vs
  by unfold_locales (simp_all add: begin_membership_change_ok begin_membership_change_fanout)

interpretation finalize_membership_op: node_operation "finalize_membership_change fault retry" core_outbound
  for fault retry
  by unfold_locales (simp_all add: finalize_membership_change_ok finalize_membership_change_fanout)

interpretation complete_snapshot_op:
  node_operation "\<lambda>n. complete_snapshot_install fault n source s installed" "\<lambda>_. 1" for fault source s installed
  by unfold_locales
    (simp_all add: complete_snapshot_install_ok complete_snapshot_install_fanout [simplified] core_outbound_one)

interpretation compact_snapshot_op: node_operation "\<lambda>n. compact_snapshot prepare fault n s" "\<lambda>_. 0"
  for prepare fault s
  by unfold_locales (simp_all add: compact_snapshot_ok compact_snapshot_fanout)

interpretation heartbeat_op: node_operation heartbeat core_outbound
  by unfold_locales (simp_all add: heartbeat_ok heartbeat_fanout)

interpretation read_barrier_op: node_operation "begin_read_barrier fault" core_outbound for fault
  by unfold_locales (simp_all add: begin_read_barrier_ok begin_read_barrier_fanout)

interpretation mark_applied_op: node_operation "\<lambda>n. mark_applied fault n i" "\<lambda>_. 0" for fault i
  by unfold_locales (simp_all add: mark_applied_ok mark_applied_fanout)

section \<open>Groups and checkpoints\<close>

lemma create_runtime_wf: "create_runtime nid lim = Inr r \<Longrightarrow> runtime_wf r"
  by (auto simp: create_runtime_def runtime_wf_def group_count_def ordered_map.holds_def ordered_def
      split: if_splits)

lemma create_follower: "create nid vs st lim = Inr n \<Longrightarrow> role n = kFollower \<and> node_id n = nid \<and> limits n = lim"
  by (auto simp: create_def create_checked_def initial_node_def Let_def make_unexpected_def
      split: if_splits sum.splits)

lemma add_group_wf:
  assumes "runtime_wf r"
  shows "runtime_wf (fst (add_group r g vs st sq))"
proof -
  have "group_wf (local_node_id r) (raft_limits (runtime_limits r)) g n"
    if "create (local_node_id r) vs st (raft_limits (runtime_limits r)) = Inr n" "\<not> is_nil g" for n
    using create_wf [OF that(1)] create_follower [OF that(1)] that(2) by (simp add: group_wf_def fanout_follower)
  with assms show ?thesis
    by (auto simp: add_group_def group_count_def split: sum.splits intro!: runtime_wf_set_group)
qed

lemma remove_group_wf: "runtime_wf r \<Longrightarrow> runtime_wf (fst (remove_group r g))"
  by (auto simp: remove_group_def runtime_wf_def group_count_def find_group_def ordered_map.size_erase
      ordered_map.holds_def ordered_map.erase_ok ordered_map.find_erase)

lemma checkpoint_states_records:
  "checkpoint_states sq gs = (records, final) \<Longrightarrow>
   final = sq + of_nat (length gs) \<and>
   records = map2 (\<lambda>(g, n) i. \<lparr>gps_group_id = g, gps_physical_sequence = sq + of_nat (Suc i), gps_state = state n\<rparr>)
               gs [0..<length gs]"
proof (induction sq gs arbitrary: records final rule: checkpoint_states.induct)
  case (2 sq g n rest)
  obtain records' where rest: "checkpoint_states (sq + 1) rest = (records', final)"
      and records: "records = \<lparr>gps_group_id = g, gps_physical_sequence = sq + 1, gps_state = state n\<rparr> # records'"
    using 2(2) by (auto split: prod.splits)
  show ?case
    using 2(1) [OF rest] unfolding records
    by (simp add: upt_conv_Cons map_Suc_upt [symmetric] zip_map2 comp_def case_prod_beta add.assoc
        del: upt_Suc map_Suc_upt)
qed simp

lemma checkpoint_wf: "runtime_wf r \<Longrightarrow> runtime_wf (fst (create_persistence_checkpoint fault r))"
  by (auto simp: create_persistence_checkpoint_def split: prod.splits)

end
