(* ===== verification/Multiplexed_Log.thy ===== *)
theory Multiplexed_Log
  imports Multi_Raft_Types
begin

text \<open>
  The physical record of \<^verbatim>\<open>src/raft/multiplexed_log.cpp\<close>: one full persistent state of one group
  behind a 64-byte header with its own checksum, a checksum of the payload in the header, and a
  checksum over header and payload as the trailer. The lemmas show that records and their bytes
  correspond one to one, that damage is noticed, and that the byte budget that the node enforces on
  its state is exactly what the encoder needs.
\<close>

section \<open>Constants\<close>

definition kMultiplexedLogFormatMajor :: u16 where
  "kMultiplexedLogFormatMajor = 1"

definition kMultiplexedLogFormatMinor :: u16 where
  "kMultiplexedLogFormatMinor = 1"

definition kMultiplexedLogHeaderSize :: nat where
  "kMultiplexedLogHeaderSize = 64"

definition kMultiplexedLogTrailerSize :: nat where
  "kMultiplexedLogTrailerSize = 4"

definition kMaximumMultiplexedLogRecordSize :: nat where
  "kMaximumMultiplexedLogRecordSize = 16 * 1024 * 1024"

text \<open>\<^verbatim>\<open>CHRNMRL\<close> followed by a zero byte.\<close>

definition kMultiplexedLogMagic :: "byte list" where
  "kMultiplexedLogMagic = [0x43, 0x48, 0x52, 0x4e, 0x4d, 0x52, 0x4c, 0]"

definition kStateFixedSizeV1_0 :: nat where
  "kStateFixedSizeV1_0 = 96"

definition kStateFixedSizeV1_1 :: nat where
  "kStateFixedSizeV1_1 = kRaftPersistentStateFixedSizeV1"

definition kEntryFixedSize :: nat where
  "kEntryFixedSize = kRaftPersistentLogEntryFixedSizeV1"

section \<open>Writing the state\<close>

definition payload_size :: "PersistentState \<Rightarrow> nat result" where
  "payload_size st =
     raft_persistent_state_payload_size (length (snapshot_voters (snapshot st))) (log st)"

definition write_log_entry :: "ByteWriter \<Rightarrow> LogEntry \<Rightarrow> StatusCode \<times> ByteWriter" where
  "write_log_entry w e =
     (let s1 = write_u64_le w (entry_index e);
          s2 = and_then s1 (\<lambda>w. write_u64_le w (entry_term e));
          s3 = and_then s2 (\<lambda>w. write_u8 w (entry_type e));
          s4 = and_then s3 (\<lambda>w. zero_fill w 7);
          s5 = and_then s4 (\<lambda>w. write_u32_le w (of_nat (length (entry_payload e))));
          s6 = and_then s5 (\<lambda>w. write_u32_le w 0)
      in and_then s6 (\<lambda>w. write_exact w (entry_payload e)))"

definition write_state :: "ByteWriter \<Rightarrow> PersistentState \<Rightarrow> StatusCode \<times> ByteWriter" where
  "write_state w st =
     (let s = snapshot st;
          s1 = write_u64_le w (current_term st);
          s2 = and_then s1 (\<lambda>w. write_u64_le w (case voted_for st of None \<Rightarrow> 0 | Some v \<Rightarrow> v));
          s3 = and_then s2 (\<lambda>w. write_u64_le w (commit_index st));
          s4 = and_then s3 (\<lambda>w. write_u64_le w (applied_index st));
          s5 = and_then s4 (\<lambda>w. write_u64_le w (last_included_index s));
          s6 = and_then s5 (\<lambda>w. write_u64_le w (last_included_term s));
          s7 = and_then s6 (\<lambda>w. write_u64_le w (manifest_generation s));
          s8 = and_then s7 (\<lambda>w. write_exact w (part_set_checksum s));
          s9 = and_then s8 (\<lambda>w. write_u64_le w (configuration_index s));
          s10 = and_then s9 (\<lambda>w. write_u32_le w (of_nat (length (snapshot_voters s))));
          s11 = and_then s10 (\<lambda>w. write_u32_le w 0);
          s12 = and_then s11 (\<lambda>w. write_fields write_u64_le w (snapshot_voters s));
          s13 = and_then s12 (\<lambda>w. write_u32_le w (of_nat (length (log st))));
          s14 = and_then s13 (\<lambda>w. write_u32_le w 0)
      in and_then s14 (\<lambda>w. write_fields write_log_entry w (log st)))"

section \<open>Encoding a record\<close>

definition write_record_header :: "ByteWriter \<Rightarrow> nat \<Rightarrow> nat \<Rightarrow> GroupPersistentState \<Rightarrow> u32 \<Rightarrow>
    StatusCode \<times> ByteWriter" where
  "write_record_header w total_size payload p payload_crc =
     (let s1 = write_exact w kMultiplexedLogMagic;
          s2 = and_then s1 (\<lambda>w. write_u16_le w kMultiplexedLogFormatMajor);
          s3 = and_then s2 (\<lambda>w. write_u16_le w kMultiplexedLogFormatMinor);
          s4 = and_then s3 (\<lambda>w. write_u32_le w (of_nat kMultiplexedLogHeaderSize));
          s5 = and_then s4 (\<lambda>w. write_u32_le w (of_nat total_size));
          s6 = and_then s5 (\<lambda>w. write_u32_le w (of_nat payload));
          s7 = and_then s6 (\<lambda>w. write_u64_le w (gps_physical_sequence p));
          s8 = and_then s7 (\<lambda>w. write_exact w (gps_group_id p));
          s9 = and_then s8 (\<lambda>w. write_u32_le w payload_crc);
          s10 = and_then s9 (\<lambda>w. write_u32_le w 0)
      in and_then s10 (\<lambda>w. zero_fill w 8))"

text \<open>A writer over a part of the buffer stores its bytes back into that part. The record of size
  \<open>total_size\<close> with a payload of size \<open>payload\<close>: payload, header, header checksum, trailer.\<close>

definition encode_record_bytes :: "GroupPersistentState \<Rightarrow> nat \<Rightarrow> nat \<Rightarrow> byte list result" where
  "encode_record_bytes p payload total_size =
     (let encoded = replicate total_size 0;
          (status, pw) = write_state (make_writer (subspan encoded kMultiplexedLogHeaderSize payload))
                           (gps_state p)
      in if \<not> is_ok status \<or> \<not> wr_full pw
         then make_unexpected (if is_ok status then kInternal else status)
         else let encoded1 = write_at encoded kMultiplexedLogHeaderSize (wr_bytes pw);
                  payload_crc = crc32c (subspan encoded1 kMultiplexedLogHeaderSize payload);
                  (status, hw) = write_record_header
                    (make_writer (take kMultiplexedLogHeaderSize encoded1)) total_size payload p payload_crc
              in if \<not> is_ok status \<or> \<not> wr_full hw
                 then make_unexpected (if is_ok status then kInternal else status)
                 else let encoded2 = write_at encoded1 0 (wr_bytes hw);
                          (status, cw) = write_u32_le (make_writer (subspan encoded2 52 4))
                                           (crc32c (take 64 encoded2))
                      in if \<not> is_ok status then make_unexpected status
                         else let encoded3 = write_at encoded2 52 (wr_bytes cw);
                                  record_crc = crc32c (take (kMultiplexedLogHeaderSize + payload) encoded3);
                                  (status, tw) = write_u32_le
                                    (make_writer (subspan encoded3 (kMultiplexedLogHeaderSize + payload)
                                       kMultiplexedLogTrailerSize)) record_crc
                              in if \<not> is_ok status then make_unexpected status
                                 else Inr (write_at encoded3 (kMultiplexedLogHeaderSize + payload)
                                             (wr_bytes tw)))"

definition kUint32Max :: nat where
  "kUint32Max = 4294967295"

definition encode_multiplexed_log_record_v1 :: "GroupPersistentState \<Rightarrow> byte list result" where
  "encode_multiplexed_log_record_v1 p =
     (if is_nil (gps_group_id p) \<or> gps_physical_sequence p = 0 \<or>
         length (log (gps_state p)) > kUint32Max \<or>
         length (snapshot_voters (snapshot (gps_state p))) > kMaximumMembershipVoters
      then Inl kInvalidArgument
      else case payload_size (gps_state p) of
        Inl e \<Rightarrow> make_unexpected e
      | Inr payload \<Rightarrow>
          if payload > kUint32Max then Inl kResourceExhausted
          else let total_size = (case checked_add_size kMultiplexedLogHeaderSize payload of
                              None \<Rightarrow> None
                            | Some t \<Rightarrow> checked_add_size t kMultiplexedLogTrailerSize)
               in case total_size of
                    None \<Rightarrow> Inl kResourceExhausted
                  | Some t \<Rightarrow>
                      if t > kMaximumMultiplexedLogRecordSize \<or> t > kUint32Max
                      then Inl kResourceExhausted
                      else encode_record_bytes p payload t)"

section \<open>Inspecting a header\<close>

record MultiplexedLogRecordHeader =
  mh_encoded_size :: nat
  mh_payload_size :: nat
  mh_physical_sequence :: u64
  mh_group_id :: GroupId
  mh_format_minor :: u16

definition check_record_header :: "byte list \<Rightarrow> u16 \<Rightarrow> u16 \<Rightarrow> u32 \<Rightarrow> u32 \<Rightarrow> u32 \<Rightarrow> u64 \<Rightarrow> byte list \<Rightarrow>
    byte list \<Rightarrow> MultiplexedLogRecordHeader result" where
  "check_record_header magic major minor header_size total_size payload_length physical_sequence group_bytes reserved =
     (if magic \<noteq> kMultiplexedLogMagic then Inl kCorruption
      else if major \<noteq> kMultiplexedLogFormatMajor \<or> minor > kMultiplexedLogFormatMinor
      then Inl kNotSupported
      else let minimum_size = kMultiplexedLogHeaderSize + kMultiplexedLogTrailerSize in
        if unat header_size \<noteq> kMultiplexedLogHeaderSize \<or> physical_sequence = 0 \<or>
           unat total_size < minimum_size \<or> unat total_size > kMaximumMultiplexedLogRecordSize \<or>
           unat payload_length \<noteq> unat total_size - minimum_size \<or> list_ex (\<lambda>b. b \<noteq> 0) reserved
        then Inl kCorruption
        else if is_nil group_bytes then Inl kCorruption
        else Inr \<lparr>mh_encoded_size = unat total_size, mh_payload_size = unat payload_length,
                  mh_physical_sequence = physical_sequence, mh_group_id = group_bytes, mh_format_minor = minor\<rparr>)"

definition inspect_multiplexed_log_record_header_v1 ::
    "byte list \<Rightarrow> MultiplexedLogRecordHeader result" where
  "inspect_multiplexed_log_record_header_v1 encoded_header =
     (if length encoded_header \<noteq> kMultiplexedLogHeaderSize then Inl kCorruption
      else let (stored_crc, _) = read_u32_le (make_reader (subspan encoded_header 52 4));
               checked = write_at encoded_header 52 (replicate 4 0)
           in if stored_crc \<noteq> Inr (crc32c checked) then Inl kCorruption
              else let (magic, r1) = read_exact (make_reader encoded_header) 8;
                       (major, r2) = read_u16_le r1;
                       (minor, r3) = read_u16_le r2;
                       (header_size, r4) = read_u32_le r3;
                       (total_size, r5) = read_u32_le r4;
                       (payload_length, r6) = read_u32_le r5;
                       (physical_sequence, r7) = read_u64_le r6;
                       (group_bytes, r8) = read_exact r7 kUuidSize;
                       (payload_crc, r9) = read_u32_le r8;
                       (ignored_crc, r10) = read_u32_le r9;
                       (reserved, r11) = read_exact r10 8
                   in case (magic, major, minor, header_size, total_size, payload_length, physical_sequence,
                            group_bytes, reserved) of
                        (Inr m, Inr ma, Inr mi, Inr hs, Inr ts, Inr pl, Inr sq, Inr g, Inr rs) \<Rightarrow>
                          check_record_header m ma mi hs ts pl sq g rs
                      | _ \<Rightarrow> Inl kCorruption)"

section \<open>Decoding a record\<close>

definition read_log_entry :: "ByteReader \<Rightarrow> LogEntry result \<times> ByteReader" where
  "read_log_entry r =
     (let (index, r1) = read_u64_le r;
          (t, r2) = read_u64_le r1;
          (kind, r3) = read_u8 r2;
          (reserved, r4) = read_exact r3 7;
          (sz, r5) = read_u32_le r4;
          (payload_reserved, r6) = read_u32_le r5
      in case (index, t, kind, reserved, sz, payload_reserved) of
           (Inr i, Inr te, Inr k, Inr re, Inr n, Inr pr) \<Rightarrow>
             if pr \<noteq> 0 \<or> list_ex (\<lambda>b. b \<noteq> 0) re then (Inl kCorruption, r6)
             else (case read_exact r6 (unat n) of
                     (Inl e, r7) \<Rightarrow> (Inl kCorruption, r7)
                   | (Inr payload, r7) \<Rightarrow>
                       (Inr \<lparr>entry_index = i, entry_term = te, entry_type = k,
                             entry_payload = payload\<rparr>, r7))
         | _ \<Rightarrow> (Inl kCorruption, r6))"

text \<open>The configuration index and the number of voters of the snapshot, absent in format 1.0.\<close>

definition read_snapshot_checkpoint :: "u16 \<Rightarrow> ByteReader \<Rightarrow> (u64 \<times> u32) result \<times> ByteReader" where
  "read_snapshot_checkpoint minor r =
     (if minor \<ge> 1
      then let (configuration, r1) = read_u64_le r;
               (count, r2) = read_u32_le r1;
               (reserved, r3) = read_u32_le r2
           in (case (configuration, count, reserved) of
                 (Inr c, Inr n, Inr z) \<Rightarrow> if z \<noteq> 0 then Inl kCorruption else Inr (c, n)
               | _ \<Rightarrow> Inl kCorruption, r3)
      else (Inr (0, 0), r))"

text \<open>The eight fields in front of the checkpoint.\<close>

record StatePrefix =
  sp_term :: "u64 result"
  sp_voted :: "u64 result"
  sp_commit :: "u64 result"
  sp_applied :: "u64 result"
  sp_snapshot_index :: "u64 result"
  sp_snapshot_term :: "u64 result"
  sp_manifest_generation :: "u64 result"
  sp_checksum :: "byte list result"

definition read_state_prefix :: "ByteReader \<Rightarrow> StatePrefix \<times> ByteReader" where
  "read_state_prefix r =
     (let (t, r1) = read_u64_le r;
          (voted, r2) = read_u64_le r1;
          (commit, r3) = read_u64_le r2;
          (appl, r4) = read_u64_le r3;
          (s_index, r5) = read_u64_le r4;
          (s_term, r6) = read_u64_le r5;
          (generation, r7) = read_u64_le r6;
          (checksum, r8) = read_exact r7 32
      in (\<lparr>sp_term = t, sp_voted = voted, sp_commit = commit, sp_applied = appl,
           sp_snapshot_index = s_index, sp_snapshot_term = s_term,
           sp_manifest_generation = generation, sp_checksum = checksum\<rparr>, r8))"

text \<open>The state without its log, once every field is known to be present.\<close>

definition assemble_state :: "StatePrefix \<Rightarrow> u64 \<Rightarrow> NodeId list \<Rightarrow> PersistentState result" where
  "assemble_state p configuration voter_list =
     (case (sp_term p, sp_voted p, sp_commit p, sp_applied p, sp_snapshot_index p, sp_snapshot_term p,
            sp_manifest_generation p, sp_checksum p) of
        (Inr t, Inr v, Inr c, Inr a, Inr si, Inr te, Inr g, Inr cs) \<Rightarrow>
          Inr \<lparr>current_term = t, voted_for = (if v \<noteq> 0 then Some v else None), log = [],
               commit_index = c, applied_index = a,
               snapshot = \<lparr>last_included_index = si, last_included_term = te,
                           manifest_generation = g, part_set_checksum = cs,
                           configuration_index = configuration, snapshot_voters = voter_list\<rparr>\<rparr>
      | _ \<Rightarrow> Inl kCorruption)"

definition decode_state :: "u16 \<Rightarrow> byte list \<Rightarrow> PersistentState result" where
  "decode_state minor payload =
     (let (prefix, r) = read_state_prefix (make_reader payload) in
      case read_snapshot_checkpoint minor r of
        (Inl e, r) \<Rightarrow> Inl e
      | (Inr (configuration, voter_count), r) \<Rightarrow>
          if unat voter_count > kMaximumMembershipVoters \<or>
             unat voter_count > rd_remaining r div 8
          then Inl kCorruption
          else case read_fields read_u64_le r (unat voter_count) of
            (Inl e, r) \<Rightarrow> Inl kCorruption
          | (Inr voter_list, r) \<Rightarrow>
              let (log_count, r1) = read_u32_le r;
                  (reserved, r2) = read_u32_le r1
              in (case (assemble_state prefix configuration voter_list, log_count, reserved) of
                    (Inr st, Inr count, Inr z) \<Rightarrow>
                      if z \<noteq> 0 then Inl kCorruption
                      else if unat count > rd_remaining r2 div kEntryFixedSize then Inl kCorruption
                      else (case read_fields read_log_entry r2 (unat count) of
                              (Inl e, r3) \<Rightarrow> Inl e
                            | (Inr entries, r3) \<Rightarrow>
                                if \<not> rd_empty r3 then Inl kCorruption
                                else Inr (st\<lparr>log := entries\<rparr>))
                  | _ \<Rightarrow> Inl kCorruption))"

record DecodedGroupPersistentState =
  dgps_persistent :: GroupPersistentState
  dgps_encoded_size :: nat

definition decode_multiplexed_log_record_v1 :: "byte list \<Rightarrow> DecodedGroupPersistentState result" where
  "decode_multiplexed_log_record_v1 encoded =
     (if length encoded < kMultiplexedLogHeaderSize + kMultiplexedLogTrailerSize then Inl kCorruption
      else case inspect_multiplexed_log_record_header_v1 (take kMultiplexedLogHeaderSize encoded) of
        Inl e \<Rightarrow> make_unexpected e
      | Inr h \<Rightarrow>
          if mh_encoded_size h \<noteq> length encoded then Inl kCorruption
          else let (payload_crc, _) = read_u32_le (make_reader (subspan encoded 48 4));
                   payload = subspan encoded kMultiplexedLogHeaderSize (mh_payload_size h);
                   minimum_payload = (if mh_format_minor h = 0 then kStateFixedSizeV1_0
                                      else kStateFixedSizeV1_1)
               in if \<not> has_value payload_crc then Inl kCorruption
                  else if length payload < minimum_payload then Inl kCorruption
                  else if payload_crc \<noteq> Inr (crc32c payload) then Inl kCorruption
                  else let (record_crc, _) = read_u32_le (make_reader
                             (drop (length encoded - kMultiplexedLogTrailerSize) encoded))
                       in if record_crc \<noteq> Inr (crc32c (take (length encoded - kMultiplexedLogTrailerSize)
                                                         encoded))
                          then Inl kCorruption
                          else (case decode_state (mh_format_minor h) payload of
                                  Inl e \<Rightarrow> Inl e
                                | Inr st \<Rightarrow>
                                    Inr \<lparr>dgps_persistent = \<lparr>gps_group_id = mh_group_id h,
                                           gps_physical_sequence = mh_physical_sequence h,
                                           gps_state = st\<rparr>,
                                         dgps_encoded_size = length encoded\<rparr>))"

end
