(* ===== verification/Sealed_Block.thy ===== *)
theory Sealed_Block
  imports Byte_Codec Crc32c
begin

text \<open>
  Fixed-size blocks that carry the checksum of themselves: the four bytes at a fixed offset hold the
  CRC32C of the block with these bytes cleared. The headers of physical records, the headers of
  segments and the recovery anchors all have this form.
\<close>

lemma store_le_zero: "store_le n 0 = replicate n 0"
  by (simp add: store_le_def map_replicate_const)

lemma read_u32_exact: "read_u32_le (make_reader (store_le 4 v)) = (Inr v, reader_at (store_le 4 v) [])"
  using read_u32_le_at [of "[]" v "[]"] by (simp add: make_reader_at)

lemma write_u32_exact: "write_u32_le (make_writer (replicate 4 0)) v = (kOk, writer_at (store_le 4 v) 0)"
  using write_u32_le_at [of 4 "[]" v] by (simp add: make_writer_at)

lemma read_exact_end [codec_simps]:
  "length xs = n \<Longrightarrow> read_exact (reader_at pre xs) n = (Inr xs, reader_at (pre @ xs) [])"
  using read_exact_at [of xs n pre "[]"] by simp

lemma and_then_ok [codec_simps]: "and_then (kOk, w) f = f w"
  by (simp add: and_then_def is_ok_def)

lemma zero_list: "\<not> list_ex (\<lambda>b. b \<noteq> 0) xs \<longleftrightarrow> xs = replicate (length xs) (0 :: byte)"
  by (auto simp: list_ex_iff intro!: replicate_eqI) (metis in_set_replicate)

lemma split_u32:
  assumes "4 \<le> length bs"
  obtains v :: u32 and tail where "bs = store_le 4 v @ tail" "length tail = length bs - 4"
proof
  show "bs = store_le 4 (load_le (take 4 bs) :: u32) @ drop 4 bs"
    using assms by (simp add: store_load_le)
qed simp

lemma store_u32_inject [simp]: "store_le 4 (a :: u32) = store_le 4 b \<longleftrightarrow> a = b"
  by (metis Pair_inject read_u32_exact sum.inject(2))

locale sealed_block =
  fixes image :: "'a \<Rightarrow> u32 \<Rightarrow> byte list" and offset :: nat and ok :: "'a \<Rightarrow> bool"
  assumes split: "ok x \<Longrightarrow> \<exists>front back. length front = offset \<and> (\<forall>crc. image x crc = front @ store_le 4 crc @ back)"
begin

definition sealed :: "'a \<Rightarrow> byte list" where
  "sealed x = image x (crc32c (image x 0))"

lemma stored: "ok x \<Longrightarrow> subspan (image x crc) offset 4 = store_le 4 crc"
  using split [of x] by (auto simp: subspan_def)

lemma cleared: "ok x \<Longrightarrow> write_at (image x crc) offset (replicate 4 0) = image x 0"
  using split [of x] by (auto simp: write_at_eq store_le_zero)

lemma blank: "ok x \<Longrightarrow> subspan (image x 0 @ ys) offset 4 = replicate 4 0"
  using split [of x] by (auto simp: subspan_def store_le_zero)

lemma seal: "ok x \<Longrightarrow> write_at (image x 0 @ ys) offset (store_le 4 crc) = image x crc @ ys"
  using split [of x] by (auto simp: write_at_eq)

lemma check_iff:
  "ok x \<Longrightarrow> fst (read_u32_le (make_reader (subspan (image x crc) offset 4))) =
     Inr (crc32c (write_at (image x crc) offset (replicate 4 0))) \<longleftrightarrow> image x crc = sealed x"
  using split [of x] by (simp add: stored cleared read_u32_exact sealed_def) auto

lemma check_sealed:
  "ok x \<Longrightarrow> fst (read_u32_le (make_reader (subspan (sealed x) offset 4))) =
     Inr (crc32c (write_at (sealed x) offset (replicate 4 0)))"
  using check_iff [of x "crc32c (image x 0)"] by (simp add: sealed_def)

end

end
