(* ===== verification/Segment_Codec.thy ===== *)
theory Segment_Codec
  imports Multiplexed_Log Sealed_Block
begin

text \<open>
  The fixed blocks and the file names of \<^verbatim>\<open>src/raft/persistent_log.cpp\<close>: segment headers, recovery
  anchors, and the names that carry the number of a segment or an anchor in twenty decimal digits.
\<close>

section \<open>Constants\<close>

definition kRaftSegmentHeaderSize :: nat where
  "kRaftSegmentHeaderSize = 64"

definition kRecoveryAnchorSize :: nat where
  "kRecoveryAnchorSize = 64"

definition kMaximumRaftSegmentSize :: nat where
  "kMaximumRaftSegmentSize = 1024 * 1024 * 1024"

definition kSegmentMagic :: "byte list" where
  "kSegmentMagic = [0x43, 0x48, 0x52, 0x4e, 0x52, 0x53, 0x47, 0]"

definition kRecoveryAnchorMagic :: "byte list" where
  "kRecoveryAnchorMagic = [0x43, 0x48, 0x52, 0x4e, 0x52, 0x42, 0x41, 0]"

definition kSegmentMajor :: u16 where
  "kSegmentMajor = 1"

definition kSegmentMinor :: u16 where
  "kSegmentMinor = 0"

definition kRecoveryAnchorMajor :: u16 where
  "kRecoveryAnchorMajor = 1"

definition kRecoveryAnchorMinor :: u16 where
  "kRecoveryAnchorMinor = 0"

definition kLockName :: string where
  "kLockName = ''LOCK''"

definition kSegmentPrefix :: string where
  "kSegmentPrefix = ''raft-''"

definition kSegmentSuffix :: string where
  "kSegmentSuffix = ''.rlog''"

definition kTemporarySuffix :: string where
  "kTemporarySuffix = ''.tmp''"

definition kRecoveryAnchorPrefix :: string where
  "kRecoveryAnchorPrefix = ''raft-base-''"

definition kRecoveryAnchorSuffix :: string where
  "kRecoveryAnchorSuffix = ''.rbase''"

definition kRecoveryAnchorTemporarySuffix :: string where
  "kRecoveryAnchorTemporarySuffix = ''.rbase.tmp''"

definition kSegmentDigits :: nat where
  "kSegmentDigits = 20"

section \<open>Names\<close>

text \<open>\<^verbatim>\<open>std::to_chars\<close> and \<^verbatim>\<open>std::from_chars\<close> in base ten. The parser stops at the first character that
  is no digit and fails without a digit or when the value does not fit; it returns the number and
  what is left of the text.\<close>

definition digit_char :: "nat \<Rightarrow> char" where
  "digit_char d = char_of (48 + d)"

definition is_digit :: "char \<Rightarrow> bool" where
  "is_digit c = (48 \<le> (of_char c :: nat) \<and> (of_char c :: nat) \<le> 57)"

definition digit_value :: "char \<Rightarrow> nat" where
  "digit_value c = of_char c - 48"

fun to_chars :: "nat \<Rightarrow> string" where
  "to_chars n = (if n < 10 then [digit_char n] else to_chars (n div 10) @ [digit_char (n mod 10)])"

declare to_chars.simps [simp del]

definition decimal_value :: "string \<Rightarrow> nat" where
  "decimal_value s = foldl (\<lambda>v c. v * 10 + digit_value c) 0 s"

definition from_chars :: "string \<Rightarrow> (u64 \<times> string) option" where
  "from_chars s =
     (let ds = takeWhile is_digit s; v = decimal_value ds in
      if ds = [] \<or> v \<ge> 2 ^ 64 then None else Some (of_nat v, dropWhile is_digit s))"

definition starts_with :: "string \<Rightarrow> string \<Rightarrow> bool" where
  "starts_with name part = (take (length part) name = part)"

definition ends_with :: "string \<Rightarrow> string \<Rightarrow> bool" where
  "ends_with name part = (length part \<le> length name \<and> drop (length name - length part) name = part)"

text \<open>The number in \<^verbatim>\<open>kSegmentDigits\<close> characters, filled with zeros in front.\<close>

definition padded_digits :: "u64 \<Rightarrow> string" where
  "padded_digits number =
     (let ds = to_chars (unat number) in replicate (kSegmentDigits - length ds) (CHR ''0'') @ ds)"

definition segment_name :: "u64 \<Rightarrow> string \<Rightarrow> string" where
  "segment_name number suffix = kSegmentPrefix @ padded_digits number @ suffix"

definition parse_segment_name :: "string \<Rightarrow> u64 result" where
  "parse_segment_name name =
     (if length name \<noteq> length kSegmentPrefix + kSegmentDigits + length kSegmentSuffix \<or>
         \<not> starts_with name kSegmentPrefix \<or> \<not> ends_with name kSegmentSuffix
      then Inl kInvalidArgument
      else case from_chars (take kSegmentDigits (drop (length kSegmentPrefix) name)) of
        None \<Rightarrow> Inl kInvalidArgument
      | Some (number, rest) \<Rightarrow>
          if rest \<noteq> [] \<or> number = 0 then Inl kInvalidArgument else Inr number)"

definition is_temporary_name :: "string \<Rightarrow> bool" where
  "is_temporary_name name =
     (length name = length kSegmentPrefix + kSegmentDigits + length kTemporarySuffix \<and>
      starts_with name kSegmentPrefix \<and> ends_with name kTemporarySuffix \<and>
      list_all is_digit (take kSegmentDigits (drop (length kSegmentPrefix) name)))"

definition recovery_anchor_name :: "u64 \<Rightarrow> string \<Rightarrow> string" where
  "recovery_anchor_name number suffix = kRecoveryAnchorPrefix @ padded_digits number @ suffix"

definition parse_recovery_anchor_name :: "string \<Rightarrow> string \<Rightarrow> u64 result" where
  "parse_recovery_anchor_name name suffix =
     (if length name \<noteq> length kRecoveryAnchorPrefix + kSegmentDigits + length suffix \<or>
         \<not> starts_with name kRecoveryAnchorPrefix \<or> \<not> ends_with name suffix
      then Inl kInvalidArgument
      else case from_chars (take kSegmentDigits (drop (length kRecoveryAnchorPrefix) name)) of
        None \<Rightarrow> Inl kInvalidArgument
      | Some (number, rest) \<Rightarrow>
          if rest \<noteq> [] \<or> number = 0 then Inl kInvalidArgument else Inr number)"

definition is_recovery_anchor_temporary_name :: "string \<Rightarrow> bool" where
  "is_recovery_anchor_temporary_name name =
     has_value (parse_recovery_anchor_name name kRecoveryAnchorTemporarySuffix)"

section \<open>Segment headers\<close>

record SegmentHeader =
  sh_number :: u64
  sh_first_sequence :: u64

definition write_segment_header :: "ByteWriter \<Rightarrow> u64 \<Rightarrow> u64 \<Rightarrow> StatusCode \<times> ByteWriter" where
  "write_segment_header w segment_number first_sequence =
     (let s1 = write_exact w kSegmentMagic;
          s2 = and_then s1 (\<lambda>w. write_u16_le w kSegmentMajor);
          s3 = and_then s2 (\<lambda>w. write_u16_le w kSegmentMinor);
          s4 = and_then s3 (\<lambda>w. write_u32_le w (of_nat kRaftSegmentHeaderSize));
          s5 = and_then s4 (\<lambda>w. write_u64_le w segment_number);
          s6 = and_then s5 (\<lambda>w. write_u64_le w first_sequence);
          s7 = and_then s6 (\<lambda>w. write_u32_le w 0)
      in and_then s7 (\<lambda>w. zero_fill w 28))"

definition encode_segment_header :: "u64 \<Rightarrow> u64 \<Rightarrow> byte list result" where
  "encode_segment_header segment_number first_sequence =
     (if segment_number = 0 \<or> first_sequence = 0 then Inl kInvalidArgument
      else let (status, w) = write_segment_header (make_writer (replicate kRaftSegmentHeaderSize 0))
                               segment_number first_sequence
           in if \<not> is_ok status \<or> \<not> wr_full w
              then make_unexpected (if is_ok status then kInternal else status)
              else let bytes = wr_bytes w;
                       (status, cw) = write_u32_le (make_writer (subspan bytes 32 4)) (crc32c bytes)
                   in if \<not> is_ok status then make_unexpected status
                      else Inr (write_at bytes 32 (wr_bytes cw)))"

definition decode_segment_header :: "byte list \<Rightarrow> u64 \<Rightarrow> SegmentHeader result" where
  "decode_segment_header encoded expected_number =
     (if length encoded \<noteq> kRaftSegmentHeaderSize then Inl kCorruption
      else if fst (read_u32_le (make_reader (subspan encoded 32 4))) \<noteq>
              Inr (crc32c (write_at encoded 32 (replicate 4 0)))
      then Inl kCorruption
      else let (magic, r1) = read_exact (make_reader encoded) 8;
               (major, r2) = read_u16_le r1;
               (minor, r3) = read_u16_le r2;
               (header_size, r4) = read_u32_le r3;
               (number, r5) = read_u64_le r4;
               (first_sequence, r6) = read_u64_le r5;
               (ignored, r7) = read_u32_le r6;
               (reserved, r8) = read_exact r7 28
           in case (magic, major, minor, header_size, number, first_sequence, reserved) of
                (Inr m, Inr ma, Inr mi, Inr hs, Inr n, Inr f, Inr rs) \<Rightarrow>
                  if m \<noteq> kSegmentMagic then Inl kCorruption
                  else if ma \<noteq> kSegmentMajor \<or> mi > kSegmentMinor then Inl kNotSupported
                  else if unat hs \<noteq> kRaftSegmentHeaderSize \<or> n \<noteq> expected_number \<or> f = 0 \<or>
                          list_ex (\<lambda>b. b \<noteq> 0) rs
                  then Inl kCorruption
                  else Inr \<lparr>sh_number = n, sh_first_sequence = f\<rparr>
              | _ \<Rightarrow> Inl kCorruption)"

section \<open>Recovery anchors\<close>

record RecoveryAnchor =
  ra_base_segment_number :: u64
  ra_checkpoint_first_sequence :: u64
  ra_checkpoint_last_sequence :: u64
  ra_checkpoint_group_count :: u64

definition anchor_valid :: "RecoveryAnchor \<Rightarrow> bool" where
  "anchor_valid a =
     (ra_checkpoint_first_sequence a \<noteq> 0 \<and>
      ra_checkpoint_first_sequence a \<le> ra_checkpoint_last_sequence a \<and>
      ra_checkpoint_group_count a \<noteq> 0 \<and>
      ra_checkpoint_last_sequence a - ra_checkpoint_first_sequence a + 1 = ra_checkpoint_group_count a)"

definition write_recovery_anchor :: "ByteWriter \<Rightarrow> RecoveryAnchor \<Rightarrow> StatusCode \<times> ByteWriter" where
  "write_recovery_anchor w a =
     (let s1 = write_exact w kRecoveryAnchorMagic;
          s2 = and_then s1 (\<lambda>w. write_u16_le w kRecoveryAnchorMajor);
          s3 = and_then s2 (\<lambda>w. write_u16_le w kRecoveryAnchorMinor);
          s4 = and_then s3 (\<lambda>w. write_u32_le w (of_nat kRecoveryAnchorSize));
          s5 = and_then s4 (\<lambda>w. write_u64_le w (ra_base_segment_number a));
          s6 = and_then s5 (\<lambda>w. write_u64_le w (ra_checkpoint_first_sequence a));
          s7 = and_then s6 (\<lambda>w. write_u64_le w (ra_checkpoint_last_sequence a));
          s8 = and_then s7 (\<lambda>w. write_u64_le w (ra_checkpoint_group_count a));
          s9 = and_then s8 (\<lambda>w. write_u32_le w 0)
      in and_then s9 (\<lambda>w. zero_fill w 12))"

definition encode_recovery_anchor :: "RecoveryAnchor \<Rightarrow> byte list result" where
  "encode_recovery_anchor a =
     (if ra_base_segment_number a = 0 \<or> \<not> anchor_valid a then Inl kInvalidArgument
      else let (status, w) = write_recovery_anchor (make_writer (replicate kRecoveryAnchorSize 0)) a
           in if \<not> is_ok status \<or> \<not> wr_full w
              then make_unexpected (if is_ok status then kInternal else status)
              else let bytes = wr_bytes w;
                       (status, cw) = write_u32_le (make_writer (subspan bytes 48 4)) (crc32c bytes)
                   in if \<not> is_ok status then make_unexpected status
                      else Inr (write_at bytes 48 (wr_bytes cw)))"

definition decode_recovery_anchor :: "byte list \<Rightarrow> u64 \<Rightarrow> RecoveryAnchor result" where
  "decode_recovery_anchor encoded expected_number =
     (if length encoded \<noteq> kRecoveryAnchorSize then Inl kCorruption
      else if fst (read_u32_le (make_reader (subspan encoded 48 4))) \<noteq>
              Inr (crc32c (write_at encoded 48 (replicate 4 0)))
      then Inl kCorruption
      else let (magic, r1) = read_exact (make_reader encoded) 8;
               (major, r2) = read_u16_le r1;
               (minor, r3) = read_u16_le r2;
               (header_size, r4) = read_u32_le r3;
               (base, r5) = read_u64_le r4;
               (first_sequence, r6) = read_u64_le r5;
               (last_sequence, r7) = read_u64_le r6;
               (group_count, r8) = read_u64_le r7;
               (ignored, r9) = read_u32_le r8;
               (reserved, r10) = read_exact r9 12
           in case (magic, major, minor, header_size, base, first_sequence, last_sequence, group_count, reserved) of
                (Inr m, Inr ma, Inr mi, Inr hs, Inr b, Inr f, Inr l, Inr c, Inr rs) \<Rightarrow>
                  let a = \<lparr>ra_base_segment_number = b, ra_checkpoint_first_sequence = f,
                           ra_checkpoint_last_sequence = l, ra_checkpoint_group_count = c\<rparr> in
                  if m \<noteq> kRecoveryAnchorMagic then Inl kCorruption
                  else if ma \<noteq> kRecoveryAnchorMajor \<or> mi > kRecoveryAnchorMinor then Inl kNotSupported
                  else if unat hs \<noteq> kRecoveryAnchorSize \<or> b \<noteq> expected_number \<or> \<not> anchor_valid a \<or>
                          list_ex (\<lambda>b. b \<noteq> 0) rs
                  then Inl kCorruption
                  else Inr a
              | _ \<Rightarrow> Inl kCorruption)"

section \<open>Images\<close>

definition segment_image :: "u64 \<times> u64 \<Rightarrow> u32 \<Rightarrow> byte list" where
  "segment_image x crc =
     kSegmentMagic @ store_le 2 kSegmentMajor @ store_le 2 kSegmentMinor @ store_le 4 (64 :: u32) @
     store_le 8 (fst x) @ store_le 8 (snd x) @ store_le 4 crc @ replicate 28 0"

definition anchor_image :: "RecoveryAnchor \<Rightarrow> u32 \<Rightarrow> byte list" where
  "anchor_image a crc =
     kRecoveryAnchorMagic @ store_le 2 kRecoveryAnchorMajor @ store_le 2 kRecoveryAnchorMinor @
     store_le 4 (64 :: u32) @ store_le 8 (ra_base_segment_number a) @
     store_le 8 (ra_checkpoint_first_sequence a) @ store_le 8 (ra_checkpoint_last_sequence a) @
     store_le 8 (ra_checkpoint_group_count a) @ store_le 4 crc @ replicate 12 0"

section \<open>Numbers in names\<close>

lemma of_digit_char: "d < 10 \<Longrightarrow> (of_char (digit_char d) :: nat) = 48 + d"
  by (simp add: digit_char_def)

lemma digit_char_digit: "d < 10 \<Longrightarrow> is_digit (digit_char d)" "d < 10 \<Longrightarrow> digit_value (digit_char d) = d"
  by (simp_all add: is_digit_def digit_value_def of_digit_char)

lemma zero_digit: "is_digit (CHR ''0'')" "digit_value (CHR ''0'') = 0"
  by (simp_all add: is_digit_def digit_value_def)

lemma decimal_value_snoc: "decimal_value (s @ [c]) = decimal_value s * 10 + digit_value c"
  by (simp add: decimal_value_def)

lemma to_chars_digits: "list_all is_digit (to_chars n)"
  by (induction n rule: to_chars.induct) (subst to_chars.simps, simp add: digit_char_digit)

lemma to_chars_value: "decimal_value (to_chars n) = n"
proof (induction n rule: to_chars.induct)
  case (1 n)
  show ?case
  proof (cases "n < 10")
    case True
    then show ?thesis
      by (subst to_chars.simps) (simp add: decimal_value_def digit_char_digit)
  next
    case False
    with 1 show ?thesis
      by (subst to_chars.simps) (simp add: decimal_value_snoc digit_char_digit)
  qed
qed

lemma to_chars_length: "n < 10 ^ Suc k \<Longrightarrow> length (to_chars n) \<le> Suc k"
proof (induction k arbitrary: n)
  case 0
  then show ?case by (subst to_chars.simps) simp
next
  case (Suc k)
  then have "n div 10 < 10 ^ Suc k"
    by (simp add: div_less_iff_less_mult)
  with Suc.IH [of "n div 10"] show ?case
    by (subst to_chars.simps) simp
qed

lemma padding_value: "decimal_value (replicate k (CHR ''0'') @ s) = decimal_value s"
  by (induction k) (simp_all add: decimal_value_def zero_digit)

lemma padded_digits_digits: "list_all is_digit (padded_digits n)"
  using to_chars_digits [of "unat n"] by (auto simp: padded_digits_def Let_def list_all_iff zero_digit)

lemma padded_digits_length [simp]: "length (padded_digits n) = 20"
proof -
  have "length (to_chars (unat n)) \<le> 20"
    using to_chars_length [of "unat n" 19] unat_bound [of n] by simp
  then show ?thesis
    by (simp add: padded_digits_def Let_def kSegmentDigits_def)
qed

lemma from_chars_padded: "from_chars (padded_digits n) = Some (n, [])"
proof -
  have ds: "takeWhile is_digit (padded_digits n) = padded_digits n" "dropWhile is_digit (padded_digits n) = []"
    using padded_digits_digits [of n] by (simp_all add: takeWhile_eq_all_conv dropWhile_eq_Nil_conv list_all_iff)
  have "decimal_value (padded_digits n) = unat n"
    by (simp add: padded_digits_def Let_def padding_value to_chars_value)
  moreover have "padded_digits n \<noteq> []"
    using padded_digits_length [of n] by (metis list.size(3) zero_neq_numeral)
  ultimately show ?thesis
    using unat_bound [of n] by (simp add: from_chars_def Let_def ds not_le)
qed

lemma affix_simps [simp]:
  "starts_with (p @ s) p" "ends_with (p @ q @ s) s" "ends_with (p @ s) s"
  by (simp_all add: starts_with_def ends_with_def)

lemmas name_sizes = kSegmentPrefix_def kSegmentSuffix_def kTemporarySuffix_def kRecoveryAnchorPrefix_def
  kRecoveryAnchorSuffix_def kRecoveryAnchorTemporarySuffix_def kSegmentDigits_def kLockName_def

lemma affix_lengths [simp]:
  "length kSegmentPrefix = 5" "length kSegmentSuffix = 5" "length kTemporarySuffix = 4"
  "length kRecoveryAnchorPrefix = 10" "length kRecoveryAnchorSuffix = 6"
  "length kRecoveryAnchorTemporarySuffix = 10" "length kLockName = 4"
  by (simp_all add: name_sizes)

lemma name_lengths:
  "length (segment_name n suffix) = 25 + length suffix"
  "length (recovery_anchor_name n suffix) = 30 + length suffix"
  by (simp_all add: segment_name_def recovery_anchor_name_def)

lemma parse_segment_name_name: "n \<noteq> 0 \<Longrightarrow> parse_segment_name (segment_name n kSegmentSuffix) = Inr n"
  using from_chars_padded [of n]
  by (simp add: parse_segment_name_def segment_name_def kSegmentDigits_def)

lemma parse_anchor_name_name: "n \<noteq> 0 \<Longrightarrow> parse_recovery_anchor_name (recovery_anchor_name n s) s = Inr n"
  using from_chars_padded [of n]
  by (simp add: parse_recovery_anchor_name_def recovery_anchor_name_def kSegmentDigits_def)

text \<open>The four kinds of names differ in length.\<close>

lemma name_kinds:
  "\<not> is_temporary_name (segment_name n kSegmentSuffix)"
  "\<not> is_recovery_anchor_temporary_name (segment_name n kSegmentSuffix)"
  "parse_recovery_anchor_name (segment_name n kSegmentSuffix) kRecoveryAnchorSuffix = Inl kInvalidArgument"
  "segment_name n s \<noteq> kLockName"
  "\<not> is_temporary_name (recovery_anchor_name n kRecoveryAnchorSuffix)"
  "\<not> is_recovery_anchor_temporary_name (recovery_anchor_name n kRecoveryAnchorSuffix)"
  "recovery_anchor_name n s \<noteq> kLockName"
  "is_temporary_name (segment_name n kTemporarySuffix)"
  "n \<noteq> 0 \<Longrightarrow> is_recovery_anchor_temporary_name (recovery_anchor_name n kRecoveryAnchorTemporarySuffix)"
proof -
  show "is_temporary_name (segment_name n kTemporarySuffix)"
    using padded_digits_digits [of n]
    by (simp add: is_temporary_name_def segment_name_def kSegmentDigits_def)
  show "is_recovery_anchor_temporary_name (recovery_anchor_name n kRecoveryAnchorTemporarySuffix)" if "n \<noteq> 0"
    using that by (simp add: is_recovery_anchor_temporary_name_def parse_anchor_name_name)
qed (auto simp: is_temporary_name_def is_recovery_anchor_temporary_name_def parse_anchor_name_name
      parse_recovery_anchor_name_def name_lengths kSegmentDigits_def dest: arg_cong [of _ _ length])

section \<open>Segment headers\<close>

lemma segment_magic_lengths [simp]: "length kSegmentMagic = 8" "length kRecoveryAnchorMagic = 8"
  by (simp_all add: kSegmentMagic_def kRecoveryAnchorMagic_def)

lemma block_image_lengths [simp]: "length (segment_image x crc) = 64" "length (anchor_image a crc) = 64"
  by (simp_all add: segment_image_def anchor_image_def)

interpretation segment_block: sealed_block segment_image 32 "\<lambda>_. True"
proof
  fix x :: "u64 \<times> u64"
  let ?front = "kSegmentMagic @ store_le 2 kSegmentMajor @ store_le 2 kSegmentMinor @ store_le 4 (64 :: u32) @
     store_le 8 (fst x) @ store_le 8 (snd x)"
  show "\<exists>front back. length front = 32 \<and> (\<forall>crc. segment_image x crc = front @ store_le 4 crc @ back)"
    by (intro exI [of _ ?front] exI [of _ "replicate 28 0"]) (simp add: segment_image_def)
qed

interpretation anchor_block: sealed_block anchor_image 48 "\<lambda>_. True"
proof
  fix a :: RecoveryAnchor
  let ?front = "kRecoveryAnchorMagic @ store_le 2 kRecoveryAnchorMajor @ store_le 2 kRecoveryAnchorMinor @
     store_le 4 (64 :: u32) @ store_le 8 (ra_base_segment_number a) @
     store_le 8 (ra_checkpoint_first_sequence a) @ store_le 8 (ra_checkpoint_last_sequence a) @
     store_le 8 (ra_checkpoint_group_count a)"
  show "\<exists>front back. length front = 48 \<and> (\<forall>crc. anchor_image a crc = front @ store_le 4 crc @ back)"
    by (intro exI [of _ ?front] exI [of _ "replicate 12 0"]) (simp add: anchor_image_def)
qed

lemma sealed_lengths [simp]: "length (segment_block.sealed x) = 64" "length (anchor_block.sealed a) = 64"
  by (simp_all add: segment_block.sealed_def anchor_block.sealed_def)

lemma encode_segment_header_eq:
  assumes "n \<noteq> 0" and "f \<noteq> 0"
  shows "encode_segment_header n f = Inr (segment_block.sealed (n, f))"
proof -
  have "write_segment_header (make_writer (replicate kRaftSegmentHeaderSize 0)) n f =
      (kOk, writer_at (segment_image (n, f) 0) 0)"
    by (simp add: write_segment_header_def kRaftSegmentHeaderSize_def make_writer_at codec_simps
        segment_image_def store_le_zero del: replicate.simps)
  then show ?thesis
    using assms segment_block.blank [of "(n, f)" "[]"] segment_block.seal [of "(n, f)" "[]"]
    by (simp add: encode_segment_header_def codec_simps write_u32_exact is_ok_def segment_block.sealed_def
        Let_def del: replicate_Suc)
qed

lemma decode_segment_header_sealed:
  assumes "f \<noteq> 0"
  shows "decode_segment_header (segment_block.sealed (n, f)) n = Inr \<lparr>sh_number = n, sh_first_sequence = f\<rparr>"
  using assms segment_block.check_sealed [of "(n, f)"]
  by (simp add: decode_segment_header_def kRaftSegmentHeaderSize_def del: replicate.simps)
    (simp add: segment_block.sealed_def segment_image_def make_reader_at codec_simps zero_list
      kRaftSegmentHeaderSize_def
      del: replicate.simps)

lemma decode_segment_header_inv:
  assumes "decode_segment_header b n = Inr h"
  shows "b = segment_block.sealed (n, sh_first_sequence h)" and "sh_number h = n" and "sh_first_sequence h \<noteq> 0"
proof -
  have len: "length b = 64"
    and crc: "fst (read_u32_le (make_reader (subspan b 32 4))) = Inr (crc32c (write_at b 32 (replicate 4 0)))"
    using assms by (auto simp: decode_segment_header_def kRaftSegmentHeaderSize_def split: if_splits)
  obtain m r1 ma r2 mi r3 hs r4 k r5 f r6 ic r7 rs r8 where
      reads: "read_exact (reader_at [] b) 8 = (Inr m, r1)" "read_u16_le r1 = (Inr ma, r2)"
      "read_u16_le r2 = (Inr mi, r3)" "read_u32_le r3 = (Inr hs, r4)" "read_u64_le r4 = (Inr k, r5)"
      "read_u64_le r5 = (Inr f, r6)" "read_u32_le r6 = (ic, r7)" "read_exact r7 28 = (Inr rs, r8)"
    and fields: "m = kSegmentMagic" "ma = kSegmentMajor" "mi \<le> kSegmentMinor" "unat hs = 64" "k = n"
      "f \<noteq> 0" "\<not> list_ex (\<lambda>b. b \<noteq> 0) rs"
    and h: "h = \<lparr>sh_number = k, sh_first_sequence = f\<rparr>"
    using assms by (auto simp: decode_segment_header_def make_reader_at Let_def kRaftSegmentHeaderSize_def
        not_less split: if_splits prod.splits sum.splits)
  obtain rest where b: "b = m @ store_le 2 ma @ store_le 2 mi @ store_le 4 hs @ store_le 8 k @ store_le 8 f @ rest"
      and r6: "\<exists>pre. r6 = reader_at pre rest" and lm: "length m = 8"
    using reads(1-6) by (auto dest!: read_exact_inv u16_field.read_inv u32_field.read_inv u64_field.read_inv)
  have lr: "length rest = 28 + 4"
    using len lm b by simp
  obtain v :: u32 and tail where v: "rest = store_le 4 v @ tail" "length tail = length rest - 4"
    by (rule split_u32 [of rest]) (use lr in simp)
  then have rest: "rest = store_le 4 v @ tail" "length tail = 28"
    using lr by simp_all
  have "rs = tail"
    using reads(7,8) r6 rest(2) unfolding rest(1) by (auto simp: codec_simps)
  moreover have "mi = kSegmentMinor" "hs = 64"
    using fields(3,4) by (simp_all add: kSegmentMinor_def word_unat_eq_iff)
  ultimately have "b = segment_image (n, f) v"
    unfolding b rest using fields zero_list [of tail] rest(2) by (simp add: segment_image_def)
  with crc segment_block.check_iff [of "(n, f)" v] show "b = segment_block.sealed (n, sh_first_sequence h)"
    by (simp add: h)
  show "sh_number h = n" "sh_first_sequence h \<noteq> 0"
    using fields by (simp_all add: h)
qed

section \<open>Recovery anchors\<close>

lemma encode_recovery_anchor_eq:
  assumes "ra_base_segment_number a \<noteq> 0" and "anchor_valid a"
  shows "encode_recovery_anchor a = Inr (anchor_block.sealed a)"
proof -
  have "write_recovery_anchor (make_writer (replicate kRecoveryAnchorSize 0)) a =
      (kOk, writer_at (anchor_image a 0) 0)"
    by (simp add: write_recovery_anchor_def kRecoveryAnchorSize_def make_writer_at codec_simps
        anchor_image_def store_le_zero del: replicate.simps)
  then show ?thesis
    using assms anchor_block.blank [of a "[]"] anchor_block.seal [of a "[]"]
    by (simp add: encode_recovery_anchor_def codec_simps write_u32_exact is_ok_def anchor_block.sealed_def
        Let_def del: replicate_Suc)
qed

lemma decode_recovery_anchor_sealed:
  assumes "anchor_valid a"
  shows "decode_recovery_anchor (anchor_block.sealed a) (ra_base_segment_number a) = Inr a"
  using assms anchor_block.check_sealed [of a]
  by (simp add: decode_recovery_anchor_def kRecoveryAnchorSize_def del: replicate.simps)
    (simp add: anchor_block.sealed_def anchor_image_def make_reader_at codec_simps zero_list
      kRecoveryAnchorSize_def Let_def anchor_valid_def
      del: replicate.simps)

lemma decode_recovery_anchor_inv:
  assumes "decode_recovery_anchor b n = Inr a"
  shows "b = anchor_block.sealed a" and "ra_base_segment_number a = n" and "anchor_valid a"
proof -
  have len: "length b = 64"
    and crc: "fst (read_u32_le (make_reader (subspan b 48 4))) = Inr (crc32c (write_at b 48 (replicate 4 0)))"
    using assms by (auto simp: decode_recovery_anchor_def kRecoveryAnchorSize_def split: if_splits)
  obtain m r1 ma r2 mi r3 hs r4 k r5 f r6 l r7 c r8 ic r9 rs r10 where
      reads: "read_exact (reader_at [] b) 8 = (Inr m, r1)" "read_u16_le r1 = (Inr ma, r2)"
      "read_u16_le r2 = (Inr mi, r3)" "read_u32_le r3 = (Inr hs, r4)" "read_u64_le r4 = (Inr k, r5)"
      "read_u64_le r5 = (Inr f, r6)" "read_u64_le r6 = (Inr l, r7)" "read_u64_le r7 = (Inr c, r8)"
      "read_u32_le r8 = (ic, r9)" "read_exact r9 12 = (Inr rs, r10)"
    and fields: "m = kRecoveryAnchorMagic" "ma = kRecoveryAnchorMajor" "mi \<le> kRecoveryAnchorMinor" "unat hs = 64"
      "k = n" "anchor_valid a" "\<not> list_ex (\<lambda>b. b \<noteq> 0) rs"
    and a: "a = \<lparr>ra_base_segment_number = k, ra_checkpoint_first_sequence = f,
             ra_checkpoint_last_sequence = l, ra_checkpoint_group_count = c\<rparr>"
    using assms by (auto simp: decode_recovery_anchor_def make_reader_at Let_def kRecoveryAnchorSize_def
        not_less split: if_splits prod.splits sum.splits)
  obtain rest where b: "b = m @ store_le 2 ma @ store_le 2 mi @ store_le 4 hs @ store_le 8 k @ store_le 8 f @
      store_le 8 l @ store_le 8 c @ rest"
      and r8: "\<exists>pre. r8 = reader_at pre rest" and lm: "length m = 8"
    using reads(1-8) by (auto dest!: read_exact_inv u16_field.read_inv u32_field.read_inv u64_field.read_inv)
  have lr: "length rest = 12 + 4"
    using len lm b by simp
  obtain v :: u32 and tail where v: "rest = store_le 4 v @ tail" "length tail = length rest - 4"
    by (rule split_u32 [of rest]) (use lr in simp)
  then have rest: "rest = store_le 4 v @ tail" "length tail = 12"
    using lr by simp_all
  have "rs = tail"
    using reads(9,10) r8 rest(2) unfolding rest(1) by (auto simp: codec_simps)
  moreover have "mi = kRecoveryAnchorMinor" "hs = 64"
    using fields(3,4) by (simp_all add: kRecoveryAnchorMinor_def word_unat_eq_iff)
  ultimately have "b = anchor_image a v"
    unfolding b rest using fields zero_list [of tail] rest(2) by (simp add: anchor_image_def a)
  with crc anchor_block.check_iff [of a v] show "b = anchor_block.sealed a" by simp
  show "ra_base_segment_number a = n" "anchor_valid a"
    using fields by (simp_all add: a)
qed

end
