(* ===== verification/Multiplexed_Log_Codec.thy ===== *)
theory Multiplexed_Log_Codec
  imports Multiplexed_Log Sealed_Block
begin

text \<open>
  The byte image of a physical record, written without cursors, and the proofs that the encoder produces
  exactly this image and the decoder accepts exactly such images. From these follow the two round trips and the
  detection of damage. Entries are a \<^verbatim>\<open>codec_field\<close>, so the lemmas on sequences of fields come from
  its interpretation.
\<close>

section \<open>The wire image\<close>

definition entry_image :: "LogEntry \<Rightarrow> byte list" where
  "entry_image e =
     store_le 8 (entry_index e) @ store_le 8 (entry_term e) @ store_le 1 (entry_type e) @
     replicate 7 0 @ store_le 4 (of_nat (length (entry_payload e)) :: u32) @ store_le 4 (0 :: u32) @
     entry_payload e"

definition entry_encodable :: "LogEntry \<Rightarrow> bool" where
  "entry_encodable e = (length (entry_payload e) \<le> kUint32Max)"

definition state_image :: "PersistentState \<Rightarrow> byte list" where
  "state_image st =
     (let s = snapshot st in
      store_le 8 (current_term st) @ store_le 8 (case voted_for st of None \<Rightarrow> 0 | Some v \<Rightarrow> v) @
      store_le 8 (commit_index st) @ store_le 8 (applied_index st) @
      store_le 8 (last_included_index s) @ store_le 8 (last_included_term s) @
      store_le 8 (manifest_generation s) @ part_set_checksum s @ store_le 8 (configuration_index s) @
      store_le 4 (of_nat (length (snapshot_voters s)) :: u32) @ store_le 4 (0 :: u32) @
      concat (map (store_le 8) (snapshot_voters s)) @
      store_le 4 (of_nat (length (log st)) :: u32) @ store_le 4 (0 :: u32) @
      concat (map entry_image (log st)))"

text \<open>The states that have an unambiguous image; \<open>std::array\<close> fixes the length of the checksum.\<close>

definition state_encodable :: "PersistentState \<Rightarrow> bool" where
  "state_encodable st =
     (voted_for st \<noteq> Some 0 \<and> length (part_set_checksum (snapshot st)) = 32 \<and>
      length (snapshot_voters (snapshot st)) \<le> kMaximumMembershipVoters \<and>
      length (log st) \<le> kUint32Max \<and> list_all entry_encodable (log st))"

definition header_image :: "u16 \<Rightarrow> GroupId \<Rightarrow> u64 \<Rightarrow> nat \<Rightarrow> u32 \<Rightarrow> u32 \<Rightarrow> byte list" where
  "header_image minor g sequence payload payload_crc crc =
     kMultiplexedLogMagic @ store_le 2 kMultiplexedLogFormatMajor @ store_le 2 minor @
     store_le 4 (64 :: u32) @ store_le 4 (of_nat (payload + 68) :: u32) @
     store_le 4 (of_nat payload :: u32) @ store_le 8 sequence @ g @
     store_le 4 payload_crc @ store_le 4 crc @ replicate 8 0"

definition sealed_header :: "u16 \<Rightarrow> GroupId \<Rightarrow> u64 \<Rightarrow> nat \<Rightarrow> u32 \<Rightarrow> byte list" where
  "sealed_header minor g sequence payload payload_crc =
     header_image minor g sequence payload payload_crc
       (crc32c (header_image minor g sequence payload payload_crc 0))"

definition record_image :: "u16 \<Rightarrow> GroupId \<Rightarrow> u64 \<Rightarrow> byte list \<Rightarrow> byte list" where
  "record_image minor g sequence payload =
     (let body = sealed_header minor g sequence (length payload) (crc32c payload) @ payload
      in body @ store_le 4 (crc32c body))"

definition header_encodable :: "u16 \<Rightarrow> GroupId \<Rightarrow> u64 \<Rightarrow> nat \<Rightarrow> bool" where
  "header_encodable minor g sequence payload =
     (minor \<le> kMultiplexedLogFormatMinor \<and> length g = kUuidSize \<and> \<not> is_nil g \<and> sequence \<noteq> 0 \<and>
      payload + 68 \<le> kMaximumMultiplexedLogRecordSize)"

text \<open>A state with one committed entry, for the examples.\<close>

definition sample_state :: PersistentState where
  "sample_state = \<lparr>current_term = 2, voted_for = Some 3, log = [\<lparr>entry_index = 1, entry_term = 2, entry_type = 1,
     entry_payload = [9, 8]\<rparr>], commit_index = 1, applied_index = 0, snapshot = empty_snapshot\<rparr>"

section \<open>Entries and states\<close>

lemma entry_image_length [simp]: "length (entry_image e) = 32 + length (entry_payload e)"
  by (simp add: entry_image_def)

lemma read_log_entry_inv:
  assumes "read_log_entry (reader_at pre rest) = (Inr e, r)"
  shows "entry_encodable e \<and> (\<exists>rest'. rest = entry_image e @ rest' \<and> r = reader_at (pre @ entry_image e) rest')"
proof -
  obtain i r1 t r2 k r3 re r4 n r5 pr r6 p where
      "read_u64_le (reader_at pre rest) = (Inr i, r1)" "read_u64_le r1 = (Inr t, r2)"
      "read_u8 r2 = (Inr k, r3)" "read_exact r3 7 = (Inr re, r4)" "read_u32_le r4 = (Inr n, r5)"
      "read_u32_le r5 = (Inr pr, r6)" "read_exact r6 (unat n) = (Inr p, r)"
    and zero: "pr = 0" "\<not> list_ex (\<lambda>b. b \<noteq> 0) re"
    and e: "e = \<lparr>entry_index = i, entry_term = t, entry_type = k, entry_payload = p\<rparr>"
    using assms by (auto simp: read_log_entry_def Let_def split: prod.splits sum.splits if_splits)
  then obtain rest' where
      "rest = store_le 8 i @ store_le 8 t @ store_le 1 k @ re @ store_le 4 n @ store_le 4 pr @ p @ rest'"
      "r = reader_at (pre @ store_le 8 i @ store_le 8 t @ store_le 1 k @ re @ store_le 4 n @ store_le 4 pr @ p) rest'"
      "length re = 7" "length p = unat n"
    by (auto dest!: read_exact_inv u8_field.read_inv u32_field.read_inv u64_field.read_inv simp del: One_nat_def)
  moreover have "re = replicate 7 0"
    using zero(2) \<open>length re = 7\<close> zero_list [of re] by simp
  moreover have "of_nat (length p) = n" "length p \<le> kUint32Max"
    using \<open>length p = unat n\<close> unat_bound [of n] by (simp_all add: kUint32Max_def)
  ultimately show ?thesis
    using zero(1) by (simp add: e entry_image_def entry_encodable_def del: One_nat_def)
qed

interpretation log_entry_field: codec_field write_log_entry read_log_entry entry_image entry_encodable
proof
  fix e k xs
  assume "length (entry_image e) \<le> k"
  then show "write_log_entry (writer_at xs k) e = (kOk, writer_at (xs @ entry_image e) (k - length (entry_image e)))"
    by (simp add: write_log_entry_def Let_def codec_simps entry_image_def del: One_nat_def)
next
  fix e pre rest
  assume "entry_encodable e"
  then have "unat (of_nat (length (entry_payload e)) :: u32) = length (entry_payload e)"
    by (simp add: entry_encodable_def kUint32Max_def u32_of_nat)
  then show "read_log_entry (reader_at pre (entry_image e @ rest)) = (Inr e, reader_at (pre @ entry_image e) rest)"
    by (simp add: read_log_entry_def Let_def codec_simps entry_image_def zero_list del: One_nat_def replicate.simps)
next
  fix pre rest e r
  assume "read_log_entry (reader_at pre rest) = (Inr e, r)"
  then show "entry_encodable e \<and> (\<exists>rest'. rest = entry_image e @ rest' \<and> r = reader_at (pre @ entry_image e) rest')"
    by (rule read_log_entry_inv)
qed


lemma entry_images_length:
  "length (concat (map entry_image es)) = (\<Sum>e\<leftarrow>es. 32 + length (entry_payload e))"
  by (induction es) simp_all

lemma state_image_length:
  "length (part_set_checksum (snapshot st)) = 32 \<Longrightarrow>
   length (state_image st) = 112 + 8 * length (snapshot_voters (snapshot st)) +
     (\<Sum>e\<leftarrow>log st. 32 + length (entry_payload e))"
  by (simp add: state_image_def Let_def u64_field.concat_enc_length entry_images_length)

lemma write_state_image:
  assumes "length (part_set_checksum (snapshot st)) = 32" and "length (state_image st) \<le> k"
  shows "write_state (writer_at xs k) st = (kOk, writer_at (xs @ state_image st) (k - length (state_image st)))"
  using assms
  by (simp add: write_state_def Let_def codec_simps state_image_def u64_field.write_fields_enc
      log_entry_field.write_list_enc u64_field.concat_enc_length add.assoc)

lemma entry_images_count: "32 * length es \<le> length (concat (map entry_image es))"
  by (induction es) simp_all

lemma voter_count_small: "n \<le> kMaximumMembershipVoters \<Longrightarrow> unat (of_nat n :: u32) = n"
  by (simp add: kMaximumMembershipVoters_def u32_of_nat)

lemma decode_state_image:
  assumes "state_encodable st"
  shows "decode_state kMultiplexedLogFormatMinor (state_image st) = Inr st"
proof -
  let ?s = "snapshot st"
  let ?voters = "concat (map (store_le 8) (snapshot_voters ?s))" and ?log = "concat (map entry_image (log st))"
  have counts: "unat (of_nat (length (snapshot_voters ?s)) :: u32) = length (snapshot_voters ?s)"
    "unat (of_nat (length (log st)) :: u32) = length (log st)"
    using assms by (simp_all add: state_encodable_def voter_count_small kUint32Max_def u32_of_nat)
  have voted: "(if (case voted_for st of None \<Rightarrow> 0 | Some v \<Rightarrow> v) \<noteq> 0
      then Some (case voted_for st of None \<Rightarrow> 0 | Some v \<Rightarrow> v) else None) = voted_for st"
    using assms by (cases "voted_for st") (auto simp: state_encodable_def)
  obtain pre where prefix: "read_state_prefix (make_reader (state_image st)) =
      (\<lparr>sp_term = Inr (current_term st), sp_voted = Inr (case voted_for st of None \<Rightarrow> 0 | Some v \<Rightarrow> v),
        sp_commit = Inr (commit_index st), sp_applied = Inr (applied_index st),
        sp_snapshot_index = Inr (last_included_index ?s), sp_snapshot_term = Inr (last_included_term ?s),
        sp_manifest_generation = Inr (manifest_generation ?s), sp_checksum = Inr (part_set_checksum ?s)\<rparr>,
       reader_at pre (store_le 8 (configuration_index ?s) @
        store_le 4 (of_nat (length (snapshot_voters ?s)) :: u32) @ store_le 4 (0 :: u32) @ ?voters @
        store_le 4 (of_nat (length (log st)) :: u32) @ store_le 4 (0 :: u32) @ ?log))"
    using assms by (auto simp: read_state_prefix_def Let_def make_reader_at state_image_def codec_simps state_encodable_def)
  have entries: "read_fields read_log_entry (reader_at pre ?log) (length (log st)) =
      (Inr (log st), reader_at (pre @ ?log) [])" for pre
    using log_entry_field.read_list_enc [of "log st" pre "[]"] assms by (simp add: state_encodable_def)
  have "length (log st) \<le> length ?log div 32"
    using entry_images_count [of "log st"] by simp
  then show ?thesis
    using assms counts voted
    by (simp add: decode_state_def prefix read_snapshot_checkpoint_def kMultiplexedLogFormatMinor_def codec_simps
        u64_field.read_list_enc list.pred_True u64_field.concat_enc_length assemble_state_def state_encodable_def
        entries kEntryFixedSize_def kRaftPersistentLogEntryFixedSizeV1_def)
qed

lemma read_state_prefix_inv:
  assumes "read_state_prefix (reader_at pre rest) = (p, r)" and "assemble_state p c vs = Inr st"
  obtains pre' rest' where "r = reader_at pre' rest'" "log st = []"
    "rest = store_le 8 (current_term st) @ store_le 8 (case voted_for st of None \<Rightarrow> 0 | Some v \<Rightarrow> v) @
      store_le 8 (commit_index st) @ store_le 8 (applied_index st) @
      store_le 8 (last_included_index (snapshot st)) @ store_le 8 (last_included_term (snapshot st)) @
      store_le 8 (manifest_generation (snapshot st)) @ part_set_checksum (snapshot st) @ rest'"
    "configuration_index (snapshot st) = c" "snapshot_voters (snapshot st) = vs"
    "voted_for st \<noteq> Some 0" "length (part_set_checksum (snapshot st)) = 32"
proof -
  obtain t r1 v r2 ci r3 a r4 si r5 te r6 g r7 cs where
    reads: "read_u64_le (reader_at pre rest) = (Inr t, r1)" "read_u64_le r1 = (Inr v, r2)"
      "read_u64_le r2 = (Inr ci, r3)" "read_u64_le r3 = (Inr a, r4)" "read_u64_le r4 = (Inr si, r5)"
      "read_u64_le r5 = (Inr te, r6)" "read_u64_le r6 = (Inr g, r7)" "read_exact r7 32 = (Inr cs, r)"
    and st: "st = \<lparr>current_term = t, voted_for = (if v \<noteq> 0 then Some v else None), log = [],
               commit_index = ci, applied_index = a,
               snapshot = \<lparr>last_included_index = si, last_included_term = te,
                           manifest_generation = g, part_set_checksum = cs,
                           configuration_index = c, snapshot_voters = vs\<rparr>\<rparr>"
    using assms by (auto simp: read_state_prefix_def assemble_state_def Let_def split: prod.splits sum.splits)
  from reads obtain rest' where
      "rest = store_le 8 t @ store_le 8 v @ store_le 8 ci @ store_le 8 a @ store_le 8 si @ store_le 8 te @
        store_le 8 g @ cs @ rest'"
      "\<exists>pre'. r = reader_at pre' rest'" "length cs = 32"
    by (auto dest!: read_exact_inv u64_field.read_inv)
  with that show thesis
    by (cases "v = 0") (auto simp: st)
qed

lemma read_checkpoint_inv:
  assumes "read_snapshot_checkpoint kMultiplexedLogFormatMinor (reader_at pre rest) = (Inr (c, n), r)"
  obtains pre' rest' where "r = reader_at pre' rest'"
    "rest = store_le 8 c @ store_le 4 n @ store_le 4 (0 :: u32) @ rest'"
proof -
  obtain r1 r2 where reads: "read_u64_le (reader_at pre rest) = (Inr c, r1)" "read_u32_le r1 = (Inr n, r2)"
      "read_u32_le r2 = (Inr 0, r)"
    using assms by (auto simp: read_snapshot_checkpoint_def kMultiplexedLogFormatMinor_def Let_def
        split: prod.splits sum.splits if_splits)
  then obtain rest' where
      "rest = store_le 8 c @ store_le 4 n @ store_le 4 (0 :: u32) @ rest'"
      "r = reader_at (pre @ store_le 8 c @ store_le 4 n @ store_le 4 (0 :: u32)) rest'"
    by (auto dest!: u32_field.read_inv u64_field.read_inv)
  with that show thesis by blast
qed

lemma decode_state_inv:
  assumes "decode_state kMultiplexedLogFormatMinor payload = Inr st"
  shows "state_encodable st" and "payload = state_image st"
proof -
  obtain prefix r0 c n r1 vs r2 count r3 r4 st0 es r5 where
      prefix: "read_state_prefix (make_reader payload) = (prefix, r0)"
    and checkpoint: "read_snapshot_checkpoint kMultiplexedLogFormatMinor r0 = (Inr (c, n), r1)"
    and small: "unat n \<le> kMaximumMembershipVoters"
    and vs: "read_fields read_u64_le r1 (unat n) = (Inr vs, r2)"
    and count: "read_u32_le r2 = (Inr count, r3)" "read_u32_le r3 = (Inr 0, r4)"
    and st0: "assemble_state prefix c vs = Inr st0"
    and es: "read_fields read_log_entry r4 (unat count) = (Inr es, r5)" "rd_empty r5"
    and st: "st = st0\<lparr>log := es\<rparr>"
    using assms by (auto simp: decode_state_def Let_def not_less split: prod.splits sum.splits if_splits)
  obtain pre0 rest0 where r0: "r0 = reader_at pre0 rest0"
    and payload: "payload = store_le 8 (current_term st0) @
      store_le 8 (case voted_for st0 of None \<Rightarrow> 0 | Some v \<Rightarrow> v) @
      store_le 8 (commit_index st0) @ store_le 8 (applied_index st0) @
      store_le 8 (last_included_index (snapshot st0)) @ store_le 8 (last_included_term (snapshot st0)) @
      store_le 8 (manifest_generation (snapshot st0)) @ part_set_checksum (snapshot st0) @ rest0"
    and snap: "configuration_index (snapshot st0) = c" "snapshot_voters (snapshot st0) = vs"
      "voted_for st0 \<noteq> Some 0" "length (part_set_checksum (snapshot st0)) = 32"
    by (rule read_state_prefix_inv [OF prefix [unfolded make_reader_at] st0])
  obtain pre1 rest1 where r1: "r1 = reader_at pre1 rest1"
    and rest0: "rest0 = store_le 8 c @ store_le 4 n @ store_le 4 (0 :: u32) @ rest1"
    by (rule read_checkpoint_inv [OF checkpoint [unfolded r0]])
  obtain pre2 rest2 where lv: "length vs = unat n" and rest1: "rest1 = concat (map (store_le 8) vs) @ rest2"
    and r2: "r2 = reader_at pre2 rest2"
    using u64_field.read_list_inv [OF vs [unfolded r1]] by blast
  obtain pre4 rest4 where rest2: "rest2 = store_le 4 count @ store_le 4 (0 :: u32) @ rest4"
    and r4: "r4 = reader_at pre4 rest4"
    using count unfolding r2 by (auto dest!: u32_field.read_inv)
  have le: "length es = unat count" and valid: "list_all entry_encodable es"
    and rest4: "rest4 = concat (map entry_image es)"
    using log_entry_field.read_list_inv [OF es(1) [unfolded r4]] es(2) by (auto simp: codec_simps)
  have counts: "of_nat (length vs) = n" "of_nat (length es) = count"
    using lv le by (simp_all add: of_nat_unat_word)
  have "length es \<le> kUint32Max"
    using le unat_bound [of count] by (simp add: kUint32Max_def)
  then show "state_encodable st"
    using snap lv small valid by (simp add: state_encodable_def st)
  show "payload = state_image st"
    unfolding payload rest0 rest1 rest2 rest4 by (simp add: state_image_def Let_def st snap counts)
qed

section \<open>Headers\<close>

lemma log_magic_length [simp]: "length kMultiplexedLogMagic = 8"
  by (simp add: kMultiplexedLogMagic_def)

lemma header_image_length [simp]: "length g = kUuidSize \<Longrightarrow> length (header_image minor g sq n pcrc crc) = 64"
  by (simp add: header_image_def kUuidSize_def)

interpretation record_header:
  sealed_block "\<lambda>(minor, g, sq, n, pcrc). header_image minor g sq n pcrc" 52 "\<lambda>(_, g, _). length g = kUuidSize"
proof
  fix x :: "u16 \<times> GroupId \<times> u64 \<times> nat \<times> u32"
  obtain minor g sq n pcrc where x: "x = (minor, g, sq, n, pcrc)" by (cases x)
  let ?front = "kMultiplexedLogMagic @ store_le 2 kMultiplexedLogFormatMajor @ store_le 2 minor @
     store_le 4 (64 :: u32) @ store_le 4 (of_nat (n + 68) :: u32) @ store_le 4 (of_nat n :: u32) @
     store_le 8 sq @ g @ store_le 4 pcrc"
  assume "case x of (_, g, _) \<Rightarrow> length g = kUuidSize"
  then show "\<exists>front back. length front = 52 \<and>
      (\<forall>crc. (case x of (minor, g, sq, n, pcrc) \<Rightarrow> header_image minor g sq n pcrc) crc = front @ store_le 4 crc @ back)"
    by (intro exI [of _ ?front] exI [of _ "replicate 8 0"]) (simp add: x header_image_def kUuidSize_def)
qed

lemma sealed_header_eq: "sealed_header minor g sq n pcrc = record_header.sealed (minor, g, sq, n, pcrc)"
  by (simp add: sealed_header_def record_header.sealed_def)

lemma inspect_header_image:
  assumes "header_encodable minor g sq n"
  shows "inspect_multiplexed_log_record_header_v1 (sealed_header minor g sq n pcrc) =
    Inr \<lparr>mh_encoded_size = n + 68, mh_payload_size = n, mh_physical_sequence = sq, mh_group_id = g,
         mh_format_minor = minor\<rparr>"
proof -
  have g: "length g = kUuidSize" and n: "n + 68 \<le> 16777216"
    using assms by (simp_all add: header_encodable_def kMaximumMultiplexedLogRecordSize_def)
  let ?h = "sealed_header minor g sq n pcrc"
  have crc: "fst (read_u32_le (make_reader (subspan ?h 52 4))) = Inr (crc32c (write_at ?h 52 (replicate 4 0)))"
    using record_header.check_sealed [of "(minor, g, sq, n, pcrc)"] g by (simp add: sealed_header_eq)
  have sizes: "unat (of_nat (n + 68) :: u32) = n + 68" "unat (of_nat n :: u32) = n" "unat (64 :: u32) = 64"
    using n by (simp_all add: unat_of_nat_small del: of_nat_add)
  show ?thesis
    using assms n sizes g
    by (simp add: inspect_multiplexed_log_record_header_v1_def kMultiplexedLogHeaderSize_def crc case_prod_beta
        del: of_nat_add)
      (simp add: sealed_header_def header_image_def make_reader_at codec_simps check_record_header_def kUuidSize_def
        kMultiplexedLogHeaderSize_def kMultiplexedLogTrailerSize_def header_encodable_def zero_list
        kMaximumMultiplexedLogRecordSize_def not_less del: replicate.simps of_nat_add)
qed

lemma split_u32_pair:
  assumes "length bs = 16"
  obtains v1 v2 :: u32 and tail where "bs = store_le 4 v1 @ store_le 4 v2 @ tail" "length tail = 8"
proof
  show "bs = store_le 4 (load_le (take 4 bs) :: u32) @ store_le 4 (load_le (take 4 (drop 4 bs)) :: u32) @ drop 8 bs"
    using assms by (simp add: store_load_le) (metis append_take_drop_id drop_drop numeral_Bit0)
qed (use assms in simp)

lemma inspect_header_inv:
  assumes "inspect_multiplexed_log_record_header_v1 h = Inr x"
  obtains pcrc where "h = sealed_header (mh_format_minor x) (mh_group_id x) (mh_physical_sequence x) (mh_payload_size x) pcrc"
    "header_encodable (mh_format_minor x) (mh_group_id x) (mh_physical_sequence x) (mh_payload_size x)"
    "mh_encoded_size x = mh_payload_size x + 68"
proof -
  have len: "length h = 64"
    using assms by (auto simp: inspect_multiplexed_log_record_header_v1_def kMultiplexedLogHeaderSize_def split: if_splits)
  obtain m r1 ma r2 mi r3 hs r4 ts r5 pl r6 sq r7 g r8 pc r9 ic r10 rs r11 where
      reads: "read_exact (reader_at [] h) 8 = (Inr m, r1)" "read_u16_le r1 = (Inr ma, r2)"
      "read_u16_le r2 = (Inr mi, r3)" "read_u32_le r3 = (Inr hs, r4)" "read_u32_le r4 = (Inr ts, r5)"
      "read_u32_le r5 = (Inr pl, r6)" "read_u64_le r6 = (Inr sq, r7)" "read_exact r7 16 = (Inr g, r8)"
      "read_u32_le r8 = (pc, r9)" "read_u32_le r9 = (ic, r10)" "read_exact r10 8 = (Inr rs, r11)"
    and check: "check_record_header m ma mi hs ts pl sq g rs = Inr x"
    and crc: "fst (read_u32_le (make_reader (subspan h 52 4))) = Inr (crc32c (write_at h 52 (replicate 4 0)))"
    using assms by (auto simp: inspect_multiplexed_log_record_header_v1_def make_reader_at kUuidSize_def Let_def
        split: if_splits prod.splits sum.splits)
  obtain rest where h: "h = m @ store_le 2 ma @ store_le 2 mi @ store_le 4 hs @ store_le 4 ts @ store_le 4 pl @
      store_le 8 sq @ g @ rest" and r8: "\<exists>pre. r8 = reader_at pre rest" and lens: "length m = 8" "length g = 16"
    using reads(1-8) by (auto dest!: read_exact_inv u16_field.read_inv u32_field.read_inv u64_field.read_inv)
  obtain v1 v2 tail where rest: "rest = store_le 4 (v1 :: u32) @ store_le 4 (v2 :: u32) @ tail" "length tail = 8"
    using split_u32_pair [of rest] len lens h by auto
  have rs: "rs = tail"
    using reads(9-11) r8 rest(2) unfolding rest(1) by (auto simp: codec_simps)
  have fields: "m = kMultiplexedLogMagic" "ma = kMultiplexedLogFormatMajor" "mi \<le> kMultiplexedLogFormatMinor"
    "unat hs = 64" "sq \<noteq> 0" "68 \<le> unat ts" "unat ts \<le> kMaximumMultiplexedLogRecordSize"
    "unat pl = unat ts - 68" "\<not> list_ex (\<lambda>b. b \<noteq> 0) tail" "\<not> is_nil g"
    and x: "x = \<lparr>mh_encoded_size = unat ts, mh_payload_size = unat pl, mh_physical_sequence = sq, mh_group_id = g,
        mh_format_minor = mi\<rparr>"
    using check unfolding rs by (auto simp: check_record_header_def Let_def kMultiplexedLogHeaderSize_def
        kMultiplexedLogTrailerSize_def not_less split: if_splits)
  have "unat ts = unat pl + 68"
    using fields(6,8) by simp
  then have words: "hs = 64" "ts = of_nat (unat pl + 68)" "pl = of_nat (unat pl)"
    using fields(4) by (simp_all only: of_nat_unat_word flip: \<open>unat ts = _\<close>) (simp add: word_unat_eq_iff)
  have image: "h = header_image mi g sq (unat pl) v1 v2"
    unfolding h rest fields(1,2) using words fields(9) rest(2) zero_list [of tail]
    by (simp add: header_image_def del: of_nat_add of_nat_unat)
  have g: "length g = kUuidSize"
    using lens by (simp add: kUuidSize_def)
  have "h = sealed_header mi g sq (unat pl) v1"
    using crc record_header.check_iff [of "(mi, g, sq, unat pl, v1)" v2] g by (simp add: image sealed_header_eq)
  then show thesis
    using that [of v1] fields g by (simp add: x header_encodable_def)
qed

section \<open>Records\<close>

lemma write_record_header_image:
  assumes "length (gps_group_id p) = kUuidSize"
  shows "write_record_header (writer_at [] 64) (n + 68) n p pcrc =
    (kOk, writer_at (header_image kMultiplexedLogFormatMinor (gps_group_id p) (gps_physical_sequence p) n pcrc 0) 0)"
  using assms
  by (simp add: write_record_header_def Let_def codec_simps header_image_def kUuidSize_def
      kMultiplexedLogHeaderSize_def store_le_zero del: of_nat_add replicate.simps)

lemma sealed_header_split:
  assumes "length g = kUuidSize"
  shows "write_at (header_image minor g sq n pcrc 0 @ ys) 52 (store_le 4 (crc32c (header_image minor g sq n pcrc 0)))
      = sealed_header minor g sq n pcrc @ ys"
    and "subspan (header_image minor g sq n pcrc 0 @ ys) 52 4 = replicate 4 0"
    and "length (sealed_header minor g sq n pcrc) = 64"
  using record_header.seal [of "(minor, g, sq, n, pcrc)"] record_header.blank [of "(minor, g, sq, n, pcrc)"] assms
  by (simp_all add: sealed_header_def)

lemma encode_record_bytes_image:
  assumes sum: "length (part_set_checksum (snapshot (gps_state p))) = 32"
    and g: "length (gps_group_id p) = kUuidSize"
    and n: "length (state_image (gps_state p)) = n"
  shows "encode_record_bytes p n (n + 68) =
    Inr (record_image kMultiplexedLogFormatMinor (gps_group_id p) (gps_physical_sequence p) (state_image (gps_state p)))"
proof -
  let ?img = "state_image (gps_state p)"
  let ?head = "header_image kMultiplexedLogFormatMinor (gps_group_id p) (gps_physical_sequence p) n (crc32c ?img) 0"
  have st: "write_state (writer_at [] n) (gps_state p) = (kOk, writer_at ?img 0)"
    using write_state_image [OF sum, of n "[]"] by (simp add: n)
  have first: "write_at (replicate (n + 68) 0) 64 ?img = replicate 64 0 @ ?img @ replicate 4 0"
    by (simp add: write_at_eq n)
  have span: "subspan (replicate (n + 68) 0) 64 n = replicate n (0 :: byte)"
    by (simp add: subspan_def)
  have head: "write_at (replicate 64 0 @ ?img @ replicate 4 0) 0 ?head = ?head @ ?img @ replicate 4 0"
    using g by (simp add: write_at_eq)
  have tail: "subspan (h @ ?img @ replicate 4 0) (64 + n) 4 = replicate 4 (0 :: byte)"
    "write_at (h @ ?img @ replicate 4 0) (64 + n) (store_le 4 v) = h @ ?img @ store_le 4 v"
    "take (64 + n) (h @ ?img @ replicate 4 0) = h @ ?img" "take 64 (h @ ?img @ replicate 4 0) = h"
    "subspan (h @ ?img @ replicate 4 0) 64 n = ?img" if "length h = 64" for h :: "byte list" and v :: u32
    using that by (simp_all add: subspan_def write_at_eq n)
  have bytes: "wr_bytes (writer_at xs 0) = xs" "wr_full (writer_at xs 0)" for xs
    by (simp_all add: codec_simps)
  show ?thesis
    by (simp only: encode_record_bytes_def Let_def kMultiplexedLogHeaderSize_def kMultiplexedLogTrailerSize_def span st
      prod.case bytes first tail [OF length_replicate] make_writer_at write_record_header_image [OF g] head
      tail [OF header_image_length [OF g]] sealed_header_split [OF g] write_u32_exact [unfolded make_writer_at]
      tail [OF sealed_header_split(3) [OF g]] is_ok_def simp_thms if_True if_False)
      (simp add: record_image_def Let_def n)
qed

lemma log_size_loop_sum:
  "log_size_loop sz es =
     (if sz + (\<Sum>e\<leftarrow>es. 32 + length (entry_payload e)) \<le> size_max \<or> es = []
      then Inr (sz + (\<Sum>e\<leftarrow>es. 32 + length (entry_payload e))) else Inl kOutOfRange)"
  by (induction es arbitrary: sz)
    (auto simp: add_entry_size_def checked_add_size_def kRaftPersistentLogEntryFixedSizeV1_def split: option.splits)



lemma payload_size_total:
  assumes "length (part_set_checksum (snapshot st)) = 32" and "length (state_image st) \<le> size_max"
  shows "payload_size st = Inr (length (state_image st))"
proof -
  let ?v = "length (snapshot_voters (snapshot st))"
  have "112 + 8 * ?v + (\<Sum>e\<leftarrow>log st. 32 + length (entry_payload e)) \<le> size_max"
    using assms by (simp add: state_image_length)
  moreover from this have "8 \<le> size_max div ?v" if "?v \<noteq> 0"
    using that by (subst less_eq_div_iff_mult_less_eq) auto
  then have "checked_multiply_size ?v 8 = Some (?v * 8)"
    by (auto simp: checked_multiply_size_def not_less)
  moreover have "checked_add_size 112 (?v * 8) = Some (112 + ?v * 8)"
    using calculation(1) by (auto simp: checked_add_size_def size_max_def)
  ultimately show ?thesis
    using assms(1) by (simp add: payload_size_def raft_persistent_state_payload_size_def log_size_loop_sum
        state_image_length kRaftPersistentStateFixedSizeV1_def mult.commute)
qed

lemma encode_record_image:
  assumes "header_encodable kMultiplexedLogFormatMinor (gps_group_id p) (gps_physical_sequence p)
      (length (state_image (gps_state p)))" and "state_encodable (gps_state p)"
  shows "encode_multiplexed_log_record_v1 p =
    Inr (record_image kMultiplexedLogFormatMinor (gps_group_id p) (gps_physical_sequence p) (state_image (gps_state p)))"
proof -
  let ?n = "length (state_image (gps_state p))"
  have sum: "length (part_set_checksum (snapshot (gps_state p))) = 32" and g: "length (gps_group_id p) = kUuidSize"
    and small: "?n + 68 \<le> 16777216"
    using assms by (simp_all add: state_encodable_def header_encodable_def kMaximumMultiplexedLogRecordSize_def)
  have "payload_size (gps_state p) = Inr ?n"
    using small by (intro payload_size_total [OF sum]) (simp add: size_max_def)
  with assms small show ?thesis
    by (simp add: encode_multiplexed_log_record_v1_def header_encodable_def state_encodable_def kUint32Max_def
        checked_add_size_def size_max_def kMultiplexedLogHeaderSize_def kMultiplexedLogTrailerSize_def
        kMaximumMultiplexedLogRecordSize_def encode_record_bytes_image [OF sum g refl] ac_simps not_le)
qed

section \<open>Decoding records\<close>

lemma sealed_payload_crc:
  assumes "length g = kUuidSize"
  shows "subspan (sealed_header minor g sq n pcrc @ ys) 48 4 = store_le 4 pcrc"
proof -
  have "length (kMultiplexedLogMagic @ store_le 2 kMultiplexedLogFormatMajor @ store_le 2 minor @
     store_le 4 (64 :: u32) @ store_le 4 (of_nat (n + 68) :: u32) @ store_le 4 (of_nat n :: u32) @
     store_le 8 sq @ g) = 48"
    using assms by (simp add: kUuidSize_def)
  then show ?thesis
    by (simp add: sealed_header_def header_image_def subspan_def del: of_nat_add)
qed

lemma decode_record_image:
  assumes "header_encodable minor g sq (length payload)"
    and "(if minor = 0 then 96 else 112) \<le> length payload"
  shows "decode_multiplexed_log_record_v1 (record_image minor g sq payload) =
    (case decode_state minor payload of
       Inl e \<Rightarrow> Inl e
     | Inr st \<Rightarrow> Inr \<lparr>dgps_persistent = \<lparr>gps_group_id = g, gps_physical_sequence = sq, gps_state = st\<rparr>,
                     dgps_encoded_size = length payload + 68\<rparr>)"
proof -
  let ?head = "sealed_header minor g sq (length payload) (crc32c payload)"
  have g: "length g = kUuidSize"
    using assms(1) by (simp add: header_encodable_def)
  note h = sealed_header_split(3) [OF g, of minor sq "length payload" "crc32c payload"]
  have image: "record_image minor g sq payload = ?head @ payload @ store_le 4 (crc32c (?head @ payload))"
    by (simp add: record_image_def Let_def)
  have spans: "take 64 (record_image minor g sq payload) = ?head"
    "subspan (record_image minor g sq payload) 48 4 = store_le 4 (crc32c payload)"
    "subspan (record_image minor g sq payload) 64 (length payload) = payload"
    "length (record_image minor g sq payload) = length payload + 68"
    "drop (64 + length payload) (record_image minor g sq payload) = store_le 4 (crc32c (?head @ payload))"
    "take (64 + length payload) (record_image minor g sq payload) = ?head @ payload"
    using h sealed_payload_crc [OF g] by (simp_all add: image) (simp add: subspan_def)
  show ?thesis
    using assms(2)
    by (auto simp: decode_multiplexed_log_record_v1_def kMultiplexedLogHeaderSize_def kMultiplexedLogTrailerSize_def
        spans inspect_header_image [OF assms(1)] read_u32_exact kStateFixedSizeV1_0_def kStateFixedSizeV1_1_def
        kRaftPersistentStateFixedSizeV1_def cong: sum.case_cong)
qed

lemma decode_record_inv:
  assumes "decode_multiplexed_log_record_v1 bytes = Inr d"
  obtains h payload where "inspect_multiplexed_log_record_header_v1 (take 64 bytes) = Inr h"
    "bytes = record_image (mh_format_minor h) (gps_group_id (dgps_persistent d))
       (gps_physical_sequence (dgps_persistent d)) payload"
    "header_encodable (mh_format_minor h) (gps_group_id (dgps_persistent d))
       (gps_physical_sequence (dgps_persistent d)) (length payload)"
    "decode_state (mh_format_minor h) payload = Inr (gps_state (dgps_persistent d))"
    "dgps_encoded_size d = length bytes"
proof -
  obtain h st where h: "inspect_multiplexed_log_record_header_v1 (take 64 bytes) = Inr h"
    and size: "mh_encoded_size h = length bytes"
    and pcrc: "fst (read_u32_le (make_reader (subspan bytes 48 4))) = Inr (crc32c (subspan bytes 64 (mh_payload_size h)))"
    and rcrc: "fst (read_u32_le (make_reader (drop (length bytes - 4) bytes))) = Inr (crc32c (take (length bytes - 4) bytes))"
    and st: "decode_state (mh_format_minor h) (subspan bytes 64 (mh_payload_size h)) = Inr st"
    and d: "d = \<lparr>dgps_persistent = \<lparr>gps_group_id = mh_group_id h, gps_physical_sequence = mh_physical_sequence h,
                gps_state = st\<rparr>, dgps_encoded_size = length bytes\<rparr>"
    using assms by (auto simp: decode_multiplexed_log_record_v1_def kMultiplexedLogHeaderSize_def
        kMultiplexedLogTrailerSize_def Let_def split: if_splits prod.splits sum.splits)
  define payload where "payload = subspan bytes 64 (mh_payload_size h)"
  obtain pc where head: "take 64 bytes = sealed_header (mh_format_minor h) (mh_group_id h) (mh_physical_sequence h) (mh_payload_size h) pc"
    and ok: "header_encodable (mh_format_minor h) (mh_group_id h) (mh_physical_sequence h) (mh_payload_size h)"
    and total_size: "mh_encoded_size h = mh_payload_size h + 68"
    by (rule inspect_header_inv [OF h])
  have len: "length bytes = mh_payload_size h + 68"
    using size total_size by simp
  define t where "t = drop (length bytes - 4) bytes"
  have payload: "length payload = mh_payload_size h"
    using len by (simp add: payload_def)
  have bytes: "bytes = take 64 bytes @ payload @ t"
    using len unfolding payload_def t_def subspan_def
    by (simp add: append_assoc [symmetric] take_add [symmetric] del: append_assoc)
  have t: "length t = 4"
    using len by (simp add: t_def)
  have g: "length (mh_group_id h) = kUuidSize"
    using ok by (simp add: header_encodable_def)
  have "subspan bytes 48 4 = store_le 4 pc"
    using sealed_payload_crc [OF g, of "mh_format_minor h" _ _ pc "payload @ t"]
    by (subst bytes) (simp add: head)
  then have "pc = crc32c payload"
    using pcrc unfolding payload_def [symmetric] by (simp add: read_u32_exact)
  have body: "take (length bytes - 4) bytes = take 64 bytes @ payload"
    by (simp add: payload_def subspan_def len take_add [symmetric])
  obtain r v where v: "read_u32_le (reader_at [] t) = (Inr v, r)" "v = crc32c (take 64 bytes @ payload)"
    using rcrc unfolding t_def [symmetric] body make_reader_at by (metis prod.collapse)
  have t_eq: "t = store_le 4 (crc32c (take 64 bytes @ payload))"
    using u32_field.read_inv [OF v(1)] v(2) t by auto
  have image: "bytes = record_image (mh_format_minor h) (mh_group_id h) (mh_physical_sequence h) payload"
    by (rule trans [OF bytes]) (simp add: record_image_def Let_def t_eq head payload \<open>pc = crc32c payload\<close>)
  show thesis
    using h ok image st unfolding payload_def [symmetric]
    by (intro that [of h payload]) (simp_all only: d payload DecodedGroupPersistentState.simps GroupPersistentState.simps)
qed




lemma state_image_minimum: "state_encodable st \<Longrightarrow> 112 \<le> length (state_image st)"
  by (simp add: state_encodable_def state_image_length)

section \<open>A sample record\<close>

lemma sample_encodable:
  "state_encodable sample_state"
  "header_encodable 1 (replicate 16 7) 5 (length (state_image sample_state))"
  by (simp_all add: state_encodable_def sample_state_def empty_snapshot_def header_encodable_def state_image_length
      kUint32Max_def entry_encodable_def kMaximumMembershipVoters_def kMultiplexedLogFormatMinor_def kUuidSize_def
      is_nil_def list_all_iff kMaximumMultiplexedLogRecordSize_def)

lemma sample_decodes:
  "decode_multiplexed_log_record_v1 (record_image 1 (replicate 16 7) 5 (state_image sample_state)) =
     Inr \<lparr>dgps_persistent = \<lparr>gps_group_id = replicate 16 7, gps_physical_sequence = 5, gps_state = sample_state\<rparr>,
          dgps_encoded_size = length (state_image sample_state) + 68\<rparr>"
  using decode_record_image [OF sample_encodable(2)] decode_state_image [OF sample_encodable(1)]
    state_image_minimum [OF sample_encodable(1)] by (simp add: kMultiplexedLogFormatMinor_def)

section \<open>Properties\<close>



text \<open>C24: a record of the current format that decodes is exactly the encoding of what it decodes to.\<close>

theorem multiplexed_log_decode_encode:
  assumes dec: "decode_multiplexed_log_record_v1 bytes = Inr d"
    and h: "inspect_multiplexed_log_record_header_v1 (take kMultiplexedLogHeaderSize bytes) = Inr h"
    and minor: "mh_format_minor h = kMultiplexedLogFormatMinor"
  shows "encode_multiplexed_log_record_v1 (dgps_persistent d) = Inr bytes"
proof (rule decode_record_inv [OF dec])
  fix h' payload
  assume "inspect_multiplexed_log_record_header_v1 (take 64 bytes) = Inr h'"
  with h minor have m: "mh_format_minor h' = kMultiplexedLogFormatMinor"
    by (simp add: kMultiplexedLogHeaderSize_def)
  assume image: "bytes = record_image (mh_format_minor h') (gps_group_id (dgps_persistent d))
       (gps_physical_sequence (dgps_persistent d)) payload"
    "header_encodable (mh_format_minor h') (gps_group_id (dgps_persistent d))
       (gps_physical_sequence (dgps_persistent d)) (length payload)"
    "decode_state (mh_format_minor h') payload = Inr (gps_state (dgps_persistent d))"
  note st = decode_state_inv [OF image(3) [unfolded m]]
  show ?thesis
    using image(1,2) st unfolding m by (simp add: encode_record_image)
qed

theorem multiplexed_log_decode_encode_witness:
  "encode_multiplexed_log_record_v1 \<lparr>gps_group_id = replicate 16 7, gps_physical_sequence = 5,
      gps_state = sample_state\<rparr> = Inr (record_image 1 (replicate 16 7) 5 (state_image sample_state))"
  using multiplexed_log_decode_encode [OF sample_decodes] inspect_header_image [OF sample_encodable(2)]
    sealed_header_split(3) [of "replicate 16 7"]
  by (simp add: record_image_def Let_def kMultiplexedLogHeaderSize_def kMultiplexedLogFormatMinor_def kUuidSize_def)



end
