(* ===== verification/Storage.thy ===== *)
theory Storage
  imports Ordered_Map "HOL-Library.Char_ord" "HOL-Library.List_Lexorder"
begin

text \<open>
  The directory that the persistent log works on, as POSIX describes it: names refer to inodes, a
  handle stays with its inode when the name is renamed, and what has not been synchronized may be
  lost. Every call takes its outcome from a script, so a history of calls with arbitrary failures
  is a value of the model; an exhausted script means that the calls succeed. A failing write may
  leave any number of its bytes in the file.
\<close>

section \<open>State\<close>

datatype DirectoryEntryType = kRegularFile | kDirectory | kSymlink | kOther

datatype IoOutcome = Done | Fails StatusCode nat

record Storage =
  entries :: "(string \<times> (DirectoryEntryType \<times> nat)) list"
  contents :: "nat \<Rightarrow> byte list"
  next_inode :: nat
  durable_entries :: "(string \<times> (DirectoryEntryType \<times> nat)) list"
  durable_contents :: "nat \<Rightarrow> byte list"
  outcomes :: "IoOutcome list"

definition io_code :: "IoOutcome \<Rightarrow> StatusCode" where
  "io_code r = (case r of Done \<Rightarrow> kOk | Fails code _ \<Rightarrow> if code = kOk then kIoError else code)"

definition outcome :: "Storage \<Rightarrow> IoOutcome \<times> Storage" where
  "outcome s = (case outcomes s of [] \<Rightarrow> (Done, s) | r # rs \<Rightarrow> (r, s\<lparr>outcomes := rs\<rparr>))"

text \<open>\<^verbatim>\<open>if (status.is_ok()) status = ...\<close>\<close>

definition io_then :: "StatusCode \<times> Storage \<Rightarrow> (Storage \<Rightarrow> StatusCode \<times> Storage) \<Rightarrow> StatusCode \<times> Storage" where
  "io_then r f = (if is_ok (fst r) then f (snd r) else r)"

section \<open>Files\<close>

text \<open>A write into a file, with zeros between the end and the offset.\<close>

definition write_region :: "byte list \<Rightarrow> nat \<Rightarrow> byte list \<Rightarrow> byte list" where
  "write_region c offset bytes =
     take offset c @ replicate (offset - length c) 0 @ bytes @ drop (offset + length bytes) c"

definition write_all_at :: "Storage \<Rightarrow> nat \<Rightarrow> nat \<Rightarrow> byte list \<Rightarrow> StatusCode \<times> Storage" where
  "write_all_at s file offset bytes =
     (case outcome s of
        (Done, s') \<Rightarrow> (kOk, s'\<lparr>contents := (contents s')(file := write_region (contents s' file) offset bytes)\<rparr>)
      | (Fails code n, s') \<Rightarrow>
          (io_code (Fails code n),
           s'\<lparr>contents := (contents s')(file := write_region (contents s' file) offset (take n bytes))\<rparr>))"

definition read_at :: "Storage \<Rightarrow> nat \<Rightarrow> nat \<Rightarrow> nat \<Rightarrow> byte list result \<times> Storage" where
  "read_at s file offset count =
     (case outcome s of
        (Done, s') \<Rightarrow> (Inr (take count (drop offset (contents s' file))), s')
      | (r, s') \<Rightarrow> (Inl (io_code r), s'))"

definition file_size :: "Storage \<Rightarrow> nat \<Rightarrow> nat result \<times> Storage" where
  "file_size s file =
     (case outcome s of
        (Done, s') \<Rightarrow> (Inr (length (contents s' file)), s')
      | (r, s') \<Rightarrow> (Inl (io_code r), s'))"

definition truncate_file :: "Storage \<Rightarrow> nat \<Rightarrow> nat \<Rightarrow> StatusCode \<times> Storage" where
  "truncate_file s file n =
     (case outcome s of
        (Done, s') \<Rightarrow>
          if n > length (contents s' file) then (kInvalidArgument, s')
          else (kOk, s'\<lparr>contents := (contents s')(file := take n (contents s' file))\<rparr>)
      | (r, s') \<Rightarrow> (io_code r, s'))"

definition sync_file :: "Storage \<Rightarrow> nat \<Rightarrow> StatusCode \<times> Storage" where
  "sync_file s file =
     (case outcome s of
        (Done, s') \<Rightarrow>
          (kOk, s'\<lparr>durable_contents := (durable_contents s')(file := contents s' file)\<rparr>)
      | (r, s') \<Rightarrow> (io_code r, s'))"

definition close_file :: "Storage \<Rightarrow> StatusCode \<times> Storage" where
  "close_file s = (case outcome s of (r, s') \<Rightarrow> (io_code r, s'))"

section \<open>Directory\<close>

definition list_entries :: "Storage \<Rightarrow> (string \<times> DirectoryEntryType) list result \<times> Storage" where
  "list_entries s =
     (case outcome s of
        (Done, s') \<Rightarrow> (Inr (map (\<lambda>(name, t, _). (name, t)) (entries s')), s')
      | (r, s') \<Rightarrow> (Inl (io_code r), s'))"

definition open_regular_file :: "Storage \<Rightarrow> string \<Rightarrow> nat result \<times> Storage" where
  "open_regular_file s name =
     (case outcome s of
        (Done, s') \<Rightarrow>
          (case map_of (entries s') name of
             None \<Rightarrow> (Inl kNotFound, s')
           | Some (t, file) \<Rightarrow> if t \<noteq> kRegularFile then (Inl kInvalidArgument, s') else (Inr file, s'))
      | (r, s') \<Rightarrow> (Inl (io_code r), s'))"

definition create_exclusive_regular_file :: "Storage \<Rightarrow> string \<Rightarrow> nat result \<times> Storage" where
  "create_exclusive_regular_file s name =
     (case outcome s of
        (Done, s') \<Rightarrow>
          if map_of (entries s') name \<noteq> None then (Inl kAlreadyExists, s')
          else (Inr (next_inode s'),
                s'\<lparr>entries := ordered_insert name (kRegularFile, next_inode s') (entries s'),
                   contents := (contents s')(next_inode s' := []),
                   durable_contents := (durable_contents s')(next_inode s' := []),
                   next_inode := Suc (next_inode s')\<rparr>)
      | (r, s') \<Rightarrow> (Inl (io_code r), s'))"

definition remove_file :: "Storage \<Rightarrow> string \<Rightarrow> StatusCode \<times> Storage" where
  "remove_file s name =
     (case outcome s of
        (Done, s') \<Rightarrow>
          if map_of (entries s') name = None then (kNotFound, s')
          else (kOk, s'\<lparr>entries := ordered_erase name (entries s')\<rparr>)
      | (r, s') \<Rightarrow> (io_code r, s'))"

definition rename_no_replace :: "Storage \<Rightarrow> string \<Rightarrow> string \<Rightarrow> StatusCode \<times> Storage" where
  "rename_no_replace s old new =
     (case outcome s of
        (Done, s') \<Rightarrow>
          (case map_of (entries s') old of
             None \<Rightarrow> (kNotFound, s')
           | Some e \<Rightarrow>
               if map_of (entries s') new \<noteq> None then (kAlreadyExists, s')
               else (kOk, s'\<lparr>entries := ordered_insert new e (ordered_erase old (entries s'))\<rparr>))
      | (r, s') \<Rightarrow> (io_code r, s'))"

definition sync_directory :: "Storage \<Rightarrow> StatusCode \<times> Storage" where
  "sync_directory s =
     (case outcome s of
        (Done, s') \<Rightarrow> (kOk, s'\<lparr>durable_entries := entries s'\<rparr>)
      | (r, s') \<Rightarrow> (io_code r, s'))"

text \<open>The lock file is created when it is absent; that another process holds it is an outcome.\<close>

definition acquire_exclusive_lock :: "Storage \<Rightarrow> string \<Rightarrow> StatusCode \<times> Storage" where
  "acquire_exclusive_lock s name =
     (case outcome s of
        (Done, s') \<Rightarrow>
          (case map_of (entries s') name of
             None \<Rightarrow> (kOk, s'\<lparr>entries := ordered_insert name (kRegularFile, next_inode s') (entries s'),
                              contents := (contents s')(next_inode s' := []),
                              durable_contents := (durable_contents s')(next_inode s' := []),
                              next_inode := Suc (next_inode s')\<rparr>)
           | Some (t, _) \<Rightarrow> (if t = kRegularFile then kOk else kInvalidArgument, s'))
      | (r, s') \<Rightarrow> (io_code r, s'))"

definition acquire_existing_exclusive_lock :: "Storage \<Rightarrow> string \<Rightarrow> StatusCode \<times> Storage" where
  "acquire_existing_exclusive_lock s name =
     (case outcome s of
        (Done, s') \<Rightarrow>
          (case map_of (entries s') name of
             None \<Rightarrow> (kNotFound, s')
           | Some (t, _) \<Rightarrow> (if t = kRegularFile then kOk else kInvalidArgument, s'))
      | (r, s') \<Rightarrow> (io_code r, s'))"

definition open_directory :: "Storage \<Rightarrow> StatusCode \<times> Storage" where
  "open_directory s = (case outcome s of (r, s') \<Rightarrow> (io_code r, s'))"

end
