(* ===== verification/Persistent_Log.thy ===== *)
theory Persistent_Log
  imports Segment_Codec Multiplexed_Log_Codec Storage
begin

text \<open>
  \<^verbatim>\<open>RaftPersistentLog\<close> of \<^verbatim>\<open>src/raft/persistent_log.cpp\<close>: numbered segment files, each a header and a
  run of physical records; appending with rotation, synchronization, a checkpoint that replaces
  all older segments, and the recovery that reads everything back. Sizes, offsets and counts are
  natural numbers: a segment is at most 1 GiB and the counts are bounded by the configuration.
  Sequence and segment numbers are 64-bit words.
\<close>

section \<open>Configuration and state\<close>

definition kMinimumTargetSize :: nat where
  "kMinimumTargetSize = kRaftSegmentHeaderSize + kMultiplexedLogHeaderSize + kMultiplexedLogTrailerSize + 96"

record RaftPersistentLogConfig =
  directory_path :: string
  file_permissions :: u16
  target_segment_size :: nat
  maximum_segments :: nat
  maximum_records :: nat
  lc_maximum_groups :: nat

record RaftPhysicalPosition =
  segment_number :: u64
  end_offset :: nat
  position_sequence :: u64

record RaftPersistentLogRecovery =
  latest_group_states :: "GroupPersistentState list"
  written_position :: RaftPhysicalPosition
  durable_physical_sequence :: u64
  segment_count :: nat
  record_count :: nat
  repaired_bytes :: nat
  base_segment_number :: u64

record RaftPersistentLogReclamation =
  rc_base_segment_number :: u64
  rc_checkpoint_first_physical_sequence :: u64
  rc_checkpoint_last_physical_sequence :: u64
  rc_reclaimed_segments :: nat
  rc_reclaimed_records :: nat

text \<open>\<^verbatim>\<open>Impl\<close>. The directory and its files are the storage; the active file is an inode, absent while
  it is closed.\<close>

record RaftPersistentLog =
  log_config :: RaftPersistentLogConfig
  log_storage :: Storage
  active_file :: "nat option"
  recovered :: RaftPersistentLogRecovery
  known_groups :: "GroupId set"
  segment_record_counts :: "(u64 \<times> nat) list"
  recovery_anchors :: "u64 set"
  log_failure :: StatusCode
  log_open :: bool

definition validate_config :: "RaftPersistentLogConfig \<Rightarrow> StatusCode" where
  "validate_config c =
     (if directory_path c = [] \<or> unat (file_permissions c) \<ge> 512 \<or>
         target_segment_size c < kMinimumTargetSize \<or> target_segment_size c > kMaximumRaftSegmentSize \<or>
         maximum_segments c = 0 \<or> maximum_records c = 0 \<or> lc_maximum_groups c = 0
      then kInvalidArgument else kOk)"

text \<open>\<^verbatim>\<open>fail\<close> keeps the first failure and returns it.\<close>

definition log_fail :: "RaftPersistentLog \<Rightarrow> StatusCode \<Rightarrow> RaftPersistentLog \<times> StatusCode" where
  "log_fail l status =
     (if is_ok (log_failure l) then (l\<lparr>log_failure := status\<rparr>, status) else (l, log_failure l))"

definition failing :: "RaftPersistentLog \<Rightarrow> StatusCode \<Rightarrow> RaftPersistentLog \<times> 'a result" where
  "failing l status = (case log_fail l status of (l', code) \<Rightarrow> (l', make_unexpected code))"

section \<open>Installing files\<close>

definition install_segment :: "Storage \<Rightarrow> u64 \<Rightarrow> u64 \<Rightarrow> nat result \<times> Storage" where
  "install_segment s number first_sequence =
     (case encode_segment_header number first_sequence of
        Inl e \<Rightarrow> (make_unexpected e, s)
      | Inr header \<Rightarrow>
          let temporary = segment_name number kTemporarySuffix;
              final = segment_name number kSegmentSuffix in
          case create_exclusive_regular_file s temporary of
            (Inl e, s1) \<Rightarrow> (make_unexpected e, s1)
          | (Inr file, s1) \<Rightarrow>
              let r1 = write_all_at s1 file 0 header;
                  r2 = io_then r1 (\<lambda>s. sync_file s file);
                  r3 = io_then r2 (\<lambda>s. rename_no_replace s temporary final);
                  r4 = io_then r3 sync_directory
              in if \<not> is_ok (fst r4) then (make_unexpected (fst r4), snd r4) else (Inr file, snd r4))"

definition install_recovery_anchor :: "Storage \<Rightarrow> RecoveryAnchor \<Rightarrow> StatusCode \<times> Storage" where
  "install_recovery_anchor s anchor =
     (case encode_recovery_anchor anchor of
        Inl e \<Rightarrow> (e, s)
      | Inr encoded \<Rightarrow>
          let temporary = recovery_anchor_name (ra_base_segment_number anchor) kRecoveryAnchorTemporarySuffix;
              final = recovery_anchor_name (ra_base_segment_number anchor) kRecoveryAnchorSuffix in
          case create_exclusive_regular_file s temporary of
            (Inl e, s1) \<Rightarrow> (e, s1)
          | (Inr file, s1) \<Rightarrow>
              let r1 = write_all_at s1 file 0 encoded;
                  r2 = io_then r1 (\<lambda>s. sync_file s file);
                  r3 = io_then r2 (\<lambda>s. rename_no_replace s temporary final);
                  r4 = io_then r3 sync_directory;
                  (close_status, s5) = close_file (snd r4)
              in (if is_ok (fst r4) \<and> \<not> is_ok close_status then close_status else fst r4, s5))"

section \<open>Creation\<close>

text \<open>The two passes over the directory: before the lock only the lock and an interrupted first
  segment may exist; under the lock the same holds and the lock is there. The second pass returns
  whether the lock was seen and whether the interrupted segment was seen.\<close>

definition initial_entries_ok :: "(string \<times> DirectoryEntryType) list \<Rightarrow> bool" where
  "initial_entries_ok es =
     list_all (\<lambda>(name, t). (name = kLockName \<or> name = segment_name 1 kTemporarySuffix) \<and> t = kRegularFile) es"

fun locked_entries :: "(string \<times> DirectoryEntryType) list \<Rightarrow> bool \<Rightarrow> bool \<Rightarrow> (bool \<times> bool) result" where
  "locked_entries [] lock_visible remove_interrupted = Inr (lock_visible, remove_interrupted)"
| "locked_entries ((name, t) # es) lock_visible remove_interrupted =
     (if t \<noteq> kRegularFile then Inl kInvalidArgument
      else if name = kLockName \<and> \<not> lock_visible then locked_entries es True remove_interrupted
      else if name = segment_name 1 kTemporarySuffix \<and> \<not> remove_interrupted
      then locked_entries es lock_visible True
      else Inl kInvalidArgument)"

definition initial_position :: RaftPhysicalPosition where
  "initial_position = \<lparr>segment_number = 1, end_offset = kRaftSegmentHeaderSize, position_sequence = 0\<rparr>"

definition empty_recovery :: RaftPersistentLogRecovery where
  "empty_recovery = \<lparr>latest_group_states = [], written_position = \<lparr>segment_number = 0, end_offset = 0,
      position_sequence = 0\<rparr>, durable_physical_sequence = 0, segment_count = 0, record_count = 0,
      repaired_bytes = 0, base_segment_number = 1\<rparr>"

definition create_new_log :: "RaftPersistentLogConfig \<Rightarrow> Storage \<Rightarrow> RaftPersistentLog result \<times> Storage" where
  "create_new_log c s =
     (if \<not> is_ok (validate_config c) then (make_unexpected (validate_config c), s)
      else let (opened, s1) = open_directory s in
        if \<not> is_ok opened then (make_unexpected opened, s1)
        else case list_entries s1 of
          (Inl e, s2) \<Rightarrow> (make_unexpected e, s2)
        | (Inr initial, s2) \<Rightarrow>
            if \<not> initial_entries_ok initial then (Inl kInvalidArgument, s2)
            else let (locked, s3) = acquire_exclusive_lock s2 kLockName in
              if \<not> is_ok locked then (make_unexpected locked, s3)
              else case list_entries s3 of
                (Inl e, s4) \<Rightarrow> (make_unexpected e, s4)
              | (Inr es, s4) \<Rightarrow>
                  (case locked_entries es False False of
                     Inl e \<Rightarrow> (Inl e, s4)
                   | Inr (lock_visible, remove_interrupted) \<Rightarrow>
                       if \<not> lock_visible then (Inl kInvalidArgument, s4)
                       else let r1 = (if remove_interrupted
                                      then remove_file s4 (segment_name 1 kTemporarySuffix) else (kOk, s4));
                                r2 = io_then r1 sync_directory
                            in if \<not> is_ok (fst r2) then (make_unexpected (fst r2), snd r2)
                               else case install_segment (snd r2) 1 1 of
                                 (Inl e, s6) \<Rightarrow> (make_unexpected e, s6)
                               | (Inr file, s6) \<Rightarrow>
                                   (Inr \<lparr>log_config = c, log_storage = s6, active_file = Some file,
                                         recovered = empty_recovery\<lparr>written_position := initial_position,
                                           segment_count := 1\<rparr>,
                                         known_groups = {}, segment_record_counts = [(1, 0)],
                                         recovery_anchors = {}, log_failure = kOk, log_open = True\<rparr>, s6)))"

section \<open>Appending\<close>

text \<open>The checks before the first system call: the encoded record and whether the segment rotates.\<close>

definition append_checks :: "RaftPersistentLog \<Rightarrow> GroupPersistentState \<Rightarrow> (byte list \<times> bool) result" where
  "append_checks l p =
     (let rec = recovered l; c = log_config l; pos = written_position rec in
      if \<not> log_open l then Inl kInvalidArgument
      else if \<not> is_ok (log_failure l) then make_unexpected (log_failure l)
      else if position_sequence pos = - 1 \<or> gps_physical_sequence p \<noteq> position_sequence pos + 1
      then Inl kInvalidArgument
      else if record_count rec \<ge> maximum_records c then Inl kResourceExhausted
      else if gps_group_id p \<notin> known_groups l \<and> card (known_groups l) \<ge> lc_maximum_groups c
      then Inl kResourceExhausted
      else case encode_multiplexed_log_record_v1 p of
        Inl e \<Rightarrow> make_unexpected e
      | Inr encoded \<Rightarrow>
          if length encoded + kRaftSegmentHeaderSize > target_segment_size c then Inl kResourceExhausted
          else let rotates = (end_offset pos > target_segment_size c - length encoded)
               in if rotates \<and> (segment_count rec \<ge> maximum_segments c \<or> segment_number pos = - 1)
                  then Inl kResourceExhausted
                  else Inr (encoded, rotates))"

text \<open>Operations on an inode that is not there report an invalid handle.\<close>

definition on_active :: "RaftPersistentLog \<Rightarrow> (Storage \<Rightarrow> nat \<Rightarrow> StatusCode \<times> Storage) \<Rightarrow>
    StatusCode \<times> RaftPersistentLog" where
  "on_active l f =
     (case active_file l of
        None \<Rightarrow> (kInvalidArgument, l)
      | Some file \<Rightarrow> (case f (log_storage l) file of (status, s) \<Rightarrow> (status, l\<lparr>log_storage := s\<rparr>)))"

definition close_active :: "RaftPersistentLog \<Rightarrow> StatusCode \<times> RaftPersistentLog" where
  "close_active l =
     (case active_file l of
        None \<Rightarrow> (kOk, l)
      | Some file \<Rightarrow>
          (case close_file (log_storage l) of
             (status, s) \<Rightarrow> (status, l\<lparr>log_storage := s, active_file := None\<rparr>)))"

text \<open>Synchronizing and closing the active file, and moving on to a new segment.\<close>

definition retire_segment :: "RaftPersistentLog \<Rightarrow> StatusCode \<times> RaftPersistentLog" where
  "retire_segment l =
     (case on_active l sync_file of
        (status, l1) \<Rightarrow>
          if \<not> is_ok status then (status, l1)
          else close_active (l1\<lparr>recovered := (recovered l1)\<lparr>durable_physical_sequence :=
                 position_sequence (written_position (recovered l1))\<rparr>\<rparr>))"

definition start_segment :: "RaftPersistentLog \<Rightarrow> u64 \<Rightarrow> u64 \<Rightarrow> StatusCode \<times> RaftPersistentLog" where
  "start_segment l number first_sequence =
     (case install_segment (log_storage l) number first_sequence of
        (Inl e, s) \<Rightarrow> (e, l\<lparr>log_storage := s\<rparr>)
      | (Inr file, s) \<Rightarrow>
          (kOk, l\<lparr>log_storage := s, active_file := Some file,
             recovered := (recovered l)\<lparr>
               written_position := (written_position (recovered l))\<lparr>segment_number := number,
                 end_offset := kRaftSegmentHeaderSize\<rparr>,
               segment_count := segment_count (recovered l) + 1\<rparr>,
             segment_record_counts :=
               (if map_of (segment_record_counts l) number = None
                then ordered_insert number 0 (segment_record_counts l) else segment_record_counts l)\<rparr>))"

definition rotate_segment :: "RaftPersistentLog \<Rightarrow> u64 \<Rightarrow> StatusCode \<times> RaftPersistentLog" where
  "rotate_segment l first_sequence =
     (case retire_segment l of
        (status, l1) \<Rightarrow>
          if \<not> is_ok status then (status, l1)
          else start_segment l1 (segment_number (written_position (recovered l1)) + 1) first_sequence)"

text \<open>\<^verbatim>\<open>operator[]\<close> of the map starts a missing count at zero.\<close>

definition count_record :: "u64 \<Rightarrow> (u64 \<times> nat) list \<Rightarrow> (u64 \<times> nat) list" where
  "count_record k m = ordered_insert k (Suc (case map_of m k of None \<Rightarrow> 0 | Some c \<Rightarrow> c)) m"

definition write_record :: "RaftPersistentLog \<Rightarrow> u64 \<Rightarrow> byte list \<Rightarrow>
    RaftPersistentLog \<times> RaftPhysicalPosition result" where
  "write_record l sequence encoded =
     (let pos = written_position (recovered l) in
      case on_active l (\<lambda>s file. write_all_at s file (end_offset pos) encoded) of
        (status, l1) \<Rightarrow>
          if \<not> is_ok status then failing l1 status
          else let pos' = pos\<lparr>end_offset := end_offset pos + length encoded, position_sequence := sequence\<rparr>
               in (l1\<lparr>recovered := (recovered l1)\<lparr>written_position := pos',
                        record_count := record_count (recovered l1) + 1\<rparr>,
                      segment_record_counts := count_record (segment_number pos') (segment_record_counts l1)\<rparr>,
                   Inr pos'))"

definition append_record :: "RaftPersistentLog \<Rightarrow> GroupPersistentState \<Rightarrow>
    RaftPersistentLog \<times> RaftPhysicalPosition result" where
  "append_record l p =
     (case append_checks l p of
        Inl e \<Rightarrow> (l, Inl e)
      | Inr (encoded, rotates) \<Rightarrow>
          let l1 = l\<lparr>known_groups := insert (gps_group_id p) (known_groups l)\<rparr> in
          if rotates
          then (case rotate_segment l1 (gps_physical_sequence p) of
                  (status, l2) \<Rightarrow>
                    if \<not> is_ok status then failing l2 status
                    else write_record l2 (gps_physical_sequence p) encoded)
          else write_record l1 (gps_physical_sequence p) encoded)"

definition synchronize :: "RaftPersistentLog \<Rightarrow> RaftPersistentLog \<times> RaftPhysicalPosition result" where
  "synchronize l =
     (if \<not> log_open l then (l, Inl kInvalidArgument)
      else if \<not> is_ok (log_failure l) then (l, make_unexpected (log_failure l))
      else case on_active l sync_file of
        (status, l1) \<Rightarrow>
          if \<not> is_ok status then failing l1 status
          else let pos = written_position (recovered l1)
               in (l1\<lparr>recovered := (recovered l1)\<lparr>durable_physical_sequence := position_sequence pos\<rparr>\<rparr>,
                   Inr pos))"

section \<open>Checkpoint and reclamation\<close>

text \<open>The checks of the records of a checkpoint: consecutive sequences, distinct groups, each small
  enough. The result is the set of groups and the sizes of the encoded records.\<close>

fun checkpoint_checks :: "nat \<Rightarrow> u64 \<Rightarrow> GroupId set \<Rightarrow> GroupPersistentState list \<Rightarrow> (GroupId set \<times> nat list) result" where
  "checkpoint_checks target expected gs [] = Inr (gs, [])"
| "checkpoint_checks target expected gs (p # ps) =
     (if expected = - 1 then Inl kInvalidArgument
      else if gps_physical_sequence p \<noteq> expected + 1 \<or> gps_group_id p \<in> gs then Inl kInvalidArgument
      else case encode_multiplexed_log_record_v1 p of
        Inl e \<Rightarrow> make_unexpected e
      | Inr encoded \<Rightarrow>
          if length encoded + kRaftSegmentHeaderSize > target then Inl kResourceExhausted
          else (case checkpoint_checks target (expected + 1) (insert (gps_group_id p) gs) ps of
                  Inl e \<Rightarrow> Inl e
                | Inr (all_groups, sizes) \<Rightarrow> Inr (all_groups, length encoded # sizes)))"

fun simulated_segments :: "nat \<Rightarrow> nat list \<Rightarrow> nat \<Rightarrow> nat \<Rightarrow> nat" where
  "simulated_segments target [] additional simulated_end = additional"
| "simulated_segments target (n # ns) additional simulated_end =
     (if simulated_end > target - n
      then simulated_segments target ns (additional + 1) (kRaftSegmentHeaderSize + n)
      else simulated_segments target ns additional (simulated_end + n))"

definition reclaim_checks :: "RaftPersistentLog \<Rightarrow> GroupPersistentState list \<Rightarrow> StatusCode" where
  "reclaim_checks l checkpoint =
     (let c = log_config l; rec = recovered l; pos = written_position rec in
      if \<not> log_open l then kInvalidArgument
      else if \<not> is_ok (log_failure l) then log_failure l
      else if checkpoint = [] \<or> length checkpoint < card (known_groups l) \<or>
              length checkpoint > lc_maximum_groups c
      then kInvalidArgument
      else if length checkpoint > maximum_records c - record_count rec then kResourceExhausted
      else case checkpoint_checks (target_segment_size c) (position_sequence pos) {} checkpoint of
        Inl e \<Rightarrow> e
      | Inr (checkpoint_groups, sizes) \<Rightarrow>
          if \<not> known_groups l \<subseteq> checkpoint_groups then kInvalidArgument
          else if segment_number pos = - 1 \<or>
                  simulated_segments (target_segment_size c) sizes 1 kRaftSegmentHeaderSize
                    > maximum_segments c - segment_count rec
          then kResourceExhausted
          else kOk)"

fun append_all :: "RaftPersistentLog \<Rightarrow> GroupPersistentState list \<Rightarrow> StatusCode \<times> RaftPersistentLog" where
  "append_all l [] = (kOk, l)"
| "append_all l (p # ps) =
     (case append_record l p of
        (l', Inl e) \<Rightarrow> (e, l')
      | (l', Inr pos) \<Rightarrow> append_all l' ps)"

text \<open>Removing the segments and the anchors below the base, in ascending order. The segments return
  how many files and records went away.\<close>

fun reclaim_segments :: "u64 \<Rightarrow> (u64 \<times> nat) list \<Rightarrow> Storage \<Rightarrow> nat \<Rightarrow> nat \<Rightarrow>
    StatusCode \<times> (u64 \<times> nat) list \<times> Storage \<times> nat \<times> nat" where
  "reclaim_segments base [] s segments records = (kOk, [], s, segments, records)"
| "reclaim_segments base ((number, count) # rest) s segments records =
     (if number < base
      then (case remove_file s (segment_name number kSegmentSuffix) of
              (status, s') \<Rightarrow>
                if \<not> is_ok status then (status, (number, count) # rest, s', segments, records)
                else reclaim_segments base rest s' (segments + 1) (records + count))
      else (kOk, (number, count) # rest, s, segments, records))"

fun reclaim_anchors :: "u64 \<Rightarrow> u64 list \<Rightarrow> Storage \<Rightarrow> StatusCode \<times> u64 list \<times> Storage" where
  "reclaim_anchors base [] s = (kOk, [], s)"
| "reclaim_anchors base (number # rest) s =
     (if number < base
      then (case remove_file s (recovery_anchor_name number kRecoveryAnchorSuffix) of
              (status, s') \<Rightarrow>
                if \<not> is_ok status then (status, number # rest, s')
                else reclaim_anchors base rest s')
      else (kOk, number # rest, s))"

text \<open>The part after the anchor is durable.\<close>

definition reclaim_below :: "RaftPersistentLog \<Rightarrow> u64 \<Rightarrow> GroupPersistentState list \<Rightarrow>
    RaftPersistentLog \<times> RaftPersistentLogReclamation result" where
  "reclaim_below l base checkpoint =
     (case reclaim_segments base (segment_record_counts l) (log_storage l) 0 0 of
        (status, counts, s1, segments, records) \<Rightarrow>
          let l1 = l\<lparr>segment_record_counts := counts, log_storage := s1\<rparr> in
          if \<not> is_ok status then failing l1 status
          else let (status, s2) = sync_directory s1; l2 = l1\<lparr>log_storage := s2\<rparr> in
            if \<not> is_ok status then failing l2 status
            else case reclaim_anchors base (sorted_list_of_set (recovery_anchors l2)) s2 of
              (status, anchors, s3) \<Rightarrow>
                let l3 = l2\<lparr>recovery_anchors := set anchors, log_storage := s3\<rparr> in
                if \<not> is_ok status then failing l3 status
                else let (status, s4) = sync_directory s3; l4 = l3\<lparr>log_storage := s4\<rparr> in
                  if \<not> is_ok status then failing l4 status
                  else (l4\<lparr>recovered := (recovered l4)\<lparr>base_segment_number := base,
                             segment_count := segment_count (recovered l4) - segments,
                             record_count := record_count (recovered l4) - records\<rparr>\<rparr>,
                        Inr \<lparr>rc_base_segment_number = base,
                             rc_checkpoint_first_physical_sequence = gps_physical_sequence (hd checkpoint),
                             rc_checkpoint_last_physical_sequence = gps_physical_sequence (last checkpoint),
                             rc_reclaimed_segments = segments, rc_reclaimed_records = records\<rparr>))"

definition checkpoint_and_reclaim :: "RaftPersistentLog \<Rightarrow> GroupPersistentState list \<Rightarrow>
    RaftPersistentLog \<times> RaftPersistentLogReclamation result" where
  "checkpoint_and_reclaim l checkpoint =
     (if \<not> is_ok (reclaim_checks l checkpoint) then (l, make_unexpected (reclaim_checks l checkpoint))
      else case retire_segment l of
        (status, l1) \<Rightarrow>
          if \<not> is_ok status then failing l1 status
          else let base = segment_number (written_position (recovered l1)) + 1 in
            case start_segment l1 base (gps_physical_sequence (hd checkpoint)) of
              (status, l2) \<Rightarrow>
                if \<not> is_ok status then failing l2 status
                else case append_all l2 checkpoint of
                  (status, l3) \<Rightarrow>
                    if \<not> is_ok status then failing l3 status
                    else case synchronize l3 of
                      (l4, Inl e) \<Rightarrow> failing l4 e
                    | (l4, Inr pos) \<Rightarrow>
                        let anchor = \<lparr>ra_base_segment_number = base,
                              ra_checkpoint_first_sequence = gps_physical_sequence (hd checkpoint),
                              ra_checkpoint_last_sequence = gps_physical_sequence (last checkpoint),
                              ra_checkpoint_group_count = of_nat (length checkpoint)\<rparr>;
                            (status, s5) = install_recovery_anchor (log_storage l4) anchor;
                            l5 = l4\<lparr>log_storage := s5\<rparr>
                        in if \<not> is_ok status then failing l5 status
                           else reclaim_below
                                  (l5\<lparr>recovery_anchors := insert base (recovery_anchors l5)\<rparr>) base checkpoint)"

section \<open>Observation and closing\<close>

definition log_is_failed :: "RaftPersistentLog \<Rightarrow> bool" where
  "log_is_failed l = (\<not> is_ok (log_failure l))"

definition close_log :: "RaftPersistentLog \<Rightarrow> StatusCode \<times> RaftPersistentLog" where
  "close_log l =
     (if \<not> log_open l then (kOk, l)
      else case close_active l of
        (first, l1) \<Rightarrow>
          let (lock_status, s2) = close_file (log_storage l1);
              first2 = (if is_ok first \<and> \<not> is_ok lock_status then lock_status else first);
              (directory_status, s3) = close_file s2;
              first3 = (if is_ok first2 \<and> \<not> is_ok directory_status then directory_status else first2)
          in (first3, l1\<lparr>log_storage := s3, log_open := False\<rparr>))"

end
