(* ===== verification/Log_Recovery.thy ===== *)
theory Log_Recovery
  imports Persistent_Log "HOL-Library.Product_Lexorder"
begin

text \<open>
  \<^verbatim>\<open>RaftPersistentLog::open_existing_with\<close>: the directory is classified, the newest recovery anchor
  chooses the first segment, the retained segments are scanned record by record, an incomplete
  record at the very end may be cut off, and everything older than the anchor is removed.
\<close>

section \<open>Classification of the directory\<close>

record DirectoryFiles =
  df_segments :: "(u64 \<times> string) list"
  df_anchors :: "(u64 \<times> string) list"
  df_temporaries :: "string list"

fun classify_entries :: "(string \<times> DirectoryEntryType) list \<Rightarrow> DirectoryFiles result" where
  "classify_entries [] = Inr \<lparr>df_segments = [], df_anchors = [], df_temporaries = []\<rparr>"
| "classify_entries ((name, t) # es) =
     (if name = kLockName
      then if t \<noteq> kRegularFile then Inl kCorruption else classify_entries es
      else if t \<noteq> kRegularFile then Inl kCorruption
      else if is_temporary_name name \<or> is_recovery_anchor_temporary_name name
      then map_sum id (\<lambda>d. d\<lparr>df_temporaries := name # df_temporaries d\<rparr>) (classify_entries es)
      else case parse_recovery_anchor_name name kRecoveryAnchorSuffix of
        Inr number \<Rightarrow> map_sum id (\<lambda>d. d\<lparr>df_anchors := (number, name) # df_anchors d\<rparr>) (classify_entries es)
      | Inl _ \<Rightarrow>
          (case parse_segment_name name of
             Inl _ \<Rightarrow> Inl kCorruption
           | Inr number \<Rightarrow>
               map_sum id (\<lambda>d. d\<lparr>df_segments := (number, name) # df_segments d\<rparr>) (classify_entries es)))"

text \<open>The local function \<^verbatim>\<open>read_exact\<close> on files.\<close>

definition read_file :: "Storage \<Rightarrow> nat \<Rightarrow> nat \<Rightarrow> nat \<Rightarrow> byte list result \<times> Storage" where
  "read_file s file offset count =
     (case read_at s file offset count of
        (Inl e, s') \<Rightarrow> (Inl e, s')
      | (Inr bytes, s') \<Rightarrow> if length bytes \<noteq> count then (Inl kCorruption, s') else (Inr bytes, s'))"

definition read_anchor :: "Storage \<Rightarrow> (u64 \<times> string) list \<Rightarrow> RecoveryAnchor option result \<times> Storage" where
  "read_anchor s anchors =
     (if anchors = [] then (Inr None, s)
      else let (number, name) = last anchors in
        case open_regular_file s name of
          (Inl e, s1) \<Rightarrow> (make_unexpected e, s1)
        | (Inr file, s1) \<Rightarrow>
            (case file_size s1 file of
               (Inl e, s2) \<Rightarrow> (make_unexpected e, s2)
             | (Inr sz, s2) \<Rightarrow>
                 if sz \<noteq> kRecoveryAnchorSize then (Inl kCorruption, s2)
                 else (case read_file s2 file 0 kRecoveryAnchorSize of
                         (Inl e, s3) \<Rightarrow> (make_unexpected e, s3)
                       | (Inr bytes, s3) \<Rightarrow>
                           (case decode_recovery_anchor bytes number of
                              Inl e \<Rightarrow> (make_unexpected e, s3)
                            | Inr a \<Rightarrow> (Inr (Some a), s3)))))"

definition retained_segments :: "(u64 \<times> string) list \<Rightarrow> u64 \<Rightarrow> nat \<Rightarrow> (u64 \<times> string) list result" where
  "retained_segments segments base limit =
     (let retained = dropWhile (\<lambda>(number, _). number < base) segments in
      if retained = [] \<or> fst (hd retained) \<noteq> base then Inl kCorruption
      else if length retained > limit then Inl kCorruption
      else if \<not> list_all (\<lambda>(i, number, _). number = base + of_nat i) (enumerate 0 retained) then Inl kCorruption
      else Inr retained)"

section \<open>The scan\<close>

text \<open>The variables of the loops.\<close>

record Scan =
  sc_latest :: "(GroupId \<times> GroupPersistentState) list"
  sc_counts :: "(u64 \<times> nat) list"
  sc_checkpoint_groups :: "GroupId set"
  sc_record_count :: nat
  sc_last_sequence :: u64
  sc_active_end :: nat
  sc_repaired_bytes :: nat

text \<open>What happens with one decoded record.\<close>

definition accept_record :: "RaftPersistentLogConfig \<Rightarrow> RecoveryAnchor option \<Rightarrow> Scan \<Rightarrow> GroupPersistentState \<Rightarrow>
    Scan result" where
  "accept_record c anchor sc p =
     (if sc_last_sequence sc = - 1 \<or> gps_physical_sequence p \<noteq> sc_last_sequence sc + 1 then Inl kCorruption
      else if sc_record_count sc + 1 > maximum_records c then Inl kResourceExhausted
      else let in_checkpoint = (case anchor of None \<Rightarrow> False
                 | Some a \<Rightarrow> gps_physical_sequence p \<le> ra_checkpoint_last_sequence a)
           in if in_checkpoint \<and> gps_group_id p \<in> sc_checkpoint_groups sc then Inl kCorruption
              else let latest = ordered_insert (gps_group_id p) p (sc_latest sc)
                   in if length latest > lc_maximum_groups c then Inl kResourceExhausted
                      else Inr (sc\<lparr>sc_record_count := sc_record_count sc + 1,
                                  sc_checkpoint_groups := (if in_checkpoint
                                    then insert (gps_group_id p) (sc_checkpoint_groups sc)
                                    else sc_checkpoint_groups sc),
                                  sc_latest := latest, sc_last_sequence := gps_physical_sequence p\<rparr>))"

text \<open>An incomplete record: an error, or the end of the file is cut off.\<close>

definition repair_tail :: "RecoveryAnchor option \<Rightarrow> bool \<Rightarrow> Storage \<Rightarrow> nat \<Rightarrow> nat \<Rightarrow> nat \<Rightarrow> Scan \<Rightarrow>
    Scan result \<times> Storage" where
  "repair_tail anchor may_repair s file size_of_file offset sc =
     (if (case anchor of None \<Rightarrow> False | Some a \<Rightarrow> sc_last_sequence sc < ra_checkpoint_last_sequence a)
      then (Inl kCorruption, s)
      else if \<not> may_repair then (Inl kCorruption, s)
      else let r1 = truncate_file s file offset;
               r2 = io_then r1 (\<lambda>s. sync_file s file);
               r3 = io_then r2 sync_directory
           in if \<not> is_ok (fst r3) then (make_unexpected (fst r3), snd r3)
              else (Inr (sc\<lparr>sc_repaired_bytes := size_of_file - offset\<rparr>), snd r3))"

text \<open>One iteration of the loop over the records: the end of the loop, or the next offset. The header
  is inspected before the record is read.\<close>

datatype RecordStep = Stop | Continue nat

definition scan_record :: "RaftPersistentLogConfig \<Rightarrow> RecoveryAnchor option \<Rightarrow> bool \<Rightarrow> Storage \<Rightarrow> nat \<Rightarrow> nat \<Rightarrow> nat \<Rightarrow>
    Scan \<Rightarrow> (RecordStep \<times> Scan) result \<times> Storage" where
  "scan_record c anchor may_repair s file size_of_file offset sc =
     (let remaining = size_of_file - offset in
      if remaining < kMultiplexedLogHeaderSize
      then (case repair_tail anchor may_repair s file size_of_file offset sc of
              (r, s') \<Rightarrow> (map_sum id (\<lambda>sc. (Stop, sc)) r, s'))
      else case read_file s file offset kMultiplexedLogHeaderSize of
        (Inl e, s1) \<Rightarrow> (make_unexpected e, s1)
      | (Inr header, s1) \<Rightarrow>
          (case inspect_multiplexed_log_record_header_v1 header of
             Inl e \<Rightarrow> (make_unexpected e, s1)
           | Inr h \<Rightarrow>
               if mh_encoded_size h > remaining
               then (case repair_tail anchor may_repair s1 file size_of_file offset sc of
                       (r, s') \<Rightarrow> (map_sum id (\<lambda>sc. (Stop, sc)) r, s'))
               else (case read_file s1 file offset (mh_encoded_size h) of
                       (Inl e, s2) \<Rightarrow> (make_unexpected e, s2)
                     | (Inr bytes, s2) \<Rightarrow>
                         (case decode_multiplexed_log_record_v1 bytes of
                            Inl e \<Rightarrow> (make_unexpected e, s2)
                          | Inr d \<Rightarrow>
                              (map_sum id (\<lambda>sc. (Continue (mh_encoded_size h), sc))
                                 (accept_record c anchor sc (dgps_persistent d)), s2)))))"

text \<open>The result holds the scan, the number of records of this segment and the end offset. A step that
  makes no progress cannot occur; it would end the loop.\<close>

function scan_records :: "RaftPersistentLogConfig \<Rightarrow> RecoveryAnchor option \<Rightarrow> bool \<Rightarrow> Storage \<Rightarrow> nat \<Rightarrow> nat \<Rightarrow> nat \<Rightarrow>
    nat \<Rightarrow> Scan \<Rightarrow> (Scan \<times> nat \<times> nat) result \<times> Storage" where
  "scan_records c anchor may_repair s file size_of_file offset count sc =
     (if offset < size_of_file
      then case scan_record c anchor may_repair s file size_of_file offset sc of
             (Inl e, s') \<Rightarrow> (Inl e, s')
           | (Inr (Stop, sc'), s') \<Rightarrow> (Inr (sc', count, offset), s')
           | (Inr (Continue n, sc'), s') \<Rightarrow>
               if n = 0 then (Inl kInternal, s')
               else scan_records c anchor may_repair s' file size_of_file (offset + n) (count + 1) sc'
      else (Inr (sc, count, offset), s))"
  by pat_completeness auto
termination
  by (relation "measure (\<lambda>(c, anchor, may_repair, s, file, size_of_file, offset, count, sc). size_of_file - offset)")
    auto

declare scan_records.simps [simp del]

definition scan_segment :: "RaftPersistentLogConfig \<Rightarrow> RecoveryAnchor option \<Rightarrow> bool \<Rightarrow> Storage \<Rightarrow> u64 \<Rightarrow> string \<Rightarrow>
    Scan \<Rightarrow> Scan result \<times> Storage" where
  "scan_segment c anchor may_repair s number name sc =
     (case open_regular_file s name of
        (Inl e, s1) \<Rightarrow> (make_unexpected e, s1)
      | (Inr file, s1) \<Rightarrow>
          (case file_size s1 file of
             (Inl e, s2) \<Rightarrow> (make_unexpected e, s2)
           | (Inr sz, s2) \<Rightarrow>
               if sz < kRaftSegmentHeaderSize \<or> sz > kMaximumRaftSegmentSize then (Inl kCorruption, s2)
               else (case read_file s2 file 0 kRaftSegmentHeaderSize of
                       (Inl e, s3) \<Rightarrow> (make_unexpected e, s3)
                     | (Inr bytes, s3) \<Rightarrow>
                         (case decode_segment_header bytes number of
                            Inl e \<Rightarrow> (make_unexpected e, s3)
                          | Inr h \<Rightarrow>
                              if sc_last_sequence sc = - 1 \<or> sh_first_sequence h \<noteq> sc_last_sequence sc + 1
                              then (Inl kCorruption, s3)
                              else (case scan_records c anchor may_repair s3 file sz kRaftSegmentHeaderSize 0 sc of
                                      (Inl e, s4) \<Rightarrow> (Inl e, s4)
                                    | (Inr (sc', count, offset), s4) \<Rightarrow>
                                        (Inr (sc'\<lparr>sc_counts := ordered_insert number count (sc_counts sc'),
                                                 sc_active_end := offset\<rparr>), s4))))))"

fun scan_segments :: "RaftPersistentLogConfig \<Rightarrow> RecoveryAnchor option \<Rightarrow> bool \<Rightarrow> Storage \<Rightarrow> (u64 \<times> string) list \<Rightarrow>
    Scan \<Rightarrow> Scan result \<times> Storage" where
  "scan_segments c anchor may_repair s [] sc = (Inr sc, s)"
| "scan_segments c anchor may_repair s ((number, name) # rest) sc =
     (case scan_segment c anchor (may_repair \<and> rest = []) s number name sc of
        (Inl e, s') \<Rightarrow> (Inl e, s')
      | (Inr sc', s') \<Rightarrow> scan_segments c anchor may_repair s' rest sc')"

section \<open>Cleaning up and opening\<close>

fun remove_files :: "Storage \<Rightarrow> string list \<Rightarrow> StatusCode \<times> Storage" where
  "remove_files s [] = (kOk, s)"
| "remove_files s (name # names) = io_then (remove_file s name) (\<lambda>s. remove_files s names)"

definition initial_scan :: "RecoveryAnchor option \<Rightarrow> Scan" where
  "initial_scan anchor =
     \<lparr>sc_latest = [], sc_counts = [], sc_checkpoint_groups = {}, sc_record_count = 0,
      sc_last_sequence = (case anchor of None \<Rightarrow> 0 | Some a \<Rightarrow> ra_checkpoint_first_sequence a - 1),
      sc_active_end = kRaftSegmentHeaderSize, sc_repaired_bytes = 0\<rparr>"

definition checkpoint_complete :: "RecoveryAnchor option \<Rightarrow> Scan \<Rightarrow> bool" where
  "checkpoint_complete anchor sc =
     (case anchor of None \<Rightarrow> True
      | Some a \<Rightarrow> ra_checkpoint_last_sequence a \<le> sc_last_sequence sc \<and>
          card (sc_checkpoint_groups sc) = unat (ra_checkpoint_group_count a))"

definition recovered_log :: "RaftPersistentLogConfig \<Rightarrow> Storage \<Rightarrow> nat \<Rightarrow> RecoveryAnchor option \<Rightarrow> u64 \<Rightarrow>
    (u64 \<times> string) list \<Rightarrow> Scan \<Rightarrow> RaftPersistentLog" where
  "recovered_log c s file anchor base retained sc =
     \<lparr>log_config = c, log_storage = s, active_file = Some file,
      recovered = \<lparr>latest_group_states = map snd (sc_latest sc),
        written_position = \<lparr>segment_number = fst (last retained), end_offset = sc_active_end sc,
                            position_sequence = sc_last_sequence sc\<rparr>,
        durable_physical_sequence = sc_last_sequence sc, segment_count = length retained,
        record_count = sc_record_count sc, repaired_bytes = sc_repaired_bytes sc, base_segment_number = base\<rparr>,
      known_groups = gps_group_id ` set (map snd (sc_latest sc)),
      segment_record_counts = sc_counts sc,
      recovery_anchors = (case anchor of None \<Rightarrow> {} | Some a \<Rightarrow> {ra_base_segment_number a}),
      log_failure = kOk, log_open = True\<rparr>"

text \<open>The stale files: temporaries, segments below the base, and anchors of another base.\<close>

definition stale_files :: "DirectoryFiles \<Rightarrow> u64 \<Rightarrow> string list" where
  "stale_files d base =
     df_temporaries d @
     map snd (takeWhile (\<lambda>(number, _). number < base) (sort (df_segments d))) @
     map snd (filter (\<lambda>(number, _). number \<noteq> base) (sort (df_anchors d)))"

definition finish_open :: "RaftPersistentLogConfig \<Rightarrow> Storage \<Rightarrow> DirectoryFiles \<Rightarrow> RecoveryAnchor option \<Rightarrow> u64 \<Rightarrow>
    (u64 \<times> string) list \<Rightarrow> Scan \<Rightarrow> RaftPersistentLog result \<times> Storage" where
  "finish_open c s d anchor base retained sc =
     (let stale = stale_files d base;
          r1 = remove_files s stale;
          r2 = (if stale \<noteq> [] then io_then r1 sync_directory else r1)
      in if \<not> is_ok (fst r2) then (make_unexpected (fst r2), snd r2)
         else case open_regular_file (snd r2) (snd (last retained)) of
           (Inl e, s3) \<Rightarrow> (make_unexpected e, s3)
         | (Inr file, s3) \<Rightarrow>
             let r4 = io_then (sync_file s3 file) sync_directory
             in if \<not> is_ok (fst r4) then (make_unexpected (fst r4), snd r4)
                else (Inr (recovered_log c (snd r4) file anchor base retained sc), snd r4))"

text \<open>Everything after the classification.\<close>

definition open_classified :: "RaftPersistentLogConfig \<Rightarrow> bool \<Rightarrow> Storage \<Rightarrow> DirectoryFiles \<Rightarrow>
    RaftPersistentLog result \<times> Storage" where
  "open_classified c may_repair s d =
     (if df_segments d = [] then (Inl kCorruption, s)
      else case read_anchor s (sort (df_anchors d)) of
        (Inl e, s1) \<Rightarrow> (Inl e, s1)
      | (Inr anchor, s1) \<Rightarrow>
          if (case anchor of None \<Rightarrow> False | Some a \<Rightarrow> unat (ra_checkpoint_group_count a) > lc_maximum_groups c)
          then (Inl kCorruption, s1)
          else let base = (case anchor of None \<Rightarrow> 1 | Some a \<Rightarrow> ra_base_segment_number a) in
            case retained_segments (sort (df_segments d)) base (maximum_segments c) of
              Inl e \<Rightarrow> (Inl e, s1)
            | Inr retained \<Rightarrow>
                (case scan_segments c anchor may_repair s1 retained (initial_scan anchor) of
                   (Inl e, s2) \<Rightarrow> (Inl e, s2)
                 | (Inr sc, s2) \<Rightarrow>
                     if \<not> checkpoint_complete anchor sc then (Inl kCorruption, s2)
                     else finish_open c s2 d anchor base retained sc))"

definition open_existing_log :: "RaftPersistentLogConfig \<Rightarrow> bool \<Rightarrow> Storage \<Rightarrow>
    RaftPersistentLog result \<times> Storage" where
  "open_existing_log c may_repair s =
     (if \<not> is_ok (validate_config c) then (make_unexpected (validate_config c), s)
      else let r1 = open_directory s in
        if \<not> is_ok (fst r1) then (make_unexpected (fst r1), snd r1)
        else let r2 = acquire_existing_exclusive_lock (snd r1) kLockName in
          if \<not> is_ok (fst r2) then (make_unexpected (fst r2), snd r2)
          else case list_entries (snd r2) of
            (Inl e, s3) \<Rightarrow> (make_unexpected e, s3)
          | (Inr es, s3) \<Rightarrow>
              (case classify_entries es of
                 Inl e \<Rightarrow> (Inl e, s3)
               | Inr d \<Rightarrow> open_classified c may_repair s3 d))"

end
