(* ===== verification/Durable_Runtime.thy ===== *)
theory Durable_Runtime
  imports Multi_Raft Log_Recovery
begin

text \<open>
  \<^verbatim>\<open>DurableMultiRaftRuntime\<close>: \<^verbatim>\<open>src/raft/durable_runtime.cpp\<close> with its batch admission. A batch
  of requests runs through the multi-group runtime, every persistent state is appended to the
  shared log, and the results, messages included, are returned only after one synchronization
  covers them all.
\<close>

section \<open>Data\<close>

record RaftGroupConfiguration =
  gc_group_id :: GroupId
  gc_voters :: "NodeId list"

datatype DurableRaftOperation =
    StartElectionOperation
  | ReceiveOperation NodeId Message
  | ProposeOperation u8 "byte list"
  | ProposeExactRetainedOperation u8 "byte list"
  | CommitCurrentTermOperation
  | ObserveGroupOperation
  | BeginMembershipChangeOperation "NodeId list"
  | FinalizeMembershipChangeOperation
  | CompleteSnapshotInstallOperation NodeId SnapshotMetadata bool
  | CompactSnapshotOperation SnapshotMetadata
  | HeartbeatOperation
  | BeginReadBarrierOperation
  | MarkAppliedOperation LogIndex

record DurableRaftRequest =
  dr_group_id :: GroupId
  dr_operation :: DurableRaftOperation
  dr_required_leader_term :: "Term option"

record RaftGroupObservation =
  ob_group_id :: GroupId
  ob_node_id :: NodeId
  ob_role :: Role
  ob_current_term :: Term
  ob_leader_id :: "NodeId option"
  ob_last_log_index :: LogIndex
  ob_commit_index :: LogIndex
  ob_applied_index :: LogIndex
  ob_snapshot_index :: LogIndex
  ob_voters :: "NodeId list"
  ob_committed_voters :: "NodeId list"
  ob_joint_old_voters :: "NodeId list"
  ob_joint_new_voters :: "NodeId list"
  ob_joint_membership_active :: bool
  ob_joint_membership_can_finalize :: bool
  ob_final_membership_pending :: bool

record DurableRaftResult =
  rs_status :: StatusCode
  rs_transition :: "MultiRaftTransition option"
  rs_observation :: "RaftGroupObservation option"

record DurableMultiRaftLimits =
  maximum_batch_operations :: nat
  maximum_batch_outbound :: nat
  multi_limits :: MultiRaftLimits

record QuorumSyncReceipt =
  qs_group_id :: GroupId
  qs_leader_node_id :: NodeId
  qs_leader_term :: Term
  qs_log_index :: LogIndex
  qs_entry_term :: Term
  qs_local_durable_physical_sequence :: u64

record DurableMultiRaftRuntime =
  multi :: MultiRaftRuntime
  durable_log :: RaftPersistentLog
  durable_limits :: DurableMultiRaftLimits
  durable_failure :: StatusCode

text \<open>The allocation failures that one operation may meet, in the order of its \<^verbatim>\<open>try\<close> blocks.\<close>

record OperationFaults =
  first_fault :: AllocationFault
  second_fault :: AllocationFault
  message_faults :: ReceiveFaults

section \<open>Admission of a batch\<close>

definition maximum_outbound_for_operation :: "DurableRaftOperation \<Rightarrow> RaftLimits \<Rightarrow> nat" where
  "maximum_outbound_for_operation operation lim =
     (case operation of
        ObserveGroupOperation \<Rightarrow> 0
      | CompactSnapshotOperation _ \<Rightarrow> 0
      | MarkAppliedOperation _ \<Rightarrow> 0
      | CompleteSnapshotInstallOperation _ _ _ \<Rightarrow> 1
      | _ \<Rightarrow> core_outbound lim)"

fun admit_requests :: "DurableRaftRequest list \<Rightarrow> DurableMultiRaftLimits \<Rightarrow> nat \<Rightarrow> StatusCode" where
  "admit_requests [] lim reserved = kOk"
| "admit_requests (q # qs) lim reserved =
     (let bound = maximum_outbound_for_operation (dr_operation q) (raft_limits (multi_limits lim)) in
      if bound > maximum_batch_outbound lim - reserved then kResourceExhausted
      else admit_requests qs lim (reserved + bound))"

definition admit_durable_batch_outbound :: "DurableRaftRequest list \<Rightarrow> DurableMultiRaftLimits \<Rightarrow> StatusCode" where
  "admit_durable_batch_outbound qs lim = admit_requests qs lim 0"

section \<open>Construction\<close>

definition storage_bounded_limits :: "RaftPersistentLogConfig \<Rightarrow> DurableMultiRaftLimits \<Rightarrow>
    DurableMultiRaftLimits result" where
  "storage_bounded_limits c lim =
     (let framing = kRaftSegmentHeaderSize + kMultiplexedLogHeaderSize + kMultiplexedLogTrailerSize in
      if target_segment_size c \<le> framing \<or> target_segment_size c > kMaximumRaftSegmentSize
      then Inl kInvalidArgument
      else let raft = raft_limits (multi_limits lim);
               bounded = raft\<lparr>maximum_persistent_state_bytes :=
                 min (maximum_persistent_state_bytes raft) (target_segment_size c - framing)\<rparr>
           in Inr (lim\<lparr>multi_limits := (multi_limits lim)\<lparr>raft_limits := bounded\<rparr>\<rparr>))"

fun recovered_by_group :: "GroupPersistentState list \<Rightarrow> (GroupId \<times> GroupPersistentState) list \<Rightarrow>
    (GroupId \<times> GroupPersistentState) list result" where
  "recovered_by_group [] m = Inr m"
| "recovered_by_group (p # ps) m =
     (if map_of m (gps_group_id p) \<noteq> None then Inl kCorruption
      else recovered_by_group ps (ordered_insert (gps_group_id p) p m))"

text \<open>The loop over the configured groups; what remains of the recovered states at the end has no
  configuration.\<close>

fun restore_groups :: "RaftGroupConfiguration list \<Rightarrow> GroupId set \<Rightarrow> (GroupId \<times> GroupPersistentState) list \<Rightarrow>
    MultiRaftRuntime \<Rightarrow> (MultiRaftRuntime \<times> (GroupId \<times> GroupPersistentState) list) result" where
  "restore_groups [] configured m r = Inr (r, m)"
| "restore_groups (c # cs) configured m r =
     (let g = gc_group_id c in
      if is_nil g \<or> g \<in> configured then Inl kInvalidArgument
      else let (r', status) = (case map_of m g of
                 None \<Rightarrow> add_group r g (gc_voters c) empty_state 0
               | Some p \<Rightarrow> add_group r g (gc_voters c) (gps_state p) (gps_physical_sequence p))
           in if \<not> is_ok status then make_unexpected status
              else restore_groups cs (insert g configured) (ordered_erase g m) r')"

definition restore_runtime :: "NodeId \<Rightarrow> DurableMultiRaftLimits \<Rightarrow> RaftGroupConfiguration list \<Rightarrow>
    GroupPersistentState list \<Rightarrow> MultiRaftRuntime result" where
  "restore_runtime nid lim configs ps =
     (if length configs > maximum_groups (multi_limits lim) then Inl kInvalidArgument
      else case recovered_by_group ps [] of
        Inl e \<Rightarrow> Inl e
      | Inr m \<Rightarrow>
          (case create_runtime nid (multi_limits lim) of
             Inl e \<Rightarrow> make_unexpected e
           | Inr r \<Rightarrow>
               (case restore_groups configs {} m r of
                  Inl e \<Rightarrow> Inl e
                | Inr (r', rest) \<Rightarrow> if rest \<noteq> [] then Inl kCorruption else Inr r')))"

definition batch_limits_valid :: "DurableMultiRaftLimits \<Rightarrow> bool" where
  "batch_limits_valid lim = (maximum_batch_operations lim \<noteq> 0 \<and> maximum_batch_outbound lim \<noteq> 0)"

definition create_new_durable :: "NodeId \<Rightarrow> RaftPersistentLogConfig \<Rightarrow> RaftGroupConfiguration list \<Rightarrow>
    DurableMultiRaftLimits \<Rightarrow> Storage \<Rightarrow> DurableMultiRaftRuntime result \<times> Storage" where
  "create_new_durable nid c configs lim s =
     (if \<not> batch_limits_valid lim then (Inl kInvalidArgument, s)
      else case storage_bounded_limits c lim of
        Inl e \<Rightarrow> (make_unexpected e, s)
      | Inr lim' \<Rightarrow>
          (case restore_runtime nid lim' configs [] of
             Inl e \<Rightarrow> (make_unexpected e, s)
           | Inr r \<Rightarrow>
               (case create_new_log c s of
                  (Inl e, s') \<Rightarrow> (make_unexpected e, s')
                | (Inr l, s') \<Rightarrow>
                    (Inr \<lparr>multi = r, durable_log = l, durable_limits = lim', durable_failure = kOk\<rparr>, s'))))"

definition open_existing_durable :: "NodeId \<Rightarrow> RaftPersistentLogConfig \<Rightarrow> bool \<Rightarrow> RaftGroupConfiguration list \<Rightarrow>
    DurableMultiRaftLimits \<Rightarrow> Storage \<Rightarrow> DurableMultiRaftRuntime result \<times> Storage" where
  "open_existing_durable nid c may_repair configs lim s =
     (if \<not> batch_limits_valid lim then (Inl kInvalidArgument, s)
      else case storage_bounded_limits c lim of
        Inl e \<Rightarrow> (make_unexpected e, s)
      | Inr lim' \<Rightarrow>
          (case open_existing_log c may_repair s of
             (Inl e, s') \<Rightarrow> (make_unexpected e, s')
           | (Inr l, s') \<Rightarrow>
               (case restore_runtime nid lim' configs (latest_group_states (recovered l)) of
                  Inl e \<Rightarrow> (make_unexpected e, s')
                | Inr r \<Rightarrow>
                    (Inr \<lparr>multi = r, durable_log = l, durable_limits = lim', durable_failure = kOk\<rparr>, s'))))"

section \<open>Executing a batch\<close>

definition durable_fail :: "DurableMultiRaftRuntime \<Rightarrow> StatusCode \<Rightarrow> DurableMultiRaftRuntime \<times> StatusCode" where
  "durable_fail d status =
     (if is_ok (durable_failure d) then (d\<lparr>durable_failure := status\<rparr>, status) else (d, durable_failure d))"

definition failing_batch :: "DurableMultiRaftRuntime \<Rightarrow> StatusCode \<Rightarrow> DurableMultiRaftRuntime \<times> 'a outcome" where
  "failing_batch d status =
     (case durable_fail d status of
        (d', code) \<Rightarrow> (d', Inl (Failed (if code = kOk then kInternal else code))))"

definition observe_group :: "AllocationFault \<Rightarrow> DurableMultiRaftRuntime \<Rightarrow> GroupId \<Rightarrow> RaftGroupObservation result" where
  "observe_group fault d g =
     (if \<not> is_ok (durable_failure d) then make_unexpected (durable_failure d)
      else if failed_state (multi d) then Inl kUnavailable
      else case find_group (multi d) g of
        None \<Rightarrow> Inl kNotFound
      | Some n \<Rightarrow>
          if throws fault then Inl kResourceExhausted
          else Inr \<lparr>ob_group_id = g, ob_node_id = node_id n, ob_role = role n,
                    ob_current_term = current_term (state n), ob_leader_id = leader_id n,
                    ob_last_log_index = last_index (state n), ob_commit_index = commit_index (state n),
                    ob_applied_index = applied_index (state n), ob_snapshot_index = snapshot_index (state n),
                    ob_voters = voters n, ob_committed_voters = committed_voters n,
                    ob_joint_old_voters = (case joint n of Some j \<Rightarrow> jc_old_voters j | None \<Rightarrow> []),
                    ob_joint_new_voters = (case joint n of Some j \<Rightarrow> jc_new_voters j | None \<Rightarrow> []),
                    ob_joint_membership_active = (joint n \<noteq> None),
                    ob_joint_membership_can_finalize = joint_membership_can_finalize n,
                    ob_final_membership_pending = final_membership_pending n\<rparr>)"

text \<open>\<^verbatim>\<open>std::visit\<close> over the operation. An observation never gets here.\<close>

definition dispatch :: "OperationFaults \<Rightarrow> GroupId \<Rightarrow> DurableRaftOperation \<Rightarrow> MultiRaftRuntime \<Rightarrow>
    MultiRaftRuntime \<times> MultiRaftTransition outcome" where
  "dispatch faults g operation r =
     (case operation of
        StartElectionOperation \<Rightarrow> group_start_election (first_fault faults) g r
      | ReceiveOperation source msg \<Rightarrow> group_receive (message_faults faults) g source msg r
      | ProposeOperation kind payload \<Rightarrow> group_propose (first_fault faults) g kind payload r
      | ProposeExactRetainedOperation kind payload \<Rightarrow>
          group_propose_exact_retained (first_fault faults) g kind payload r
      | CommitCurrentTermOperation \<Rightarrow> group_commit_current_term (first_fault faults) g r
      | ObserveGroupOperation \<Rightarrow> (r, Inl (Failed kInvalidArgument))
      | BeginMembershipChangeOperation new_voters \<Rightarrow>
          group_begin_membership_change (first_fault faults) (second_fault faults) g new_voters r
      | FinalizeMembershipChangeOperation \<Rightarrow>
          group_finalize_membership_change (first_fault faults) (second_fault faults) g r
      | CompleteSnapshotInstallOperation source s installed \<Rightarrow>
          group_complete_snapshot_install (first_fault faults) g source s installed r
      | CompactSnapshotOperation s \<Rightarrow>
          group_compact_snapshot (first_fault faults) (second_fault faults) g s r
      | HeartbeatOperation \<Rightarrow> group_heartbeat g r
      | BeginReadBarrierOperation \<Rightarrow> group_begin_read_barrier (first_fault faults) g r
      | MarkAppliedOperation i \<Rightarrow> group_mark_applied (first_fault faults) g i r)"

text \<open>The precondition on the leader term: the code of a request that is not admitted.\<close>

definition check_leader_term :: "DurableMultiRaftRuntime \<Rightarrow> DurableRaftRequest \<Rightarrow> StatusCode" where
  "check_leader_term d q =
     (case dr_required_leader_term q of
        None \<Rightarrow> kOk
      | Some t \<Rightarrow>
          if t = 0 then kInvalidArgument
          else case find_group (multi d) (dr_group_id q) of
            None \<Rightarrow> kNotFound
          | Some n \<Rightarrow> if role n \<noteq> kLeader \<or> current_term (state n) \<noteq> t then kUnavailable else kOk)"

definition failed_result :: "StatusCode \<Rightarrow> DurableRaftResult" where
  "failed_result code = \<lparr>rs_status = code, rs_transition = None, rs_observation = None\<rparr>"

text \<open>One iteration: the result, the number of messages and whether a state was appended; an error
  ends the batch.\<close>

definition execute_request :: "DurableMultiRaftRuntime \<Rightarrow> OperationFaults \<Rightarrow> DurableRaftRequest \<Rightarrow> nat \<Rightarrow>
    DurableMultiRaftRuntime \<times> (DurableRaftResult \<times> nat \<times> bool) outcome" where
  "execute_request d faults q outbound_count =
     (let admitted = check_leader_term d q in
      if \<not> is_ok admitted then (d, Inr (failed_result admitted, 0, False))
      else if dr_operation q = ObserveGroupOperation
      then (case observe_group (first_fault faults) d (dr_group_id q) of
              Inl e \<Rightarrow> (d, Inr (failed_result e, 0, False))
            | Inr ob \<Rightarrow> (d, Inr (\<lparr>rs_status = kOk, rs_transition = None, rs_observation = Some ob\<rparr>, 0, False)))
      else case dispatch faults (dr_group_id q) (dr_operation q) (multi d) of
        (r, Inl OutOfRangeThrown) \<Rightarrow> (d\<lparr>multi := r\<rparr>, Inl OutOfRangeThrown)
      | (r, Inl (Failed e)) \<Rightarrow>
          let d1 = d\<lparr>multi := r\<rparr> in
          if failed_state r then failing_batch d1 e else (d1, Inr (failed_result e, 0, False))
      | (r, Inr tr) \<Rightarrow>
          let d1 = d\<lparr>multi := r\<rparr> in
          if length (mt_outbound tr) > maximum_batch_outbound (durable_limits d) - outbound_count
          then failing_batch d1 kResourceExhausted
          else let ok_result = \<lparr>rs_status = kOk, rs_transition = Some tr, rs_observation = None\<rparr> in
            (case mt_persistence tr of
               None \<Rightarrow> (d1, Inr (ok_result, length (mt_outbound tr), False))
             | Some p \<Rightarrow>
                 (case append_record (durable_log d1) p of
                    (l, Inl e) \<Rightarrow> failing_batch (d1\<lparr>durable_log := l\<rparr>) e
                  | (l, Inr pos) \<Rightarrow> (d1\<lparr>durable_log := l\<rparr>, Inr (ok_result, length (mt_outbound tr), True)))))"

fun execute_requests :: "DurableMultiRaftRuntime \<Rightarrow> (OperationFaults \<times> DurableRaftRequest) list \<Rightarrow> nat \<Rightarrow> bool \<Rightarrow>
    DurableMultiRaftRuntime \<times> (DurableRaftResult list \<times> bool) outcome" where
  "execute_requests d [] outbound_count needs_sync = (d, Inr ([], needs_sync))"
| "execute_requests d ((faults, q) # qs) outbound_count needs_sync =
     (case execute_request d faults q outbound_count of
        (d1, Inl f) \<Rightarrow> (d1, Inl f)
      | (d1, Inr (result, sent, appended)) \<Rightarrow>
          (case execute_requests d1 qs (outbound_count + sent) (needs_sync \<or> appended) of
             (d2, Inl f) \<Rightarrow> (d2, Inl f)
           | (d2, Inr (results, sync)) \<Rightarrow> (d2, Inr (result # results, sync))))"

definition execute_batch :: "DurableMultiRaftRuntime \<Rightarrow> (OperationFaults \<times> DurableRaftRequest) list \<Rightarrow>
    DurableMultiRaftRuntime \<times> DurableRaftResult list outcome" where
  "execute_batch d requests =
     (if \<not> is_ok (durable_failure d) then (d, Inl (Failed (durable_failure d)))
      else if failed_state (multi d) then failing_batch d kUnavailable
      else if requests = [] \<or> length requests > maximum_batch_operations (durable_limits d)
      then (d, Inl (Failed kInvalidArgument))
      else let admitted = admit_durable_batch_outbound (map snd requests) (durable_limits d) in
        if \<not> is_ok admitted then (d, Inl (Failed admitted))
        else case execute_requests d requests 0 False of
          (d1, Inl f) \<Rightarrow> (d1, Inl f)
        | (d1, Inr (results, needs_sync)) \<Rightarrow>
            if needs_sync
            then (case synchronize (durable_log d1) of
                    (l, Inl e) \<Rightarrow> failing_batch (d1\<lparr>durable_log := l\<rparr>) e
                  | (l, Inr pos) \<Rightarrow> (d1\<lparr>durable_log := l\<rparr>, Inr results))
            else (d1, Inr results))"

section \<open>Proofs of durability, checkpoints, status\<close>

definition durable_failed :: "DurableMultiRaftRuntime \<Rightarrow> bool" where
  "durable_failed d =
     (\<not> is_ok (durable_failure d) \<or> failed_state (multi d) \<or> log_is_failed (durable_log d))"

definition failure_status :: "DurableMultiRaftRuntime \<Rightarrow> StatusCode" where
  "failure_status d =
     (if \<not> is_ok (durable_failure d) then durable_failure d
      else if log_is_failed (durable_log d) then log_failure (durable_log d)
      else if failed_state (multi d) then kUnavailable
      else kOk)"

text \<open>The term of a committed index: that of the snapshot, or that of the entry; an index below the
  snapshot leaves the term at zero.\<close>

definition committed_entry_term :: "PersistentState \<Rightarrow> LogIndex \<Rightarrow> Term result" where
  "committed_entry_term st i =
     (if i = snapshot_index st then Inr (last_included_term (snapshot st))
      else if i > snapshot_index st
      then let relative = unat (i - snapshot_index st - 1) in
        if relative \<ge> length (log st) \<or> entry_index (log st ! relative) \<noteq> i then Inl kCorruption
        else Inr (entry_term (log st ! relative))
      else Inr 0)"

definition prove_quorum_sync :: "DurableMultiRaftRuntime \<Rightarrow> GroupId \<Rightarrow> LogIndex \<Rightarrow> QuorumSyncReceipt result" where
  "prove_quorum_sync d g i =
     (if durable_failed d then make_unexpected (failure_status d)
      else case find_group (multi d) g of
        None \<Rightarrow> Inl kNotFound
      | Some n \<Rightarrow>
          if role n \<noteq> kLeader then Inl kUnavailable
          else if i = 0 \<or> i > commit_index (state n) then Inl kUnavailable
          else case committed_entry_term (state n) i of
            Inl e \<Rightarrow> Inl e
          | Inr t \<Rightarrow>
              let sq = durable_physical_sequence (recovered (durable_log d)) in
              if t = 0 \<or> sq = 0 then Inl kCorruption
              else Inr \<lparr>qs_group_id = g, qs_leader_node_id = node_id n, qs_leader_term = current_term (state n),
                        qs_log_index = i, qs_entry_term = t, qs_local_durable_physical_sequence = sq\<rparr>)"

definition durable_checkpoint_and_reclaim :: "AllocationFault \<Rightarrow> DurableMultiRaftRuntime \<Rightarrow>
    DurableMultiRaftRuntime \<times> RaftPersistentLogReclamation result" where
  "durable_checkpoint_and_reclaim fault d =
     (if durable_failed d then (d, make_unexpected (failure_status d))
      else case create_persistence_checkpoint fault (multi d) of
        (r, Inl e) \<Rightarrow> (d\<lparr>multi := r\<rparr>, make_unexpected e)
      | (r, Inr checkpoint) \<Rightarrow>
          (case checkpoint_and_reclaim (durable_log d) checkpoint of
             (l, Inl e) \<Rightarrow>
               (case durable_fail (d\<lparr>multi := r, durable_log := l\<rparr>) e of
                  (d', code) \<Rightarrow> (d', make_unexpected code))
           | (l, Inr reclaimed) \<Rightarrow> (d\<lparr>multi := r, durable_log := l\<rparr>, Inr reclaimed)))"

end
