(* ===== verification/Raft_Run.thy ===== *)
theory Raft_Run
  imports Multi_Raft
begin

text \<open>
  The life of one node: any sequence of local operations, received messages and restarts from the
  persisted state, with failing allocations anywhere. The operations are the steps of a relation,
  and the properties of a single operation carry over to every run by rule induction.
\<close>

section \<open>Definitions\<close>

text \<open>A call of the node's owner, with the node afterwards and the outcome.\<close>

inductive local_call :: "RaftNode \<Rightarrow> RaftNode \<times> Transition outcome \<Rightarrow> bool" where
  call_start_election: "local_call n (start_election fault n)"
| call_propose: "local_call n (propose fault n kind payload)"
| call_propose_exact_retained: "local_call n (propose_exact_retained fault n kind payload)"
| call_commit_current_term: "local_call n (commit_current_term fault n)"
| call_begin_membership_change: "local_call n (begin_membership_change fault retry_fault n new_voters)"
| call_finalize_membership_change: "local_call n (finalize_membership_change fault retry_fault n)"
| call_complete_snapshot_install: "local_call n (complete_snapshot_install fault n source s installed)"
| call_compact_snapshot: "local_call n (compact_snapshot prepare_fault fault n s)"
| call_heartbeat: "local_call n (heartbeat n)"
| call_begin_read_barrier: "local_call n (begin_read_barrier fault n)"
| call_mark_applied: "local_call n (mark_applied fault n i)"

inductive node_call :: "RaftNode \<Rightarrow> RaftNode \<times> Transition outcome \<Rightarrow> bool" where
  call_local: "local_call n r \<Longrightarrow> node_call n r"
| call_receive: "node_call n (receive faults n source msg)"

text \<open>A run from one node to another; a restart constructs the node again from its state.\<close>

inductive node_run :: "RaftNode \<Rightarrow> RaftNode \<Rightarrow> bool" where
  run_start: "node_run n n"
| run_call: "node_run a n \<Longrightarrow> node_call n (n', out) \<Longrightarrow> node_run a n'"
| run_restart: "node_run a n \<Longrightarrow> restart_voters n vs \<Longrightarrow>
    create (node_id n) vs (state n) (limits n) = Inr n' \<Longrightarrow> node_run a n'"

definition sample_voters :: DerivedMembership where
  "sample_voters = \<lparr>dm_committed_voters = [1, 2, 3], dm_active_voters = [1, 2, 3], dm_joint = None\<rparr>"

definition sample_node :: RaftNode where
  "sample_node = initial_node 1 [1, 2, 3] sample_voters empty_state default_limits"

text \<open>A cluster of one: the node elects itself and commits what it appends.\<close>

definition solo_node :: RaftNode where
  "solo_node = initial_node 1 [1] \<lparr>dm_committed_voters = [1], dm_active_voters = [1], dm_joint = None\<rparr>
     empty_state default_limits"

definition solo_leader :: RaftNode where
  "solo_leader = solo_node\<lparr>state := empty_state\<lparr>current_term := 1, voted_for := Some 1\<rparr>, role := kLeader,
     leader_id := Some 1, votes := {1}, next_index := [1 \<mapsto> 1], match_index := [1 \<mapsto> 0]\<rparr>"

definition solo_committed :: RaftNode where
  "solo_committed = solo_leader\<lparr>state := empty_state\<lparr>current_term := 1, voted_for := Some 1,
       log := [\<lparr>entry_index = 1, entry_term = 1, entry_type = 7, entry_payload = [42]\<rparr>], commit_index := 1\<rparr>,
     next_index := [1 \<mapsto> 2], match_index := [1 \<mapsto> 1]\<rparr>"

section \<open>Single calls\<close>

lemma local_call_ok: "local_call n r \<Longrightarrow> node_wf n \<Longrightarrow> operation_ok n r"
  by (induction rule: local_call.induct)
    (simp_all add: start_election_ok propose_ok propose_exact_retained_ok commit_current_term_ok
      begin_membership_change_ok finalize_membership_change_ok complete_snapshot_install_ok compact_snapshot_ok
      heartbeat_ok begin_read_barrier_ok mark_applied_ok)

lemma node_call_ok: "node_call n r \<Longrightarrow> node_wf n \<Longrightarrow> operation_ok n r"
  by (induction rule: node_call.induct) (simp_all add: local_call_ok receive_ok)

lemma fanout_ok_mono: "fanout_ok k r \<Longrightarrow> k \<le> k' \<Longrightarrow> fanout_ok k' r"
  by (auto simp: fanout_ok_def split: sum.splits prod.splits)

lemma local_call_fanout:
  "local_call n r \<Longrightarrow> node_wf n \<Longrightarrow> fanout_wf n \<Longrightarrow> fanout_ok (core_outbound (limits n)) r"
proof (induction rule: local_call.induct)
  case (call_complete_snapshot_install n fault source s installed)
  then show ?case
    using complete_snapshot_op.op_fanout [of n fault source s installed]
    by (auto intro: fanout_ok_mono simp: core_outbound_def)
next
  case (call_compact_snapshot n prepare_fault fault s)
  then show ?case
    using compact_snapshot_fanout [of n prepare_fault fault s] by (auto intro: fanout_ok_mono)
next
  case (call_mark_applied n fault i)
  then show ?case
    using mark_applied_fanout [of n fault i] by (auto intro: fanout_ok_mono)
qed (simp_all add: start_election_fanout propose_fanout propose_exact_retained_fanout
    commit_current_term_fanout begin_membership_change_fanout finalize_membership_change_fanout
    heartbeat_fanout begin_read_barrier_fanout)

lemma node_call_fanout:
  "node_call n r \<Longrightarrow> node_wf n \<Longrightarrow> fanout_wf n \<Longrightarrow> fanout_ok (core_outbound (limits n)) r"
  by (induction rule: node_call.induct) (simp_all add: local_call_fanout receive_fanout)

section \<open>Runs\<close>

lemma node_run_wf:
  assumes "node_run a n" and "node_wf a" and "fanout_wf a"
  shows "node_wf n \<and> fanout_wf n \<and> node_id n = node_id a \<and> limits n = limits a \<and>
    state_advances (state a) (state n)"
  using assms
proof (induction rule: node_run.induct)
  case (run_call a n n' out)
  then have n: "node_wf n" "fanout_wf n" by simp_all
  note ok = node_call_ok [OF run_call.hyps(2) n(1)] and fan = node_call_fanout [OF run_call.hyps(2) n]
  show ?case
  proof (cases out)
    case (Inl f)
    with ok have "n' = n" by (simp add: operation_ok_def)
    with run_call show ?thesis by simp
  next
    case (Inr tr)
    with ok fan run_call.IH run_call.prems operation_ok_advances [of n n' tr] show ?thesis
      by (auto simp: operation_ok_def fanout_ok_def intro: state_advances_trans)
  qed
next
  case (run_restart a n vs n')
  then have "n' = initial_node (node_id n) (base_voters n) (membership_of n) (state n) (limits n)"
    using create_restart [of n vs] by simp
  with run_restart create_wf [of "node_id n" vs "state n" "limits n" n'] show ?case
    by (simp add: initial_node_def fanout_follower)
qed simp

lemma node_run_trans: "node_run b c \<Longrightarrow> node_run a b \<Longrightarrow> node_run a c"
  by (induction rule: node_run.induct) (blast intro: node_run.intros)+

lemma create_run:
  assumes "create nid vs st lim = Inr a" and "node_run a n"
  shows "node_wf n \<and> fanout_wf n \<and> node_id n = nid \<and> limits n = lim \<and> state_advances (state a) (state n)"
  using node_run_wf [OF assms(2) create_wf [OF assms(1)]] create_follower [OF assms(1)]
  by (simp add: fanout_follower)

section \<open>Samples\<close>

lemmas sample_limits = default_limits_def kMaximumMembershipVoters_def kMaximumRaftPersistentStatePayloadSize_def

lemmas sample_sizes = persistent_state_fits_def raft_persistent_state_payload_size_def appended_entry_fits_def
  checked_multiply_size_def checked_add_size_def size_max_def kRaftPersistentStateFixedSizeV1_def
  kRaftPersistentLogEntryFixedSizeV1_def add_entry_size_def

lemmas sample_states = empty_state_def empty_snapshot_def last_index_def snapshot_index_def

lemma sample_created:
  "create 1 [1, 2, 3] empty_state default_limits = Inr sample_node"
  "create 1 [1] empty_state default_limits = Inr solo_node"
  by (simp_all add: create_def limits_and_identity_valid_def sample_limits sample_states empty_snapshot_canonical_def
      create_checked_def sample_sizes derive_membership_def sample_node_def solo_node_def sample_voters_def Let_def
      list_ex_iff)

lemma solo_elected:
  "start_election NoFault solo_node =
     (solo_leader, Inr (empty_transition\<lparr>persistent_state := Some (state solo_leader)\<rparr>))"
  by (simp add: start_election_def solo_leader_def solo_node_def initial_node_def voter_def throws_def sample_states
      configuration_quorum_def has_majority_def majority_def leader_announcements_def emplace_def Let_def empty_transition_def)

lemma solo_proposed:
  "propose NoFault solo_leader 7 [42] =
     (solo_committed, Inr (empty_transition\<lparr>persistent_state := Some (state solo_committed),
        advanced_commit_index := Some 1\<rparr>))"
  apply (simp add: propose_def solo_leader_def solo_node_def initial_node_def is_internal_raft_entry_type_def
      is_membership_entry_type_def kLeaderNoopEntryType_def kJointMembershipEntryType_def kFinalMembershipEntryType_def
      sample_limits sample_sizes sample_states install_prepared_def throws_def)
  apply (simp add: append_local_entry_def record_self_progress_def push_entry_def Let_def sample_states advance_commit_def)
  apply (subst commit_search.simps)
  apply (simp add: committable_def term_at_def sample_states offset_for_def configuration_quorum_def has_majority_def
      majority_def replicated_at_def derive_membership_def derive_step_def
      is_membership_entry_type_def kJointMembershipEntryType_def kFinalMembershipEntryType_def install_membership_def
      append_to_all_def erase_departed_def solo_committed_def solo_leader_def solo_node_def initial_node_def fun_eq_iff
      empty_transition_def sample_limits)
  done

lemma solo_run: "node_run solo_node solo_leader" "node_run solo_leader solo_committed" "node_run solo_node solo_committed"
proof -
  show a: "node_run solo_node solo_leader"
    using run_call [OF run_start call_local [OF call_start_election [of solo_node NoFault, unfolded solo_elected]]] .
  show b: "node_run solo_leader solo_committed"
    using run_call [OF run_start call_local [OF call_propose [of solo_leader NoFault 7 "[42]", unfolded solo_proposed]]] .
  show "node_run solo_node solo_committed"
    using node_run_trans [OF b a] .
qed

section \<open>Properties\<close>

text \<open>C12: a node that \<^verbatim>\<open>RaftNode::create\<close> accepts satisfies the invariant after every sequence of
  operations, received messages, failing allocations and restarts: its log is contiguous and within
  its limits, its configuration is the one its log derives, its indexes are ordered, and its role, the
  progress of its followers and its pending work are consistent.\<close>

theorem run_keeps_invariant:
  assumes "create nid vs st lim = Inr a" and "node_run a n"
  shows "node_wf n \<and> node_id n = nid \<and> limits n = lim"
  using create_run [OF assms] by simp

theorem run_keeps_invariant_witness:
  "node_wf solo_committed \<and> node_id solo_committed = 1 \<and> limits solo_committed = default_limits"
  by (rule run_keeps_invariant [OF sample_created(2) solo_run(3)])



text \<open>C13: a node votes at most once in a term, also across restarts: once it voted for a candidate, its
  vote is the same at every later point of the run in that term.\<close>

theorem run_single_vote:
  assumes "create nid vs st lim = Inr a" and "node_run a n" and "node_run n n'"
    and "voted_for (state n) = Some c" and "current_term (state n') = current_term (state n)"
  shows "voted_for (state n') = Some c"
proof -
  have "state_advances (state n) (state n')"
    using create_run [OF assms(1,2)] node_run_wf [OF assms(3)] by simp
  then show ?thesis
    using assms(4,5) by (auto simp: state_advances_def)
qed

theorem run_single_vote_witness: "voted_for (state solo_committed) = Some 1"
  by (rule run_single_vote [OF sample_created(2) solo_run(1,2)])
    (simp_all add: solo_leader_def solo_committed_def)

text \<open>C15: a call that fails leaves the node exactly as it was, and what it reports is a status: the
  exception of a missing map element never escapes from a node that satisfies the invariant.\<close>

theorem call_failure_atomic:
  assumes "node_wf n" and "node_call n (n', Inl f)"
  shows "n' = n \<and> (\<exists>code. f = Failed code)"
  using node_call_ok [OF assms(2,1)] by (cases f) (simp_all add: operation_ok_def)

theorem call_failure_atomic_witness:
  "node_wf solo_leader \<and> mark_applied NoFault solo_leader 1 = (solo_leader, Inl (Failed kInvalidArgument))"
proof -
  have wf: "node_wf solo_leader"
    using create_run [OF sample_created(2) solo_run(1)] by simp
  have "mark_applied NoFault solo_leader 1 = (solo_leader, Inl (Failed kInvalidArgument))"
    by (simp add: mark_applied_def solo_leader_def empty_state_def Let_def)
  with call_failure_atomic [OF wf, of solo_leader "Failed kInvalidArgument"] call_local [OF call_mark_applied [of solo_leader NoFault 1]] wf
  show ?thesis by simp
qed

text \<open>C16: the transition of a successful call tells the runtime everything it has to make durable: the
  state afterwards is the one the transition carries, or it did not change; and a commit index that
  moved is announced.\<close>

theorem call_transition_complete:
  assumes "node_wf n" and "node_call n (n', Inr tr)"
  shows "state n' = (case persistent_state tr of None \<Rightarrow> state n | Some st \<Rightarrow> st) \<and>
    (commit_index (state n) < commit_index (state n') \<longrightarrow>
       advanced_commit_index tr = Some (commit_index (state n')))"
  using node_call_ok [OF assms(2,1)] by (auto simp: operation_ok_def)

theorem call_transition_complete_witness:
  "node_wf solo_leader \<and> node_call solo_leader (propose NoFault solo_leader 7 [42]) \<and>
   commit_index (state solo_leader) < commit_index (state (fst (propose NoFault solo_leader 7 [42])))"
proof -
  have wf: "node_wf solo_leader"
    using create_run [OF sample_created(2) solo_run(1)] by simp
  note call = call_local [OF call_propose [of solo_leader NoFault 7 "[42]"]]
  show ?thesis
    using call_transition_complete [OF wf call [unfolded solo_proposed]] wf call
    unfolding solo_proposed by (simp add: solo_leader_def solo_committed_def empty_state_def)
qed

text \<open>C17: no call emits more messages than one per other voter of the largest configuration, the bound
  that the outbound queues of the runtime are sized with; it holds also for a leader that was removed
  from the configuration and still sends.\<close>

theorem run_outbound_bound:
  assumes "create nid vs st lim = Inr a" and "node_run a n" and "node_call n (n', Inr tr)"
  shows "length (outbound tr) \<le> max 1 (maximum_voters lim - 1)"
  using create_run [OF assms(1,2)] node_call_fanout [OF assms(3)]
  by (auto simp: fanout_ok_def core_outbound_def split: if_splits)

theorem run_outbound_bound_witness:
  "length (outbound (empty_transition\<lparr>persistent_state := Some (state solo_leader)\<rparr>)) \<le> max 1 (31 - 1)"
  using run_outbound_bound [OF sample_created(2) run_start
    call_local [OF call_start_election [of solo_node NoFault, unfolded solo_elected]]]
  by (simp add: sample_limits)

text \<open>C14: a node can always be restarted: constructing it again from the state that it last made durable,
  with its configured voters, succeeds, and the new node is a follower with the same state and the same
  voter configuration.\<close>

theorem restart_succeeds:
  assumes "create nid vs st lim = Inr a" and "node_run a n" and "restart_voters n vs'"
  shows "\<exists>n'. create nid vs' (state n) lim = Inr n' \<and> state n' = state n \<and> role n' = kFollower \<and>
    voters n' = voters n \<and> committed_voters n' = committed_voters n \<and> joint n' = joint n"
proof -
  have "node_wf n" "node_id n = nid" "limits n = lim"
    using create_run [OF assms(1,2)] by simp_all
  with create_restart [OF _ assms(3)] show ?thesis
    by (auto simp: initial_node_def membership_of_def)
qed

theorem restart_succeeds_witness:
  "\<exists>n'. create 1 [1] (state solo_committed) default_limits = Inr n' \<and> state n' = state solo_committed \<and>
    role n' = kFollower \<and> voters n' = voters solo_committed \<and> committed_voters n' = committed_voters solo_committed \<and>
    joint n' = joint solo_committed"
proof (rule restart_succeeds [OF sample_created(2) solo_run(3)])
  show "restart_voters solo_committed [1]"
    by (simp add: restart_voters_def solo_committed_def solo_leader_def solo_node_def initial_node_def valid_voters_def
        sample_limits)
qed

text \<open>C18: while a membership change is in progress, every quorum of the joint configuration shares a member
  with every majority of the old voters and with every majority of the new voters, so no decision of
  either side can be missed by a joint quorum.\<close>

theorem joint_quorum_overlaps_both_sides:
  assumes "joint n = Some j" and "configuration_quorum n P"
    and "has_majority (jc_old_voters j) Q \<or> has_majority (jc_new_voters j) Q"
  shows "\<exists>p. P p \<and> Q p"
  using assms has_majority_intersect [of "jc_old_voters j" P Q]
    has_majority_intersect [of "jc_new_voters j" P Q]
  by (auto simp: configuration_quorum_def)

theorem joint_quorum_overlaps_both_sides_witness:
  "\<exists>p. p \<in> {2, 3, 4 :: NodeId} \<and> p \<in> {1, 2 :: NodeId}"
proof -
  define j where "j = \<lparr>jc_old_voters = [1, 2, 3], jc_new_voters = [3, 4, 5], joint_index = 1,
    final_pending = False\<rparr>"
  define n where "n = sample_node\<lparr>joint := Some j\<rparr>"
  have "configuration_quorum n (\<lambda>p. p \<in> {2, 3, 4})" "has_majority (jc_old_voters j) (\<lambda>p. p \<in> {1, 2})"
    by (simp_all add: configuration_quorum_def n_def j_def has_majority_def majority_def)
  then show ?thesis
    by (intro joint_quorum_overlaps_both_sides [of n j]) (simp_all add: n_def)
qed

end
