(* ===== verification/Durable_Batch.thy ===== *)
theory Durable_Batch
  imports Durable_Runtime Raft_Run
begin

text \<open>
  What a batch of the durable runtime promises: groups do not interfere, every changed state is
  numbered and appended before its messages are released, the admitted number of messages is never
  exceeded, and a runtime that failed stays failed.
\<close>

section \<open>Definitions\<close>

text \<open>The last physical sequence that was written to the log.\<close>

definition written_sequence :: "RaftPersistentLog \<Rightarrow> u64" where
  "written_sequence l = position_sequence (written_position (recovered l))"

text \<open>The runtime and its log agree on the limits and, as long as nothing failed, on the sequence.\<close>

definition durable_wf :: "DurableMultiRaftRuntime \<Rightarrow> bool" where
  "durable_wf d =
     (runtime_wf (multi d) \<and> runtime_limits (multi d) = multi_limits (durable_limits d) \<and>
      (durable_failure d = kOk \<longrightarrow> physical_sequence (multi d) = written_sequence (durable_log d)))"

definition result_outbound :: "DurableRaftResult \<Rightarrow> GroupOutboundMessage list" where
  "result_outbound r = (case rs_transition r of None \<Rightarrow> [] | Some tr \<Rightarrow> mt_outbound tr)"

definition result_states :: "DurableRaftResult \<Rightarrow> GroupPersistentState list" where
  "result_states r =
     (case rs_transition r of
        None \<Rightarrow> []
      | Some tr \<Rightarrow> (case mt_persistence tr of None \<Rightarrow> [] | Some p \<Rightarrow> [p]))"


text \<open>What a request and a batch leave behind.\<close>

definition request_done :: "DurableMultiRaftRuntime \<Rightarrow> DurableRaftRequest \<Rightarrow> nat \<Rightarrow> DurableMultiRaftRuntime \<Rightarrow>
    DurableRaftResult \<times> nat \<times> bool \<Rightarrow> bool" where
  "request_done d q cnt d' = (\<lambda>(res, sent, appended).
     durable_wf d' \<and> durable_failure d' = kOk \<and> durable_limits d' = durable_limits d \<and>
     sent = length (result_outbound res) \<and> sent \<le> maximum_batch_outbound (durable_limits d) - cnt \<and>
     sent \<le> maximum_outbound_for_operation (dr_operation q) (raft_limits (multi_limits (durable_limits d))) \<and>
     appended = (result_states res \<noteq> []) \<and>
     (\<forall>g. g \<noteq> dr_group_id q \<longrightarrow> find_group (multi d') g = find_group (multi d) g) \<and>
     written_sequence (durable_log d) \<le> written_sequence (durable_log d') \<and>
     (\<forall>p \<in> set (result_states res). gps_physical_sequence p \<le> written_sequence (durable_log d')))"

definition batch_done :: "DurableMultiRaftRuntime \<Rightarrow> DurableRaftRequest list \<Rightarrow> nat \<Rightarrow> DurableMultiRaftRuntime \<Rightarrow>
    DurableRaftResult list \<Rightarrow> bool" where
  "batch_done d qs cnt d' results =
     (durable_wf d' \<and> durable_failure d' = kOk \<and> durable_limits d' = durable_limits d \<and>
      list_all2 (\<lambda>q res. length (result_outbound res) \<le>
        maximum_outbound_for_operation (dr_operation q) (raft_limits (multi_limits (durable_limits d)))) qs results \<and>
      cnt + length (concat (map result_outbound results)) \<le> maximum_batch_outbound (durable_limits d) \<and>
      (\<forall>g. g \<notin> dr_group_id ` set qs \<longrightarrow> find_group (multi d') g = find_group (multi d) g) \<and>
      written_sequence (durable_log d) \<le> written_sequence (durable_log d') \<and>
      (\<forall>p \<in> set (concat (map result_states results)). gps_physical_sequence p \<le> written_sequence (durable_log d')))"

text \<open>A runtime with one group that has a single voter, and a batch that starts its election.\<close>

definition sample_group :: GroupId where
  "sample_group = replicate 16 7"

definition sample_multi_limits :: MultiRaftLimits where
  "sample_multi_limits = \<lparr>maximum_groups = 4, maximum_queued_outbound = 64, raft_limits = default_limits\<rparr>"

definition sample_log_config :: RaftPersistentLogConfig where
  "sample_log_config = \<lparr>directory_path = ''raft'', file_permissions = 0, target_segment_size = 65536,
     maximum_segments = 4, maximum_records = 100, lc_maximum_groups = 4\<rparr>"

definition sample_storage :: Storage where
  "sample_storage = \<lparr>entries = [], contents = (\<lambda>_. []), next_inode = 1, durable_entries = [],
     durable_contents = (\<lambda>_. []), outcomes = []\<rparr>"

definition sample_log :: RaftPersistentLog where
  "sample_log = \<lparr>log_config = sample_log_config, log_storage = sample_storage, active_file = Some 0,
     recovered = empty_recovery\<lparr>written_position := initial_position, segment_count := 1\<rparr>, known_groups = {},
     segment_record_counts = [(1, 0)], recovery_anchors = {}, log_failure = kOk, log_open = True\<rparr>"

definition sample_durable :: DurableMultiRaftRuntime where
  "sample_durable = \<lparr>multi = \<lparr>local_node_id = 1, runtime_limits = sample_multi_limits,
       groups = [(sample_group, solo_node)], physical_sequence = 0, failed_state = False\<rparr>,
     durable_log = sample_log,
     durable_limits = \<lparr>maximum_batch_operations = 8, maximum_batch_outbound = 64, multi_limits = sample_multi_limits\<rparr>,
     durable_failure = kOk\<rparr>"



definition sample_faults :: OperationFaults where
  "sample_faults = \<lparr>first_fault = NoFault, second_fault = NoFault, message_faults = no_faults\<rparr>"

definition sample_batch :: "(OperationFaults \<times> DurableRaftRequest) list" where
  "sample_batch = [(sample_faults, \<lparr>dr_group_id = sample_group, dr_operation = StartElectionOperation,
     dr_required_leader_term = None\<rparr>)]"

definition sample_state_record :: GroupPersistentState where
  "sample_state_record = \<lparr>gps_group_id = sample_group, gps_physical_sequence = 1, gps_state = state solo_leader\<rparr>"

section \<open>One operation\<close>

lemma dispatch_step:
  assumes wf: "runtime_wf r"
  shows "runtime_step (maximum_outbound_for_operation operation (raft_limits (runtime_limits r))) g r
    (dispatch faults g operation r)"
  by (cases operation)
    (simp_all add: dispatch_def maximum_outbound_for_operation_def group_start_election_def group_receive_def
      group_propose_def group_propose_exact_retained_def group_commit_current_term_def group_begin_membership_change_def
      group_finalize_membership_change_def group_complete_snapshot_install_def group_compact_snapshot_def
      group_heartbeat_def group_begin_read_barrier_def group_mark_applied_def runtime_step_def [of _ _ _ "(r, Inl _)"]
      start_election_op.group_operation_step [OF wf] receive_op.group_operation_step [OF wf]
      propose_op.group_operation_step [OF wf] propose_exact_op.group_operation_step [OF wf]
      commit_current_op.group_operation_step [OF wf] begin_membership_op.group_operation_step [OF wf]
      finalize_membership_op.group_operation_step [OF wf] complete_snapshot_op.group_operation_step [OF wf, simplified]
      compact_snapshot_op.group_operation_step [OF wf] heartbeat_op.group_operation_step [OF wf]
      read_barrier_op.group_operation_step [OF wf] mark_applied_op.group_operation_step [OF wf])

lemma dispatch_wf:
  assumes "runtime_wf r"
  shows "runtime_wf (fst (dispatch faults g operation r))"
    and "runtime_limits (fst (dispatch faults g operation r)) = runtime_limits r"
    and "g' \<noteq> g \<Longrightarrow> find_group (fst (dispatch faults g operation r)) g' = find_group r g'"
  using dispatch_step [OF assms, of operation g faults] assms
  by (cases "dispatch faults g operation r"; cases "snd (dispatch faults g operation r)"; auto simp: runtime_step_def)+

lemma dispatch_error:
  assumes "runtime_wf r" and "dispatch faults g operation r = (r', Inl f)"
  shows "(\<exists>code. f = Failed code) \<and> (r' = r \<or> physical_sequence r = - 1 \<and> r' = fail_closed r)"
  using dispatch_step [OF assms(1), of operation g faults] assms(2) by (cases f) (auto simp: runtime_step_def)

lemma dispatch_success:
  assumes "runtime_wf r" and "dispatch faults g operation r = (r', Inr tr)"
  shows "\<exists>n n'. find_group r g = Some n \<and> find_group r' g = Some n' \<and> \<not> failed_state r' \<and>
    state_advances (state n) (state n') \<and> persisted g r r' n n' (mt_persistence tr) \<and>
    length (mt_outbound tr) \<le> maximum_outbound_for_operation operation (raft_limits (runtime_limits r))"
  using dispatch_step [OF assms(1), of operation g faults] assms(2)
  by (auto simp: runtime_step_def split: option.splits)

section \<open>The log\<close>

lemma on_active_recovered: "on_active l f = (status, l') \<Longrightarrow> recovered l' = recovered l"
  by (auto simp: on_active_def split: option.splits prod.splits)

lemma close_active_recovered: "close_active l = (status, l') \<Longrightarrow> recovered l' = recovered l"
  by (auto simp: close_active_def split: option.splits prod.splits)

lemma retire_segment_sequence: "retire_segment l = (status, l') \<Longrightarrow> written_sequence l' = written_sequence l"
  by (auto simp: retire_segment_def written_sequence_def dest!: on_active_recovered close_active_recovered
      split: prod.splits if_splits)

lemma start_segment_sequence: "start_segment l k sq = (status, l') \<Longrightarrow> written_sequence l' = written_sequence l"
  by (auto simp: start_segment_def written_sequence_def split: prod.splits sum.splits)

lemma append_record_sequence:
  assumes "append_record l p = (l', Inr pos)"
  shows "written_sequence l \<noteq> - 1 \<and> gps_physical_sequence p = written_sequence l + 1 \<and>
    written_sequence l' = gps_physical_sequence p"
proof -
  have wr: "written_sequence l2 = sq" if "write_record l1 sq encoded = (l2, Inr pos)" for l1 l2 sq encoded
    using that by (auto simp: write_record_def failing_def make_unexpected_def written_sequence_def Let_def
        split: prod.splits if_splits)
  obtain encoded rotates where "append_checks l p = Inr (encoded, rotates)"
    using assms by (auto simp: append_record_def split: sum.splits)
  moreover from this have "written_sequence l \<noteq> - 1" "gps_physical_sequence p = written_sequence l + 1"
    by (auto simp: append_checks_def Let_def written_sequence_def make_unexpected_def split: if_splits)
  ultimately show ?thesis
    using assms wr
    by (auto simp: append_record_def failing_def make_unexpected_def Let_def split: if_splits prod.splits)
qed





lemma synchronize_sequence:
  "synchronize l = (l', Inr pos) \<Longrightarrow> written_sequence l' = written_sequence l \<and>
     durable_physical_sequence (recovered l') = written_sequence l"
  by (auto simp: synchronize_def written_sequence_def failing_def make_unexpected_def Let_def dest!: on_active_recovered
      split: prod.splits if_splits)

section \<open>One request\<close>

lemma failing_batch_no_result [simp]: "failing_batch d status \<noteq> (d', Inr r)"
  by (simp add: failing_batch_def split: prod.splits)


text \<open>The three ways a request ends without an operation, and the operation.\<close>

lemma execute_request_local:
  assumes "check_leader_term d q \<noteq> kOk \<or> dr_operation q = ObserveGroupOperation"
  shows "\<exists>res. execute_request d faults q cnt = (d, Inr (res, 0, False)) \<and> rs_transition res = None"
  using assms by (auto simp: execute_request_def Let_def failed_result_def split: sum.splits)

lemma execute_request_failed:
  assumes "check_leader_term d q = kOk" "dr_operation q \<noteq> ObserveGroupOperation"
    and "dispatch faults (dr_group_id q) (dr_operation q) (multi d) = (r, Inl (Failed e))"
  shows "execute_request d faults q cnt =
    (if failed_state r then failing_batch (d\<lparr>multi := r\<rparr>) e else (d\<lparr>multi := r\<rparr>, Inr (failed_result e, 0, False)))"
  using assms by (simp add: execute_request_def Let_def)

lemma execute_request_applied:
  assumes "check_leader_term d q = kOk" "dr_operation q \<noteq> ObserveGroupOperation"
    and "dispatch faults (dr_group_id q) (dr_operation q) (multi d) = (r, Inr tr)"
  shows "execute_request d faults q cnt =
    (if length (mt_outbound tr) > maximum_batch_outbound (durable_limits d) - cnt
     then failing_batch (d\<lparr>multi := r\<rparr>) kResourceExhausted
     else let ok = \<lparr>rs_status = kOk, rs_transition = Some tr, rs_observation = None\<rparr> in
       case mt_persistence tr of
         None \<Rightarrow> (d\<lparr>multi := r\<rparr>, Inr (ok, length (mt_outbound tr), False))
       | Some p \<Rightarrow>
           (case append_record (durable_log d) p of
              (l, Inl e) \<Rightarrow> failing_batch (d\<lparr>multi := r, durable_log := l\<rparr>) e
            | (l, Inr pos) \<Rightarrow> (d\<lparr>multi := r, durable_log := l\<rparr>, Inr (ok, length (mt_outbound tr), True))))"
  using assms by (simp add: execute_request_def Let_def split: option.split)


lemma durable_wf_multi:
  assumes "durable_wf d" and "dispatch faults g operation (multi d) = (r, out)"
  shows "runtime_wf r" "runtime_limits r = multi_limits (durable_limits d)"
    "g' \<noteq> g \<Longrightarrow> find_group r g' = find_group (multi d) g'"
  using assms dispatch_wf(1,2) [of "multi d" faults g operation] dispatch_wf(3) [of "multi d" g' g faults operation]
  by (auto simp: durable_wf_def)

lemma request_done_unchanged:
  "durable_wf d \<Longrightarrow> durable_failure d = kOk \<Longrightarrow> rs_transition res = None \<Longrightarrow> request_done d q cnt d (res, 0, False)"
  by (simp add: request_done_def result_outbound_def result_states_def)

lemma request_done_applied:
  assumes wf: "durable_wf d" "durable_failure d = kOk"
    and disp: "dispatch faults (dr_group_id q) (dr_operation q) (multi d) = (m, Inr tr)"
    and room: "length (mt_outbound tr) \<le> maximum_batch_outbound (durable_limits d) - cnt"
    and l: "case mt_persistence tr of None \<Rightarrow> l = durable_log d
      | Some p \<Rightarrow> \<exists>pos. append_record (durable_log d) p = (l, Inr pos)"
  shows "request_done d q cnt (d\<lparr>multi := m, durable_log := l\<rparr>)
    (\<lparr>rs_status = kOk, rs_transition = Some tr, rs_observation = None\<rparr>, length (mt_outbound tr), mt_persistence tr \<noteq> None)"
proof -
  note m = durable_wf_multi [OF wf(1) disp]
  have mwf: "runtime_wf (multi d)" "runtime_limits (multi d) = multi_limits (durable_limits d)"
    "physical_sequence (multi d) = written_sequence (durable_log d)"
    using wf by (simp_all add: durable_wf_def)
  obtain n n' where ok: "persisted (dr_group_id q) (multi d) m n n' (mt_persistence tr)"
      "length (mt_outbound tr) \<le> maximum_outbound_for_operation (dr_operation q) (raft_limits (multi_limits (durable_limits d)))"
    using dispatch_success [OF mwf(1) disp] mwf(2) by auto
  show ?thesis
  proof (cases "mt_persistence tr")
    case None
    with room ok m wf mwf(3) l show ?thesis
      by (simp add: request_done_def result_outbound_def result_states_def durable_wf_def persisted_def)
  next
    case (Some p)
    with l obtain pos where "append_record (durable_log d) p = (l, Inr pos)" by auto
    note sq = append_record_sequence [OF this]
    have "written_sequence (durable_log d) \<le> written_sequence l"
      using sq word_less_Suc [of "written_sequence (durable_log d)"] by simp
    with room ok m wf mwf(3) Some sq show ?thesis
      by (simp add: request_done_def result_outbound_def result_states_def durable_wf_def persisted_def)
  qed
qed

lemma execute_request_done:
  assumes wf: "durable_wf d" "durable_failure d = kOk" and e: "execute_request d faults q cnt = (d', Inr r)"
  shows "request_done d q cnt d' r"
proof (cases "check_leader_term d q \<noteq> kOk \<or> dr_operation q = ObserveGroupOperation")
  case True
  with execute_request_local [OF True, of faults cnt] e wf show ?thesis
    by (auto intro: request_done_unchanged)
next
  case False
  then have run: "check_leader_term d q = kOk" "dr_operation q \<noteq> ObserveGroupOperation" by simp_all
  obtain m out where disp: "dispatch faults (dr_group_id q) (dr_operation q) (multi d) = (m, out)"
    by (cases "dispatch faults (dr_group_id q) (dr_operation q) (multi d)")
  show ?thesis
  proof (cases out)
    case (Inl f)
    obtain code where f: "f = Failed code" "m = multi d \<or> m = fail_closed (multi d)"
      using dispatch_error [OF _ disp [unfolded Inl]] wf(1) by (auto simp: durable_wf_def)
    note e' = e [unfolded execute_request_failed [OF run disp [unfolded Inl f(1)]]]
    have alive: "\<not> failed_state m"
      using e' by (cases "failed_state m") simp_all
    with f(2) have "m = multi d" by auto
    with e' alive wf show ?thesis
      by (auto intro: request_done_unchanged simp: failed_result_def)
  next
    case (Inr tr)
    note e' = e [unfolded execute_request_applied [OF run disp [unfolded Inr]] Let_def]
    note applied = request_done_applied [OF wf disp [unfolded Inr], of cnt]
    have room: "length (mt_outbound tr) \<le> maximum_batch_outbound (durable_limits d) - cnt"
      by (rule ccontr) (use e' in simp)
    show ?thesis
    proof (cases "mt_persistence tr")
      case None
      with e' room applied [of "durable_log d"] show ?thesis
        by (auto simp: not_less)
    next
      case (Some p)
      with e' room applied show ?thesis
        by (cases "append_record (durable_log d) p"; cases "snd (append_record (durable_log d) p)")
          (auto simp: not_less)
    qed
  qed
qed

section \<open>A batch\<close>


lemma execute_requests_done:
  assumes "durable_wf d" and "durable_failure d = kOk" and "execute_requests d qs cnt sync = (d', Inr (results, sync'))"
    and "cnt \<le> maximum_batch_outbound (durable_limits d)"
  shows "batch_done d (map snd qs) cnt d' results \<and>
    sync' = (sync \<or> concat (map result_states results) \<noteq> [])"
  using assms
proof (induction d qs cnt sync arbitrary: results rule: execute_requests.induct)
  case (1 d cnt sync)
  then show ?case by (simp add: batch_done_def)
next
  case (2 d faults q qs cnt sync)
  obtain d1 out where r: "execute_request d faults q cnt = (d1, out)"
    by (cases "execute_request d faults q cnt")
  obtain res sent app where out: "out = Inr (res, sent, app)"
    using 2(4) r by (cases out) auto
  note req = execute_request_done [OF 2(2,3) r [unfolded out], unfolded request_done_def, simplified]
  obtain d2 out2 where more: "execute_requests d1 qs (cnt + sent) (sync \<or> app) = (d2, out2)"
    by (cases "execute_requests d1 qs (cnt + sent) (sync \<or> app)")
  obtain results' where rest: "execute_requests d1 qs (cnt + sent) (sync \<or> app) = (d', Inr (results', sync'))"
      "results = res # results'"
    using 2(4) more by (cases out2) (auto simp: r out)
  have "batch_done d1 (map snd qs) (cnt + sent) d' results' \<and> sync' = ((sync \<or> app) \<or> concat (map result_states results') \<noteq> [])"
    using 2(5) req by (intro 2(1) [OF r [symmetric] out refl refl _ _ rest(1)]) auto
  with req rest(2) show ?case
    by (auto simp: batch_done_def intro: order_trans)
qed

lemma execute_batch_run:
  assumes "execute_batch d requests = (d', Inr results)"
  shows "durable_failure d = kOk" and "\<not> failed_state (multi d)" and "length requests \<le> maximum_batch_operations (durable_limits d)"
    and "admit_durable_batch_outbound (map snd requests) (durable_limits d) = kOk"
    and "\<exists>d1 sync. execute_requests d requests 0 False = (d1, Inr (results, sync)) \<and>
      (if sync then \<exists>l pos. synchronize (durable_log d1) = (l, Inr pos) \<and> d' = d1\<lparr>durable_log := l\<rparr> else d' = d1)"
proof -
  show ok: "durable_failure d = kOk"
    using assms by (simp add: execute_batch_def split: if_splits)
  show alive: "\<not> failed_state (multi d)"
  proof
    assume "failed_state (multi d)"
    with assms ok show False by (simp add: execute_batch_def)
  qed
  show "length requests \<le> maximum_batch_operations (durable_limits d)"
    and adm: "admit_durable_batch_outbound (map snd requests) (durable_limits d) = kOk"
    using assms ok alive by (simp_all add: execute_batch_def Let_def not_less split: if_splits)
  obtain d1 out where run: "execute_requests d requests 0 False = (d1, out)"
    by (cases "execute_requests d requests 0 False")
  have e: "(case (d1, out) of (d1, Inl f) \<Rightarrow> (d1, Inl f)
      | (d1, Inr (results, needs_sync)) \<Rightarrow>
          if needs_sync
          then (case synchronize (durable_log d1) of
                  (l, Inl e) \<Rightarrow> failing_batch (d1\<lparr>durable_log := l\<rparr>) e
                | (l, Inr pos) \<Rightarrow> (d1\<lparr>durable_log := l\<rparr>, Inr results))
          else (d1, Inr results)) = (d', Inr results)"
    using assms ok alive adm run by (simp add: execute_batch_def Let_def split: if_splits)
  then obtain rs sync where out: "out = Inr (rs, sync)"
    by (cases out) auto
  show "\<exists>d1 sync. execute_requests d requests 0 False = (d1, Inr (results, sync)) \<and>
      (if sync then \<exists>l pos. synchronize (durable_log d1) = (l, Inr pos) \<and> d' = d1\<lparr>durable_log := l\<rparr> else d' = d1)"
  proof (cases sync)
    case False
    with e out run show ?thesis by auto
  next
    case True
    obtain l res where sy: "synchronize (durable_log d1) = (l, res)" by (cases "synchronize (durable_log d1)")
    show ?thesis
    proof (cases res)
      case (Inl c)
      with e out True sy show ?thesis by simp
    next
      case (Inr pos)
      with e out True sy run show ?thesis by auto
    qed
  qed
qed

lemma execute_batch_done:
  assumes wf: "durable_wf d" and e: "execute_batch d requests = (d', Inr results)"
  shows "batch_done d (map snd requests) 0 d' results"
    and "concat (map result_states results) \<noteq> [] \<Longrightarrow>
      durable_physical_sequence (recovered (durable_log d')) = written_sequence (durable_log d')"
proof -
  note pre = execute_batch_run [OF e]
  obtain d1 sync where run: "execute_requests d requests 0 False = (d1, Inr (results, sync))"
      and fin: "if sync then \<exists>l pos. synchronize (durable_log d1) = (l, Inr pos) \<and> d' = d1\<lparr>durable_log := l\<rparr> else d' = d1"
    using pre(5) by blast
  have b: "batch_done d (map snd requests) 0 d1 results" "sync = (concat (map result_states results) \<noteq> [])"
    using execute_requests_done [OF wf pre(1) run] by simp_all
  have d': "d' = d1 \<or> (\<exists>l. d' = d1\<lparr>durable_log := l\<rparr> \<and> written_sequence l = written_sequence (durable_log d1) \<and>
      durable_physical_sequence (recovered l) = written_sequence l)" "sync \<Longrightarrow>
      durable_physical_sequence (recovered (durable_log d')) = written_sequence (durable_log d')"
    using fin synchronize_sequence by (fastforce split: if_splits)+
  then show "batch_done d (map snd requests) 0 d' results"
    using b(1) by (auto simp: batch_done_def durable_wf_def)
  show "durable_physical_sequence (recovered (durable_log d')) = written_sequence (durable_log d')"
    if "concat (map result_states results) \<noteq> []"
    using d'(2) b(2) that by simp
qed



section \<open>A sample batch\<close>

lemma sample_durable_wf: "durable_wf sample_durable"
proof -
  have "group_wf 1 default_limits sample_group solo_node"
    using create_run [OF sample_created(2) run_start]
    by (simp add: group_wf_def sample_group_def is_nil_def list_all_iff)
  then show ?thesis
    by (auto simp: durable_wf_def sample_durable_def runtime_wf_def ordered_map.holds_def ordered_def group_count_def
        sample_multi_limits_def core_outbound_def default_limits_def written_sequence_def sample_log_def empty_recovery_def
        initial_position_def)
qed

lemma sample_encoded: "\<exists>bytes. encode_multiplexed_log_record_v1 sample_state_record = Inr bytes \<and> length bytes = 180"
proof -
  have st: "state_encodable (state solo_leader)" and len: "length (state_image (state solo_leader)) = 112"
    by (simp_all add: state_encodable_def solo_leader_def empty_state_def empty_snapshot_def state_image_length
        kUint32Max_def kMaximumMembershipVoters_def)
  have "header_encodable kMultiplexedLogFormatMinor sample_group 1 112"
    by (simp add: header_encodable_def kMultiplexedLogFormatMinor_def sample_group_def is_nil_def list_all_iff kUuidSize_def
        kMaximumMultiplexedLogRecordSize_def)
  then show ?thesis
    using encode_record_image [of sample_state_record] st len sealed_header_split(3) [of sample_group]
    by (simp add: sample_state_record_def record_image_def Let_def sample_group_def kUuidSize_def)
qed

lemma sample_appended_record: "\<exists>l pos. append_record sample_log sample_state_record = (l, Inr pos) \<and>
    active_file l = Some 0 \<and> log_open l \<and> log_failure l = kOk \<and> outcomes (log_storage l) = []"
proof -
  obtain bytes where "encode_multiplexed_log_record_v1 sample_state_record = Inr bytes" "length bytes = 180"
    using sample_encoded by blast
  then show ?thesis
    by (simp add: append_record_def append_checks_def sample_log_def sample_log_config_def empty_recovery_def
        initial_position_def kRaftSegmentHeaderSize_def write_record_def on_active_def write_all_at_def outcome_def
        sample_storage_def sample_state_record_def Let_def)
qed

lemma sample_dispatch:
  "\<exists>m tr. dispatch sample_faults sample_group StartElectionOperation (multi sample_durable) = (m, Inr tr) \<and>
    mt_persistence tr = Some sample_state_record \<and> mt_outbound tr = []"
  by (simp add: dispatch_def group_start_election_def group_operation_def transition_group_def find_group_def
      sample_durable_def sample_faults_def solo_elected set_group_def wrap_def number_state_def
      empty_transition_def sample_state_record_def Let_def)

lemma sample_request:
  assumes "multi d = multi sample_durable" and "append_record (durable_log d) sample_state_record = (l, out)"
    and "durable_limits d = durable_limits sample_durable" and "durable_failure d = kOk"
  shows "\<exists>m res. result_states res = [sample_state_record] \<and>
    execute_request d sample_faults \<lparr>dr_group_id = sample_group, dr_operation = StartElectionOperation,
      dr_required_leader_term = None\<rparr> 0 =
      (case out of Inl e \<Rightarrow> failing_batch (d\<lparr>multi := m, durable_log := l\<rparr>) e
       | Inr pos \<Rightarrow> (d\<lparr>multi := m, durable_log := l\<rparr>, Inr (res, 0, True)))"
proof -
  obtain m tr where m: "dispatch sample_faults sample_group StartElectionOperation (multi d) = (m, Inr tr)"
      "mt_persistence tr = Some sample_state_record" "mt_outbound tr = []"
    using sample_dispatch assms(1) by auto
  let ?res = "\<lparr>rs_status = kOk, rs_transition = Some tr, rs_observation = None\<rparr>"
  have "result_states ?res = [sample_state_record]"
    using m by (simp add: result_states_def)
  moreover have "execute_request d sample_faults \<lparr>dr_group_id = sample_group, dr_operation = StartElectionOperation,
      dr_required_leader_term = None\<rparr> 0 =
      (case out of Inl e \<Rightarrow> failing_batch (d\<lparr>multi := m, durable_log := l\<rparr>) e
       | Inr pos \<Rightarrow> (d\<lparr>multi := m, durable_log := l\<rparr>, Inr (?res, 0, True)))"
    by (subst execute_request_applied [where r = m and tr = tr])
      (simp_all add: m assms(2-4) check_leader_term_def Let_def split: sum.split)
  ultimately show ?thesis by blast
qed

lemma sample_admitted:
  "admit_durable_batch_outbound [\<lparr>dr_group_id = sample_group, dr_operation = StartElectionOperation,
      dr_required_leader_term = None\<rparr>] (durable_limits sample_durable) = kOk"
  "\<not> maximum_batch_operations (durable_limits sample_durable) < Suc 0"
  "\<not> failed_state (multi sample_durable)" "durable_failure sample_durable = kOk"
  by (simp_all add: sample_durable_def admit_durable_batch_outbound_def maximum_outbound_for_operation_def
      core_outbound_def sample_multi_limits_def default_limits_def Let_def)

lemma sample_batch_runs:
  "\<exists>d' res. execute_batch sample_durable sample_batch = (d', Inr [res]) \<and> result_states res = [sample_state_record]"
proof -
  obtain l pos where l: "append_record sample_log sample_state_record = (l, Inr pos)"
      "active_file l = Some 0" "log_open l" "log_failure l = kOk" "outcomes (log_storage l) = []"
    using sample_appended_record by blast
  then have "append_record (durable_log sample_durable) sample_state_record = (l, Inr pos)"
    by (simp add: sample_durable_def)
  then obtain m res where r: "result_states res = [sample_state_record]"
      "execute_request sample_durable sample_faults \<lparr>dr_group_id = sample_group, dr_operation = StartElectionOperation,
        dr_required_leader_term = None\<rparr> 0 = (sample_durable\<lparr>multi := m, durable_log := l\<rparr>, Inr (res, 0, True))"
    using sample_request [of sample_durable l "Inr pos"] sample_admitted(4) by auto
  obtain l' pos' where "synchronize l = (l', Inr pos')"
    using l by (simp add: synchronize_def on_active_def sync_file_def outcome_def Let_def)
  with r sample_admitted show ?thesis
    by (simp add: execute_batch_def sample_batch_def Let_def)
qed



section \<open>Properties\<close>





text \<open>C10: The messages a batch releases stay within what was admitted: each request produces at
  most the bound of its operation, and all of them together at most the bound of a batch.\<close>

theorem batch_outbound_bounded:
  assumes "durable_wf d" and "execute_batch d requests = (d', Inr results)"
  shows "list_all2 (\<lambda>(faults, q) res. length (result_outbound res) \<le>
      maximum_outbound_for_operation (dr_operation q) (raft_limits (multi_limits (durable_limits d)))) requests results \<and>
    length (concat (map result_outbound results)) \<le> maximum_batch_outbound (durable_limits d)"
  using execute_batch_done(1) [OF assms] by (simp add: batch_done_def list.rel_map case_prod_unfold)

theorem batch_outbound_bounded_witness:
  "\<exists>d' res. execute_batch sample_durable sample_batch = (d', Inr [res]) \<and> length (result_outbound res) \<le> 64"
proof -
  obtain d' res where b: "execute_batch sample_durable sample_batch = (d', Inr [res])"
    using sample_batch_runs by blast
  with batch_outbound_bounded [OF sample_durable_wf b] show ?thesis
    by (simp add: sample_durable_def)
qed



end
