(* ===== verification/Log_Image.thy ===== *)
theory Log_Image
  imports Log_Recovery
begin

text \<open>
  What the record loop of the recovery does on the bytes that the log writes: a segment is its sealed
  header followed by the records, and scanning it accepts the records one after the other. A proper
  prefix of a record behind the last complete one is recognised as an incomplete record and cut off.
\<close>

section \<open>Bytes of records and segments\<close>

definition storable :: "GroupPersistentState \<Rightarrow> bool" where
  "storable p =
     (state_encodable (gps_state p) \<and>
      header_encodable kMultiplexedLogFormatMinor (gps_group_id p) (gps_physical_sequence p)
        (length (state_image (gps_state p))))"

definition record_bytes :: "GroupPersistentState \<Rightarrow> byte list" where
  "record_bytes p =
     record_image kMultiplexedLogFormatMinor (gps_group_id p) (gps_physical_sequence p) (state_image (gps_state p))"

definition records_bytes :: "GroupPersistentState list \<Rightarrow> byte list" where
  "records_bytes ps = concat (map record_bytes ps)"

text \<open>What a write that did not complete may leave behind the last record.\<close>

definition torn :: "byte list \<Rightarrow> bool" where
  "torn tail = (tail = [] \<or> (\<exists>p k. storable p \<and> k < length (record_bytes p) \<and> tail = take k (record_bytes p)))"

text \<open>The records that the loop has accepted, in one go.\<close>

fun accept_all :: "RaftPersistentLogConfig \<Rightarrow> RecoveryAnchor option \<Rightarrow> Scan \<Rightarrow> GroupPersistentState list \<Rightarrow>
    Scan result" where
  "accept_all c anchor sc [] = Inr sc"
| "accept_all c anchor sc (p # ps) =
     (case accept_record c anchor sc p of
        Inl e \<Rightarrow> Inl e
      | Inr sc' \<Rightarrow> accept_all c anchor sc' ps)"

text \<open>The storage after the tail of a file has been cut off.\<close>

definition repaired :: "Storage \<Rightarrow> nat \<Rightarrow> nat \<Rightarrow> Storage" where
  "repaired s file n =
     s\<lparr>contents := (contents s)(file := take n (contents s file)),
       durable_contents := (durable_contents s)(file := take n (contents s file)),
       durable_entries := entries s\<rparr>"

section \<open>Storage without failures\<close>

lemma outcome_done [simp]: "outcomes s = [] \<Longrightarrow> outcome s = (Done, s)"
  by (simp add: outcome_def)

lemma io_then_ok [simp]: "io_then (kOk, s) f = f s"
  by (simp add: io_then_def is_ok_def)

lemma read_file_done:
  "outcomes s = [] \<Longrightarrow> offset + count \<le> length (contents s fi) \<Longrightarrow>
   read_file s fi offset count = (Inr (take count (drop offset (contents s fi))), s)"
  by (simp add: read_file_def read_at_def)

section \<open>Records\<close>

lemma storable_encode: "storable p \<Longrightarrow> encode_multiplexed_log_record_v1 p = Inr (record_bytes p)"
  by (simp add: storable_def record_bytes_def encode_record_image)

lemma storable_group: "storable p \<Longrightarrow> length (gps_group_id p) = kUuidSize"
  by (simp add: storable_def header_encodable_def)

lemma record_bytes_split:
  assumes "storable p"
  shows "take 64 (record_bytes p) = sealed_header kMultiplexedLogFormatMinor (gps_group_id p)
      (gps_physical_sequence p) (length (state_image (gps_state p))) (crc32c (state_image (gps_state p)))"
    and "length (record_bytes p) = length (state_image (gps_state p)) + 68"
  using sealed_header_split(3) [OF storable_group [OF assms]]
  by (simp_all add: record_bytes_def record_image_def Let_def)

lemma record_bytes_nonempty: "storable p \<Longrightarrow> 0 < length (record_bytes p)"
  by (simp add: record_bytes_split)

lemma inspect_record_bytes:
  assumes "storable p"
  shows "inspect_multiplexed_log_record_header_v1 (take 64 (record_bytes p)) =
    Inr \<lparr>mh_encoded_size = length (record_bytes p), mh_payload_size = length (state_image (gps_state p)),
         mh_physical_sequence = gps_physical_sequence p, mh_group_id = gps_group_id p,
         mh_format_minor = kMultiplexedLogFormatMinor\<rparr>"
  using assms inspect_header_image by (simp add: record_bytes_split storable_def)

lemma decode_record_bytes:
  assumes "storable p"
  shows "decode_multiplexed_log_record_v1 (record_bytes p) =
    Inr \<lparr>dgps_persistent = p, dgps_encoded_size = length (record_bytes p)\<rparr>"
  using assms decode_record_image [of kMultiplexedLogFormatMinor "gps_group_id p" "gps_physical_sequence p"
      "state_image (gps_state p)"] state_image_minimum [of "gps_state p"]
  by (simp add: storable_def decode_state_image record_bytes_split)
    (simp add: record_bytes_def kMultiplexedLogFormatMinor_def)

section \<open>One record\<close>

lemma scan_record_accept:
  assumes s: "outcomes s = []" and p: "storable p"
    and at: "take (length (record_bytes p)) (drop offset (contents s fi)) = record_bytes p"
    and sz: "sz = length (contents s fi)"
  shows "scan_record c anchor rep s fi sz offset sc =
    (map_sum id (\<lambda>sc. (Continue (length (record_bytes p)), sc)) (accept_record c anchor sc p), s)"
proof -
  let ?n = "length (record_bytes p)"
  have "length (record_bytes p) \<le> length (drop offset (contents s fi))"
    using at by (metis length_take min.cobounded1 min.commute)
  then have fits: "offset + ?n \<le> sz"
    using record_bytes_nonempty [OF p] unfolding sz by (simp del: length_greater_0_conv)
  have "64 \<le> ?n"
    by (simp add: record_bytes_split [OF p])
  moreover have "take 64 (drop offset (contents s fi)) = take 64 (record_bytes p)"
    using at \<open>64 \<le> ?n\<close> by (metis min_absorb1 take_take)
  moreover have "\<not> length (contents s fi) - offset < ?n" "\<not> length (contents s fi) - offset < 64"
    using fits \<open>64 \<le> ?n\<close> unfolding sz by linarith+
  ultimately show ?thesis
    using fits s sz
    by (simp add: scan_record_def Let_def kMultiplexedLogHeaderSize_def read_file_done
        inspect_record_bytes [OF p] at decode_record_bytes [OF p])
qed

lemma scan_record_torn:
  assumes s: "outcomes s = []" and tail: "torn (drop offset (contents s fi))" "offset < length (contents s fi)"
  shows "scan_record c anchor rep s fi (length (contents s fi)) offset sc =
    (case repair_tail anchor rep s fi (length (contents s fi)) offset sc of
       (r, s') \<Rightarrow> (map_sum id (\<lambda>sc. (Stop, sc)) r, s'))"
proof -
  obtain p k where p: "storable p" and k: "k < length (record_bytes p)"
      and d: "drop offset (contents s fi) = take k (record_bytes p)"
    using tail by (auto simp: torn_def)
  have len: "length (contents s fi) - offset = k"
    using arg_cong [OF d, of length] k by simp
  show ?thesis
  proof (cases "k < 64")
    case True
    then show ?thesis
      by (simp add: scan_record_def Let_def kMultiplexedLogHeaderSize_def len)
  next
    case False
    then have "take 64 (drop offset (contents s fi)) = take 64 (record_bytes p)"
      by (simp add: d min_absorb1)
    with False k len s show ?thesis
      by (simp add: scan_record_def Let_def kMultiplexedLogHeaderSize_def read_file_done
          inspect_record_bytes [OF p] not_less)
  qed
qed

section \<open>All records\<close>

lemma records_bytes_simps [simp]:
  "records_bytes [] = []" "records_bytes (p # ps) = record_bytes p @ records_bytes ps"
  "records_bytes (ps @ qs) = records_bytes ps @ records_bytes qs"
  by (simp_all add: records_bytes_def)

lemma scan_records_step:
  assumes "outcomes s = []" and "list_all storable ps"
    and "drop offset (contents s fi) = records_bytes ps @ rest"
    and "accept_all c anchor sc ps = Inr sc'"
  shows "scan_records c anchor rep s fi (length (contents s fi)) offset count sc =
    scan_records c anchor rep s fi (length (contents s fi)) (offset + length (records_bytes ps))
      (count + length ps) sc'"
  using assms(2-4)
proof (induction ps arbitrary: offset count sc)
  case (Cons p ps)
  let ?n = "length (record_bytes p)"
  obtain sc1 where sc1: "accept_record c anchor sc p = Inr sc1" "accept_all c anchor sc1 ps = Inr sc'"
    using Cons.prems(3) by (auto split: sum.splits)
  have p: "storable p" using Cons.prems(1) by simp
  have at: "take ?n (drop offset (contents s fi)) = record_bytes p"
    using Cons.prems(2) by simp
  have rest: "drop (offset + ?n) (contents s fi) = records_bytes ps @ rest"
    using Cons.prems(2) by (metis append.assoc append_eq_conv_conj drop_drop add.commute records_bytes_simps(2))
  have "offset < length (contents s fi)"
    using Cons.prems(2) record_bytes_nonempty [OF p] by (metis append_is_Nil_conv drop_eq_Nil length_greater_0_conv
        not_less records_bytes_simps(2))
  then have "scan_records c anchor rep s fi (length (contents s fi)) offset count sc =
      scan_records c anchor rep s fi (length (contents s fi)) (offset + ?n) (count + 1) sc1"
    using scan_record_accept [OF assms(1) p at refl] record_bytes_nonempty [OF p] sc1(1)
    by (subst scan_records.simps) simp
  also note Cons.IH [OF _ rest sc1(2), of "count + 1"]
  finally show ?case
    using Cons.prems(1) by (simp add: add.assoc)
qed simp

lemma scan_records_end: "scan_records c anchor rep s fi sz sz count sc = (Inr (sc, count, sz), s)"
  by (subst scan_records.simps) simp

lemma scan_records_stop:
  "offset < sz \<Longrightarrow> scan_record c anchor rep s fi sz offset sc = (Inr (Stop, sc'), s') \<Longrightarrow>
   scan_records c anchor rep s fi sz offset count sc = (Inr (sc', count, offset), s')"
  by (subst scan_records.simps) simp

lemma scan_records_complete:
  assumes "outcomes s = []" and "list_all storable ps"
    and "drop offset (contents s fi) = records_bytes ps" and "offset \<le> length (contents s fi)"
    and "accept_all c anchor sc ps = Inr sc'"
  shows "scan_records c anchor rep s fi (length (contents s fi)) offset 0 sc =
    (Inr (sc', length ps, length (contents s fi)), s)"
proof -
  have "length (contents s fi) - offset = length (records_bytes ps)"
    using arg_cong [OF assms(3), of length] by simp
  then have "offset + length (records_bytes ps) = length (contents s fi)"
    using assms(4) by simp
  then show ?thesis
    using scan_records_step [OF assms(1,2) _ assms(5), where offset = offset and rest = "[]"] assms(3)
    by (simp add: scan_records_end)
qed

lemma repair_tail_done:
  assumes "outcomes s = []" and "offset \<le> length (contents s fi)"
    and "\<forall>a. anchor = Some a \<longrightarrow> ra_checkpoint_last_sequence a \<le> sc_last_sequence sc"
  shows "repair_tail anchor True s fi sz offset sc =
    (Inr (sc\<lparr>sc_repaired_bytes := sz - offset\<rparr>), repaired s fi offset)"
  using assms by (auto simp: repair_tail_def truncate_file_def sync_file_def sync_directory_def Let_def
      repaired_def is_ok_def split: option.splits)

lemma scan_records_torn:
  assumes "outcomes s = []" and "list_all storable ps"
    and bytes: "drop offset (contents s fi) = records_bytes ps @ tail" and "torn tail" "tail \<noteq> []"
    and "accept_all c anchor sc ps = Inr sc'"
    and "\<forall>a. anchor = Some a \<longrightarrow> ra_checkpoint_last_sequence a \<le> sc_last_sequence sc'"
  shows "scan_records c anchor True s fi (length (contents s fi)) offset 0 sc =
    (Inr (sc'\<lparr>sc_repaired_bytes := length tail\<rparr>, length ps, offset + length (records_bytes ps)),
     repaired s fi (offset + length (records_bytes ps)))"
proof -
  let ?stop = "offset + length (records_bytes ps)"
  have d: "drop ?stop (contents s fi) = tail"
    using bytes by (metis add.commute append_eq_conv_conj drop_drop)
  then have lt: "?stop < length (contents s fi)" "length (contents s fi) - ?stop = length tail"
    using \<open>tail \<noteq> []\<close> by (metis drop_eq_Nil not_less) (use d in force)
  then show ?thesis
    using scan_records_step [OF assms(1,2) bytes assms(6), of True 0]
      scan_record_torn [OF assms(1), where offset = ?stop and fi = fi] d assms(1,4,7)
    by (simp add: scan_records_stop repair_tail_done)
qed

end
