(* ===== verification/Log_Scan.thy ===== *)
theory Log_Scan
  imports Log_Image
begin

text \<open>
  The recovery scan over whole segments. The records of all retained segments form one chain of
  physical sequences; the scan of stored segments keeps the last state of every group, counts the
  records of every segment, and ends at the end of the last segment.
\<close>

section \<open>Chains of records\<close>

fun chained :: "u64 \<Rightarrow> GroupPersistentState list \<Rightarrow> bool" where
  "chained before [] = True"
| "chained before (p # ps) =
     (before \<noteq> - 1 \<and> gps_physical_sequence p = before + 1 \<and> chained (gps_physical_sequence p) ps)"

definition last_sequence :: "u64 \<Rightarrow> GroupPersistentState list \<Rightarrow> u64" where
  "last_sequence before ps = (if ps = [] then before else gps_physical_sequence (last ps))"

definition keep_latest :: "GroupPersistentState list \<Rightarrow> (GroupId \<times> GroupPersistentState) list \<Rightarrow>
    (GroupId \<times> GroupPersistentState) list" where
  "keep_latest ps m = fold (\<lambda>p. ordered_insert (gps_group_id p) p) ps m"

definition in_checkpoint :: "RecoveryAnchor option \<Rightarrow> GroupPersistentState \<Rightarrow> bool" where
  "in_checkpoint anchor p =
     (case anchor of None \<Rightarrow> False | Some a \<Rightarrow> gps_physical_sequence p \<le> ra_checkpoint_last_sequence a)"

section \<open>The scan as a function of the records\<close>

definition after_records :: "RecoveryAnchor option \<Rightarrow> Scan \<Rightarrow> GroupPersistentState list \<Rightarrow> Scan" where
  "after_records anchor sc ps =
     sc\<lparr>sc_record_count := sc_record_count sc + length ps,
        sc_checkpoint_groups := sc_checkpoint_groups sc \<union> gps_group_id ` set (filter (in_checkpoint anchor) ps),
        sc_latest := keep_latest ps (sc_latest sc),
        sc_last_sequence := last_sequence (sc_last_sequence sc) ps\<rparr>"

definition acceptable :: "RaftPersistentLogConfig \<Rightarrow> RecoveryAnchor option \<Rightarrow> Scan \<Rightarrow> GroupPersistentState list \<Rightarrow> bool"
    where
  "acceptable c anchor sc ps =
     (chained (sc_last_sequence sc) ps \<and> sc_record_count sc + length ps \<le> maximum_records c \<and>
      length (keep_latest ps (sc_latest sc)) \<le> lc_maximum_groups c \<and>
      distinct (map gps_group_id (filter (in_checkpoint anchor) ps)) \<and>
      sc_checkpoint_groups sc \<inter> gps_group_id ` set (filter (in_checkpoint anchor) ps) = {} \<and>
      ordered (sc_latest sc))"

text \<open>The end of the loop body for one segment.\<close>

definition after_segment :: "RecoveryAnchor option \<Rightarrow> u64 \<Rightarrow> Scan \<Rightarrow> GroupPersistentState list \<Rightarrow> Scan" where
  "after_segment anchor number sc ps =
     (after_records anchor sc ps)\<lparr>sc_counts := ordered_insert number (length ps) (sc_counts sc),
        sc_active_end := kRaftSegmentHeaderSize + length (records_bytes ps)\<rparr>"

fun after_segments :: "RecoveryAnchor option \<Rightarrow> u64 \<Rightarrow> Scan \<Rightarrow> GroupPersistentState list list \<Rightarrow> Scan" where
  "after_segments anchor number sc [] = sc"
| "after_segments anchor number sc (ps # runs) =
     after_segments anchor (number + 1) (after_segment anchor number sc ps) runs"

section \<open>Stored segments\<close>

definition segment_bytes :: "u64 \<Rightarrow> u64 \<Rightarrow> GroupPersistentState list \<Rightarrow> byte list" where
  "segment_bytes number first ps = segment_block.sealed (number, first) @ records_bytes ps"

text \<open>The files of consecutive segments, each with its inode and records; bytes of an incomplete record
  may follow in the last one.\<close>

fun stored :: "(string \<Rightarrow> (DirectoryEntryType \<times> nat) option) \<Rightarrow> (nat \<Rightarrow> byte list) \<Rightarrow> u64 \<Rightarrow> u64 \<Rightarrow>
    (nat \<times> GroupPersistentState list) list \<Rightarrow> byte list \<Rightarrow> bool" where
  "stored E C number before [] tail = True"
| "stored E C number before ((fi, ps) # segs) tail =
     (E (segment_name number kSegmentSuffix) = Some (kRegularFile, fi) \<and> before \<noteq> - 1 \<and>
      C fi = segment_bytes number (before + 1) ps @ (if segs = [] then tail else []) \<and>
      stored E C (number + 1) (last_sequence before ps) segs tail)"

definition segment_files :: "u64 \<Rightarrow> nat \<Rightarrow> (u64 \<times> string) list" where
  "segment_files number n = map (\<lambda>i. (number + of_nat i, segment_name (number + of_nat i) kSegmentSuffix)) [0..<n]"

text \<open>The storage after the scan has cut off the bytes behind the last record.\<close>

definition settled :: "Storage \<Rightarrow> (nat \<times> GroupPersistentState list) list \<Rightarrow> byte list \<Rightarrow> Storage" where
  "settled s segs tail =
     (if tail = [] \<or> segs = [] then s
      else repaired s (fst (last segs)) (kRaftSegmentHeaderSize + length (records_bytes (snd (last segs)))))"

section \<open>Facts about chains\<close>

lemma last_sequence_simps [simp]:
  "last_sequence before [] = before"
  "last_sequence before (p # ps) = last_sequence (gps_physical_sequence p) ps"
  by (simp_all add: last_sequence_def)

lemma last_sequence_append [simp]:
  "last_sequence before (ps @ qs) = last_sequence (last_sequence before ps) qs"
  by (induction ps arbitrary: before) simp_all

lemma chained_append [simp]:
  "chained before (ps @ qs) \<longleftrightarrow> chained before ps \<and> chained (last_sequence before ps) qs"
  by (induction ps arbitrary: before) simp_all

lemma keep_latest_simps [simp]:
  "keep_latest [] m = m"
  "keep_latest (p # ps) m = keep_latest ps (ordered_insert (gps_group_id p) p m)"
  "keep_latest (ps @ qs) m = keep_latest qs (keep_latest ps m)"
  by (simp_all add: keep_latest_def)

lemma keep_latest_ordered: "ordered m \<Longrightarrow> ordered (keep_latest ps m)"
  by (induction ps arbitrary: m) (simp_all add: ordered_map.put_ok)

lemma find_append: "find P (xs @ ys) = (case find P xs of Some x \<Rightarrow> Some x | None \<Rightarrow> find P ys)"
  by (induction xs) auto

lemma keep_latest_find:
  "ordered m \<Longrightarrow> map_of (keep_latest ps m) g =
     (case find (\<lambda>p. gps_group_id p = g) (rev ps) of Some p \<Rightarrow> Some p | None \<Rightarrow> map_of m g)"
proof (induction ps arbitrary: m)
  case (Cons p ps)
  show ?case
    using Cons.IH [OF ordered_map.put_ok [OF Cons.prems], of "gps_group_id p" p] Cons.prems
    by (auto simp: ordered_map.find_put find_append split: option.splits)
qed simp

lemma keep_latest_keys: "fst ` set (keep_latest ps m) = gps_group_id ` set ps \<union> fst ` set m"
  by (induction ps arbitrary: m) (auto simp: ordered_insert_keys)

lemma keep_latest_values:
  "ordered m \<Longrightarrow> set (map snd (keep_latest ps m)) \<subseteq> set ps \<union> set (map snd m)"
proof (induction ps arbitrary: m)
  case (Cons p ps)
  have "set (map snd (ordered_insert (gps_group_id p) p m)) \<subseteq> insert p (set (map snd m))"
    by (induction "gps_group_id p" p m rule: ordered_insert.induct) auto
  with Cons.IH [OF ordered_map.put_ok [OF Cons.prems], of "gps_group_id p" p] show ?case
    by auto
qed simp

lemma ordered_length: "ordered m \<Longrightarrow> length m = card (fst ` set m)"
  by (metis distinct_card length_map list.set_map ordered_def strict_sorted_iff)

lemma keep_latest_length:
  "ordered m \<Longrightarrow> length (keep_latest ps m) = card (gps_group_id ` set ps \<union> fst ` set m)"
  by (simp add: ordered_length keep_latest_ordered keep_latest_keys)

lemma keep_latest_grows: "ordered m \<Longrightarrow> length m \<le> length (keep_latest ps m)"
  by (simp add: keep_latest_length ordered_length card_mono)

section \<open>Accepting records\<close>

lemma after_records_simps [simp]:
  "after_records anchor sc [] = sc"
  "after_records anchor (after_records anchor sc ps) qs = after_records anchor sc (ps @ qs)"
  by (simp_all add: after_records_def Un_assoc image_Un)

lemma after_records_fields [simp]:
  "sc_last_sequence (after_records anchor sc ps) = last_sequence (sc_last_sequence sc) ps"
  "sc_counts (after_records anchor sc ps) = sc_counts sc"
  "sc_repaired_bytes (after_records anchor sc ps) = sc_repaired_bytes sc"
  by (simp_all add: after_records_def)

lemma acceptable_append:
  "acceptable c anchor sc (ps @ qs) \<longleftrightarrow> acceptable c anchor sc ps \<and> acceptable c anchor (after_records anchor sc ps) qs"
  using keep_latest_grows [OF keep_latest_ordered, of "sc_latest sc" ps qs]
  by (auto simp: acceptable_def after_records_def keep_latest_ordered)

lemma accept_record_ok:
  "acceptable c anchor sc [p] \<Longrightarrow> accept_record c anchor sc p = Inr (after_records anchor sc [p])"
  by (auto simp: acceptable_def accept_record_def after_records_def in_checkpoint_def Let_def
      split: option.splits if_splits)

lemma accept_all_ok:
  "acceptable c anchor sc ps \<Longrightarrow> accept_all c anchor sc ps = Inr (after_records anchor sc ps)"
proof (induction ps arbitrary: sc)
  case (Cons p ps)
  then have "acceptable c anchor sc [p]" "acceptable c anchor (after_records anchor sc [p]) ps"
    using acceptable_append [of c anchor sc "[p]" ps] by simp_all
  with Cons.IH show ?case
    by (simp add: accept_record_ok)
qed simp

lemma acceptable_frame [simp]:
  "acceptable c anchor (sc\<lparr>sc_counts := x, sc_active_end := y\<rparr>) ps = acceptable c anchor sc ps"
  "acceptable c anchor (after_segment anchor n sc qs) ps = acceptable c anchor (after_records anchor sc qs) ps"
  by (simp_all add: acceptable_def after_segment_def)

lemma after_records_frame:
  "after_records anchor (sc\<lparr>sc_counts := x, sc_active_end := y\<rparr>) ps =
     (after_records anchor sc ps)\<lparr>sc_counts := x, sc_active_end := y\<rparr>"
  by (simp add: after_records_def)

section \<open>Scanning segments\<close>

lemma segment_bytes_simps [simp]:
  "length (segment_bytes n f ps) = kRaftSegmentHeaderSize + length (records_bytes ps)"
  "take kRaftSegmentHeaderSize (segment_bytes n f ps) = segment_block.sealed (n, f)"
  "drop kRaftSegmentHeaderSize (segment_bytes n f ps) = records_bytes ps"
  by (simp_all add: segment_bytes_def kRaftSegmentHeaderSize_def)

lemma torn_Nil [simp]: "torn []"
  by (simp add: torn_def)

lemma scan_segment_stored:
  assumes s: "outcomes s = []" and E: "map_of (entries s) name = Some (kRegularFile, fi)"
    and C: "contents s fi = segment_bytes n (sc_last_sequence sc + 1) ps @ tail" and "torn tail"
    and size: "length (contents s fi) \<le> kMaximumRaftSegmentSize"
    and ps: "list_all storable ps" "acceptable c anchor sc ps" and "sc_last_sequence sc \<noteq> - 1"
    and rep: "tail \<noteq> [] \<longrightarrow> rep \<and> (\<forall>a. anchor = Some a \<longrightarrow>
        ra_checkpoint_last_sequence a \<le> last_sequence (sc_last_sequence sc) ps)"
  shows "scan_segment c anchor rep s n name sc =
    (Inr ((after_segment anchor n sc ps)\<lparr>sc_repaired_bytes :=
       (if tail = [] then sc_repaired_bytes sc else length tail)\<rparr>), settled s [(fi, ps)] tail)"
proof -
  have first: "sc_last_sequence sc + 1 \<noteq> 0"
    using \<open>sc_last_sequence sc \<noteq> - 1\<close> by (metis add_eq_0_iff minus_equation_iff)
  have "length (contents s fi) = kRaftSegmentHeaderSize + length (records_bytes ps) + length tail"
    by (simp add: C)
  then have lens: "kRaftSegmentHeaderSize \<le> length (contents s fi)" by simp
  have drops: "drop kRaftSegmentHeaderSize (contents s fi) = records_bytes ps @ tail"
    by (simp add: C)
  have scan: "scan_segment c anchor rep s n name sc =
      (case scan_records c anchor rep s fi (length (contents s fi)) kRaftSegmentHeaderSize 0 sc of
         (Inl e, s4) \<Rightarrow> (Inl e, s4)
       | (Inr (sc', count, offset), s4) \<Rightarrow>
           (Inr (sc'\<lparr>sc_counts := ordered_insert n count (sc_counts sc'), sc_active_end := offset\<rparr>), s4))"
    using s E lens size first \<open>sc_last_sequence sc \<noteq> - 1\<close>
    by (simp add: scan_segment_def open_regular_file_def file_size_def read_file_done C
        decode_segment_header_sealed [OF first])
  show ?thesis
  proof (cases "tail = []")
    case True
    then show ?thesis
      using scan_records_complete [OF s ps(1) _ lens accept_all_ok [OF ps(2)], of rep] drops scan
      by (simp add: after_segment_def settled_def C)
  next
    case False
    then show ?thesis
      using scan_records_torn [OF s ps(1) drops \<open>torn tail\<close> False accept_all_ok [OF ps(2)]] rep scan
      by (simp add: after_segment_def settled_def)
  qed
qed

lemma segment_files_simps [simp]:
  "segment_files n 0 = []"
  "segment_files n (Suc k) = (n, segment_name n kSegmentSuffix) # segment_files (n + 1) k"
proof -
  show "segment_files n (Suc k) = (n, segment_name n kSegmentSuffix) # segment_files (n + 1) k"
    by (simp add: segment_files_def upt_conv_Cons map_Suc_upt [symmetric] comp_def add.assoc
        del: upt_Suc map_Suc_upt)
qed (simp add: segment_files_def)

lemma segment_files_empty [simp]: "segment_files n k = [] \<longleftrightarrow> k = 0"
  by (cases k) simp_all

lemma after_segment_simps [simp]:
  "sc_last_sequence (after_segment anchor n sc ps) = last_sequence (sc_last_sequence sc) ps"
  "sc_repaired_bytes (after_segment anchor n sc ps) = sc_repaired_bytes sc"
  by (simp_all add: after_segment_def after_records_def)

lemma scan_segments_stored:
  assumes s: "outcomes s = []" and "torn tail"
    and "stored (map_of (entries s)) (contents s) n (sc_last_sequence sc) segs tail"
    and "\<forall>fi \<in> fst ` set segs. length (contents s fi) \<le> kMaximumRaftSegmentSize"
    and "list_all storable (concat (map snd segs))" and "acceptable c anchor sc (concat (map snd segs))"
    and "tail \<noteq> [] \<longrightarrow> (\<forall>a. anchor = Some a \<longrightarrow>
        ra_checkpoint_last_sequence a \<le> last_sequence (sc_last_sequence sc) (concat (map snd segs)))"
  shows "scan_segments c anchor True s (segment_files n (length segs)) sc =
    (Inr ((after_segments anchor n sc (map snd segs))\<lparr>sc_repaired_bytes :=
       (if tail = [] \<or> segs = [] then sc_repaired_bytes sc else length tail)\<rparr>), settled s segs tail)"
  using assms(3-7)
proof (induction segs arbitrary: n sc)
  case (Cons seg segs)
  obtain fi ps where seg: "seg = (fi, ps)" by (cases seg)
  let ?tail = "if segs = [] then tail else []"
  note prems = Cons.prems [unfolded seg]
  have E: "map_of (entries s) (segment_name n kSegmentSuffix) = Some (kRegularFile, fi)"
    and C: "contents s fi = segment_bytes n (sc_last_sequence sc + 1) ps @ ?tail" and "sc_last_sequence sc \<noteq> - 1"
    and rest: "stored (map_of (entries s)) (contents s) (n + 1) (last_sequence (sc_last_sequence sc) ps) segs tail"
    using prems(1) by simp_all
  have acc: "acceptable c anchor sc ps" "acceptable c anchor (after_segment anchor n sc ps) (concat (map snd segs))"
    using prems(4) by (simp_all add: acceptable_append)
  have one: "scan_segment c anchor (segs = []) s n (segment_name n kSegmentSuffix) sc =
    (Inr ((after_segment anchor n sc ps)\<lparr>sc_repaired_bytes :=
       (if ?tail = [] then sc_repaired_bytes sc else length ?tail)\<rparr>), settled s [(fi, ps)] ?tail)"
    by (rule scan_segment_stored [OF s E C])
      (use \<open>torn tail\<close> prems acc(1) \<open>sc_last_sequence sc \<noteq> - 1\<close> in auto)
  show ?case
  proof (cases "segs = []")
    case True
    with one show ?thesis by (simp add: seg)
  next
    case False
    have "(after_segment anchor n sc ps)\<lparr>sc_repaired_bytes := sc_repaired_bytes sc\<rparr> = after_segment anchor n sc ps"
      by (simp add: after_segment_def after_records_def)
    with False one Cons.IH [of "n + 1" "after_segment anchor n sc ps"] rest prems acc(2) show ?thesis
      by (simp add: seg settled_def)
  qed
qed (simp add: settled_def)

end
