(* ===== verification/Log_Names.thy ===== *)
theory Log_Names
  imports Log_Scan
begin

text \<open>
  The names in the directory of the log. A name belongs to at most one kind, segment and anchor names
  determine their number, and the classification at the start of the recovery returns exactly the
  segments, the anchors and the temporaries that exist.
\<close>

section \<open>Kinds of names\<close>

definition log_name :: "string \<Rightarrow> bool" where
  "log_name name =
     (name = kLockName \<or> is_temporary_name name \<or> is_recovery_anchor_temporary_name name \<or>
      (\<exists>k. k \<noteq> 0 \<and> name = segment_name k kSegmentSuffix) \<or>
      (\<exists>k. k \<noteq> 0 \<and> name = recovery_anchor_name k kRecoveryAnchorSuffix))"

definition temporary :: "string \<Rightarrow> bool" where
  "temporary name = (is_temporary_name name \<or> is_recovery_anchor_temporary_name name)"

definition segments_among :: "string set \<Rightarrow> (u64 \<times> string) set" where
  "segments_among names = {(k, name). k \<noteq> 0 \<and> name = segment_name k kSegmentSuffix \<and> name \<in> names}"

definition anchors_among :: "string set \<Rightarrow> (u64 \<times> string) set" where
  "anchors_among names = {(k, name). k \<noteq> 0 \<and> name = recovery_anchor_name k kRecoveryAnchorSuffix \<and> name \<in> names}"

section \<open>Numbers and names\<close>

lemma padded_digits_inject [simp]: "padded_digits m = padded_digits n \<longleftrightarrow> m = n"
  using from_chars_padded [of m] from_chars_padded [of n] by (metis Pair_inject option.inject)

lemma segment_name_inject [simp]: "segment_name m s = segment_name n s \<longleftrightarrow> m = n"
  by (simp add: segment_name_def)

lemma anchor_name_inject [simp]: "recovery_anchor_name m s = recovery_anchor_name n s \<longleftrightarrow> m = n"
  by (simp add: recovery_anchor_name_def)

lemma temporary_length: "is_temporary_name name \<Longrightarrow> length name = 29"
  by (simp add: is_temporary_name_def kSegmentDigits_def)

lemma anchor_temporary_length: "is_recovery_anchor_temporary_name name \<Longrightarrow> length name = 40"
  by (auto simp: is_recovery_anchor_temporary_name_def parse_recovery_anchor_name_def kSegmentDigits_def
      split: if_splits)

lemma final_name_lengths:
  "length (segment_name n kSegmentSuffix) = 30" "length (recovery_anchor_name n kRecoveryAnchorSuffix) = 36"
  by (simp_all add: name_lengths)

lemma lock_temporary [simp]: "\<not> temporary kLockName"
  using temporary_length [of kLockName] anchor_temporary_length [of kLockName] by (auto simp: temporary_def)

lemma segment_anchor_names [simp]: "segment_name m kSegmentSuffix \<noteq> recovery_anchor_name n kRecoveryAnchorSuffix"
  by (rule notI, drule arg_cong [of _ _ length]) (simp add: final_name_lengths)

lemma names_disjoint [simp]:
  "recovery_anchor_name n kRecoveryAnchorSuffix \<noteq> segment_name m kSegmentSuffix"
  "\<not> temporary (segment_name m kSegmentSuffix)" "\<not> temporary (recovery_anchor_name m kRecoveryAnchorSuffix)"
  "segment_name m kSegmentSuffix \<noteq> kLockName" "recovery_anchor_name m kRecoveryAnchorSuffix \<noteq> kLockName"
  "kLockName \<noteq> segment_name m kSegmentSuffix" "kLockName \<noteq> recovery_anchor_name m kRecoveryAnchorSuffix"
  using segment_anchor_names [symmetric] name_kinds(4) [symmetric] name_kinds(7) [symmetric]
  by (simp_all add: temporary_def name_kinds)

lemma temporary_names [simp]:
  "temporary (segment_name n kTemporarySuffix)"
  "n \<noteq> 0 \<Longrightarrow> temporary (recovery_anchor_name n kRecoveryAnchorTemporarySuffix)"
  by (simp_all add: temporary_def name_kinds)

lemma log_name_cases:
  assumes "log_name name"
  obtains (lock) "name = kLockName" | (temporary) "temporary name"
  | (segment) k where "k \<noteq> 0" "name = segment_name k kSegmentSuffix"
  | (anchor) k where "k \<noteq> 0" "name = recovery_anchor_name k kRecoveryAnchorSuffix"
  using assms unfolding log_name_def temporary_def by blast

lemma log_name_intros [simp]:
  "log_name kLockName" "temporary name \<Longrightarrow> log_name name"
  "k \<noteq> 0 \<Longrightarrow> log_name (segment_name k kSegmentSuffix)"
  "k \<noteq> 0 \<Longrightarrow> log_name (recovery_anchor_name k kRecoveryAnchorSuffix)"
  by (auto simp: log_name_def temporary_def)

section \<open>Classification\<close>

lemma among_insert:
  "segments_among (insert (segment_name k kSegmentSuffix) names) =
     (if k = 0 then segments_among names else insert (k, segment_name k kSegmentSuffix) (segments_among names))"
  "anchors_among (insert (recovery_anchor_name k kRecoveryAnchorSuffix) names) =
     (if k = 0 then anchors_among names else insert (k, recovery_anchor_name k kRecoveryAnchorSuffix) (anchors_among names))"
  "segments_among (insert (recovery_anchor_name k kRecoveryAnchorSuffix) names) = segments_among names"
  "anchors_among (insert (segment_name k kSegmentSuffix) names) = anchors_among names"
  "temporary name \<or> name = kLockName \<Longrightarrow> segments_among (insert name names) = segments_among names"
  "temporary name \<or> name = kLockName \<Longrightarrow> anchors_among (insert name names) = anchors_among names"
  by (auto simp: segments_among_def anchors_among_def)

lemma among_names: "(k, name) \<in> segments_among names \<Longrightarrow> name \<in> names" "(k, name) \<in> anchors_among names \<Longrightarrow> name \<in> names"
  by (auto simp: segments_among_def anchors_among_def)

lemma classify_entries_names:
  assumes "\<forall>(name, t) \<in> set es. t = kRegularFile \<and> log_name name" and "distinct (map fst es)"
  obtains d where "classify_entries es = Inr d"
    "set (df_segments d) = segments_among (fst ` set es)" "distinct (df_segments d)"
    "set (df_anchors d) = anchors_among (fst ` set es)" "distinct (df_anchors d)"
    "set (df_temporaries d) = {name \<in> fst ` set es. temporary name}" "distinct (df_temporaries d)"
proof -
  have "\<exists>d. classify_entries es = Inr d \<and>
    set (df_segments d) = segments_among (fst ` set es) \<and> distinct (df_segments d) \<and>
    set (df_anchors d) = anchors_among (fst ` set es) \<and> distinct (df_anchors d) \<and>
    set (df_temporaries d) = {name \<in> fst ` set es. temporary name} \<and> distinct (df_temporaries d)"
    using assms
  proof (induction es)
    case Nil
    then show ?case by (simp add: segments_among_def anchors_among_def)
  next
    case (Cons e es)
    obtain name t where e: "e = (name, t)" by (cases e)
    then have t: "t = kRegularFile" and name: "log_name name" and fresh: "name \<notin> fst ` set es"
      using Cons.prems by auto
    obtain d where d: "classify_entries es = Inr d"
      "set (df_segments d) = segments_among (fst ` set es)" "distinct (df_segments d)"
      "set (df_anchors d) = anchors_among (fst ` set es)" "distinct (df_anchors d)"
      "set (df_temporaries d) = {name \<in> fst ` set es. temporary name}" "distinct (df_temporaries d)"
      using Cons by auto
    from name show ?case
    proof (cases rule: log_name_cases)
      case lock
      with d e t show ?thesis by (auto simp: among_insert)
    next
      case temporary
      then have "name \<noteq> kLockName" "is_temporary_name name \<or> is_recovery_anchor_temporary_name name"
        using lock_temporary by (auto simp: temporary_def)
      with d e t fresh temporary show ?thesis by (auto simp: among_insert)
    next
      case (segment k)
      with d e t fresh show ?thesis
        by (auto simp: among_insert name_kinds parse_segment_name_name dest: among_names)
    next
      case (anchor k)
      with d e t fresh show ?thesis
        by (auto simp: among_insert name_kinds parse_anchor_name_name dest: among_names)
    qed
  qed
  with that show thesis by blast
qed

section \<open>Sorted lists of files\<close>

lemma sorted_dropWhile_filter:
  assumes "sorted xs" and "\<And>x y. x \<le> y \<Longrightarrow> P y \<Longrightarrow> P x"
  shows "dropWhile P xs = filter (\<lambda>x. \<not> P x) xs" and "takeWhile P xs = filter P xs"
proof -
  show "dropWhile P xs = filter (\<lambda>x. \<not> P x) xs"
    using assms by (induction xs) (auto intro!: filter_True [symmetric])
  show "takeWhile P xs = filter P xs"
    using assms by (induction xs) (auto intro!: filter_False [symmetric])
qed

lemma segment_number_downward: "x \<le> y \<Longrightarrow> fst y < b \<Longrightarrow> fst x < b" for x y :: "u64 \<times> string"
  by (auto simp: less_eq_prod_def)

lemma word_of_nat_offset:
  fixes b :: u64
  assumes "unat b + i < 2 ^ 64"
  shows "unat (b + of_nat i) = unat b + i"
  using assms by (simp add: unat_word_ariths unat_of_nat)

lemma segment_files_set:
  assumes "b \<noteq> 0" and "unat b + n \<le> 2 ^ 64"
  shows "set (segment_files b n) =
    {(k, name). b \<le> k \<and> unat k < unat b + n \<and> name = segment_name k kSegmentSuffix}"
proof -
  have "\<exists>i\<in>{0..<n}. k = b + of_nat i" if "b \<le> k" "unat k < unat b + n" for k
  proof (intro bexI)
    show "unat k - unat b \<in> {0..<n}"
      using that by (simp add: word_le_nat_alt)
    show "k = b + of_nat (unat k - unat b)"
      using that by (simp add: word_le_nat_alt of_nat_diff)
  qed
  moreover have "b \<le> b + of_nat i" "unat (b + of_nat i) < unat b + n" if "i < n" for i
    using that assms word_of_nat_offset [of b i] by (simp_all add: word_le_nat_alt)
  ultimately show ?thesis
    by (auto simp: segment_files_def image_iff)
qed

lemma segment_files_sorted:
  assumes "unat b + n \<le> 2 ^ 64"
  shows "sorted (segment_files b n)" and "distinct (segment_files b n)"
proof -
  have "sorted_wrt (<) (segment_files b n)"
    unfolding segment_files_def sorted_wrt_map
    by (rule sorted_wrt_mono_rel [OF _ sorted_wrt_upt])
      (use assms in \<open>auto simp: less_prod_def word_less_nat_alt word_of_nat_offset\<close>)
  then show "sorted (segment_files b n)" "distinct (segment_files b n)"
    by (simp_all add: strict_sorted_iff)
qed

lemma segment_files_length [simp]: "length (segment_files b n) = n"
  by (simp add: segment_files_def)

lemma segment_files_nth: "i < n \<Longrightarrow> segment_files b n ! i = (b + of_nat i, segment_name (b + of_nat i) kSegmentSuffix)"
  by (simp add: segment_files_def)

lemma retained_segments_files:
  assumes b: "b \<noteq> 0" and n: "0 < n" "unat b + n \<le> 2 ^ 64" "n \<le> limit"
    and segs: "distinct segs" "\<And>k name. (k, name) \<in> set segs \<and> b \<le> k \<longleftrightarrow> (k, name) \<in> set (segment_files b n)"
  shows "retained_segments (sort segs) b limit = Inr (segment_files b n)"
proof -
  have "(\<lambda>(k, _). k < b) = (\<lambda>x :: u64 \<times> string. fst x < b)"
    by (simp add: fun_eq_iff)
  then have "dropWhile (\<lambda>(k, _). k < b) (sort segs) = filter (\<lambda>x. \<not> fst x < b) (sort segs)"
    using sorted_dropWhile_filter(1) [of "sort segs" "\<lambda>x. fst x < b"] segment_number_downward by simp
  also have "\<dots> = segment_files b n"
  proof (rule sorted_distinct_set_unique)
    show "sorted (filter (\<lambda>x. \<not> fst x < b) (sort segs))" "distinct (filter (\<lambda>x. \<not> fst x < b) (sort segs))"
      using segs(1) by (simp_all add: filter_sort)
    show "set (filter (\<lambda>x. \<not> fst x < b) (sort segs)) = set (segment_files b n)"
      using segs(2) [of "fst x" "snd x" for x] by (auto simp: set_eq_iff not_less)
  qed (use segment_files_sorted [OF n(2)] in simp_all)
  finally have "dropWhile (\<lambda>(k, _). k < b) (sort segs) = segment_files b n" .
  moreover have "list_all (\<lambda>(i, number, _). number = b + of_nat i) (enumerate 0 (segment_files b n))"
    by (simp add: list_all_length nth_enumerate_eq segment_files_nth)
  moreover have "hd (segment_files b n) = (b, segment_name b kSegmentSuffix)"
    using n(1) by (cases n) simp_all
  ultimately show ?thesis
    using n by (simp add: retained_segments_def Let_def)
qed

end
