(* ===== verification/Log_Open.thy ===== *)
theory Log_Open
  imports Log_Names
begin

text \<open>
  Opening a directory that holds a log. A \<open>LogView\<close> is what the directory is meant to contain: the
  first retained segment, the recovery anchor, and the records of each segment. When the directory
  holds a view that respects the limits, \<^verbatim>\<open>open_existing\<close> succeeds, whatever temporaries, older
  segments and older anchors are still around and wherever the last record was torn, and the log
  that it returns represents the view.
\<close>

section \<open>Views\<close>

record LogView =
  lv_base :: u64
  lv_before :: u64
  lv_anchor :: "RecoveryAnchor option"
  lv_segments :: "(nat \<times> GroupPersistentState list) list"

definition lv_records :: "LogView \<Rightarrow> GroupPersistentState list" where
  "lv_records v = concat (map snd (lv_segments v))"

definition lv_last :: "LogView \<Rightarrow> u64" where
  "lv_last v = last_sequence (lv_before v) (lv_records v)"

definition anchored :: "RecoveryAnchor option \<Rightarrow> u64 \<Rightarrow> u64 \<Rightarrow> GroupPersistentState list \<Rightarrow> bool" where
  "anchored anchor base before ps =
     (case anchor of
        None \<Rightarrow> base = 1 \<and> before = 0
      | Some a \<Rightarrow>
          ra_base_segment_number a = base \<and> anchor_valid a \<and> ra_checkpoint_first_sequence a = before + 1 \<and>
          ra_checkpoint_last_sequence a \<le> last_sequence before ps \<and>
          distinct (map gps_group_id (filter (in_checkpoint anchor) ps)) \<and>
          length (filter (in_checkpoint anchor) ps) = unat (ra_checkpoint_group_count a))"

definition view_valid :: "RaftPersistentLogConfig \<Rightarrow> LogView \<Rightarrow> bool" where
  "view_valid c v =
     (lv_segments v \<noteq> [] \<and> lv_base v \<noteq> 0 \<and> unat (lv_base v) + length (lv_segments v) \<le> 2 ^ 64 \<and>
      length (lv_segments v) \<le> maximum_segments c \<and>
      list_all storable (lv_records v) \<and> chained (lv_before v) (lv_records v) \<and>
      length (lv_records v) \<le> maximum_records c \<and>
      card (gps_group_id ` set (lv_records v)) \<le> lc_maximum_groups c \<and>
      (\<forall>ps \<in> snd ` set (lv_segments v). kRaftSegmentHeaderSize + length (records_bytes ps) \<le> target_segment_size c) \<and>
      anchored (lv_anchor v) (lv_base v) (lv_before v) (lv_records v))"

text \<open>The directory contains the view, and nothing that recovery would take for a part of it.\<close>

definition holds_view :: "(string \<Rightarrow> (DirectoryEntryType \<times> nat) option) \<Rightarrow> (nat \<Rightarrow> byte list) \<Rightarrow> LogView \<Rightarrow>
    byte list \<Rightarrow> bool" where
  "holds_view E C v tail =
     (E kLockName \<noteq> None \<and> (\<forall>name e. E name = Some e \<longrightarrow> fst e = kRegularFile \<and> log_name name) \<and>
      stored E C (lv_base v) (lv_before v) (lv_segments v) tail \<and>
      (\<forall>k. E (segment_name k kSegmentSuffix) \<noteq> None \<longrightarrow> unat k < unat (lv_base v) + length (lv_segments v)) \<and>
      (\<forall>k. E (recovery_anchor_name k kRecoveryAnchorSuffix) \<noteq> None \<longrightarrow> lv_anchor v \<noteq> None \<and> k \<le> lv_base v) \<and>
      (\<forall>a. lv_anchor v = Some a \<longrightarrow>
         (\<exists>fi. E (recovery_anchor_name (lv_base v) kRecoveryAnchorSuffix) = Some (kRegularFile, fi) \<and>
               C fi = anchor_block.sealed a)))"

section \<open>Logs that represent a view\<close>

fun run_counts :: "u64 \<Rightarrow> GroupPersistentState list list \<Rightarrow> (u64 \<times> nat) list" where
  "run_counts number [] = []"
| "run_counts number (ps # runs) = (number, length ps) # run_counts (number + 1) runs"

definition view_position :: "LogView \<Rightarrow> RaftPhysicalPosition" where
  "view_position v =
     \<lparr>segment_number = lv_base v + of_nat (length (lv_segments v) - 1),
      end_offset = kRaftSegmentHeaderSize + length (records_bytes (snd (last (lv_segments v)))),
      position_sequence = lv_last v\<rparr>"

definition represents :: "RaftPersistentLog \<Rightarrow> LogView \<Rightarrow> bool" where
  "represents l v =
     (log_open l \<and> log_failure l = kOk \<and> active_file l = Some (fst (last (lv_segments v))) \<and>
      written_position (recovered l) = view_position v \<and>
      segment_count (recovered l) = length (lv_segments v) \<and>
      record_count (recovered l) = length (lv_records v) \<and>
      base_segment_number (recovered l) = lv_base v \<and>
      known_groups l = gps_group_id ` set (lv_records v) \<and>
      segment_record_counts l = run_counts (lv_base v) (map snd (lv_segments v)) \<and>
      recovery_anchors l = (if lv_anchor v = None then {} else {lv_base v}))"

section \<open>The directory listing\<close>

definition classified :: "string set \<Rightarrow> DirectoryFiles \<Rightarrow> bool" where
  "classified names d =
     (set (df_segments d) = segments_among names \<and> distinct (df_segments d) \<and>
      set (df_anchors d) = anchors_among names \<and> distinct (df_anchors d) \<and>
      set (df_temporaries d) = {name \<in> names. temporary name} \<and> distinct (df_temporaries d))"

definition stale_name :: "u64 \<Rightarrow> string \<Rightarrow> bool" where
  "stale_name base name =
     (temporary name \<or> (\<exists>k. k \<noteq> 0 \<and> k < base \<and> name = segment_name k kSegmentSuffix) \<or>
      (\<exists>k. k \<noteq> 0 \<and> k \<noteq> base \<and> name = recovery_anchor_name k kRecoveryAnchorSuffix))"

text \<open>The storage that the recovery leaves behind.\<close>

definition cleaned :: "Storage \<Rightarrow> LogView \<Rightarrow> byte list \<Rightarrow> (string \<times> (DirectoryEntryType \<times> nat)) list \<Rightarrow> Storage" where
  "cleaned s v tail es =
     (let s' = settled s (lv_segments v) tail; fi = fst (last (lv_segments v))
      in s'\<lparr>entries := es, durable_contents := (durable_contents s')(fi := contents s' fi), durable_entries := es\<rparr>)"

text \<open>What the directory and the files look like afterwards.\<close>

definition tidied :: "Storage \<Rightarrow> LogView \<Rightarrow> byte list \<Rightarrow> Storage \<Rightarrow> bool" where
  "tidied s v tail s' =
     (outcomes s' = outcomes s \<and> next_inode s' = next_inode s \<and> ordered (entries s') \<and> durable_entries s' = entries s' \<and>
      (\<forall>name. map_of (entries s') name = (if stale_name (lv_base v) name then None else map_of (entries s) name)) \<and>
      contents s' = (let fi = fst (last (lv_segments v))
        in (contents s)(fi := take (length (contents s fi) - length tail) (contents s fi))) \<and>
      (durable_contents s = contents s \<longrightarrow> durable_contents s' = contents s'))"

section \<open>Counting\<close>

lemma ordered_insert_end:
  "\<forall>k' \<in> fst ` set m. k' < (k :: 'k::linorder) \<Longrightarrow> ordered_insert k v m = m @ [(k, v)]"
  by (induction k v m rule: ordered_insert.induct) auto

lemma after_segments_counts:
  assumes "unat n + length runs \<le> 2 ^ 64" and "\<forall>k \<in> fst ` set (sc_counts sc). k < n"
  shows "sc_counts (after_segments anchor n sc runs) = sc_counts sc @ run_counts n runs"
  using assms
proof (induction runs arbitrary: n sc)
  case (Cons ps runs)
  have counts: "sc_counts (after_segment anchor n sc ps) = sc_counts sc @ [(n, length ps)]"
    using Cons.prems(2) by (simp add: after_segment_def ordered_insert_end)
  show ?case
  proof (cases "runs = []")
    case True
    with counts show ?thesis by simp
  next
    case False
    then have small: "unat n + 1 < 2 ^ 64"
      using Cons.prems(1) by (cases runs) simp_all
    then have "unat (n + 1) = unat n + 1" "n < n + 1"
      using word_of_nat_offset [of n 1] by (simp_all add: word_less_nat_alt)
    moreover from this have "\<forall>k \<in> fst ` set (sc_counts (after_segment anchor n sc ps)). k < n + 1"
      using Cons.prems(2) unfolding counts by (auto intro: less_trans)
    ultimately show ?thesis
      using Cons.IH [of "n + 1" "after_segment anchor n sc ps"] Cons.prems(1) counts by simp
  qed
qed simp

lemma after_segments_records:
  "sc_latest (after_segments anchor n sc runs) = keep_latest (concat runs) (sc_latest sc)"
  "sc_last_sequence (after_segments anchor n sc runs) = last_sequence (sc_last_sequence sc) (concat runs)"
  "sc_record_count (after_segments anchor n sc runs) = sc_record_count sc + length (concat runs)"
  "sc_checkpoint_groups (after_segments anchor n sc runs) =
     sc_checkpoint_groups sc \<union> gps_group_id ` set (filter (in_checkpoint anchor) (concat runs))"
  "runs \<noteq> [] \<Longrightarrow> sc_active_end (after_segments anchor n sc runs) =
     kRaftSegmentHeaderSize + length (records_bytes (last runs))"
proof (induction runs arbitrary: n sc)
  case (Cons ps runs)
  note after = after_segment_def after_records_def
  case 1 show ?case by (simp add: Cons after)
  case 2 show ?case by (simp add: Cons)
  case 3 show ?case by (simp add: Cons after)
  case 4 show ?case by (simp add: Cons after image_Un Un_assoc)
  case 5 show ?case by (cases "runs = []") (simp_all add: Cons after)
qed simp_all

section \<open>Removing files\<close>

lemma remove_files_done:
  assumes "outcomes s = []" and "ordered (entries s)" and "distinct names"
    and "\<forall>name \<in> set names. map_of (entries s) name \<noteq> None"
  shows "remove_files s names = (kOk, s\<lparr>entries := fold ordered_erase names (entries s)\<rparr>)"
  using assms
proof (induction names arbitrary: s)
  case (Cons name names)
  let ?s = "s\<lparr>entries := ordered_erase name (entries s)\<rparr>"
  have "remove_file s name = (kOk, ?s)"
    using Cons.prems by (simp add: remove_file_def)
  moreover have "remove_files ?s names = (kOk, ?s\<lparr>entries := fold ordered_erase names (entries ?s)\<rparr>)"
    using Cons.prems by (intro Cons.IH) (auto simp: ordered_map.erase_ok ordered_map.find_erase)
  ultimately show ?case by simp
qed simp

lemma fold_erase:
  assumes "ordered m"
  shows "ordered (fold ordered_erase names m)"
    and "map_of (fold ordered_erase names m) k = (if k \<in> set names then None else map_of m k)"
  using assms by (induction names arbitrary: m) (auto simp: ordered_map.erase_ok ordered_map.find_erase)

section \<open>The newest anchor\<close>

lemma last_sort:
  assumes "x \<in> set xs" and "\<And>y. y \<in> set xs \<Longrightarrow> y \<le> (x :: 'a::linorder)"
  shows "last (sort xs) = x"
proof -
  have "sort xs \<noteq> []"
    using assms(1) by (metis empty_iff empty_set set_sort)
  then have "last (sort xs) \<in> set xs"
    using last_in_set [of "sort xs"] by simp
  moreover obtain i where "i < length (sort xs)" "sort xs ! i = x"
    using assms(1) by (metis in_set_conv_nth set_sort)
  then have "x \<le> last (sort xs)"
    using \<open>sort xs \<noteq> []\<close> sorted_nth_mono [of "sort xs" i "length (sort xs) - 1"] by (auto simp: last_conv_nth)
  ultimately show ?thesis
    using assms(2) by (meson antisym)
qed

section \<open>Stale files\<close>

lemma stale_files_names:
  assumes "classified names d"
  shows "set (stale_files d base) = {name \<in> names. stale_name base name}" and "distinct (stale_files d base)"
proof -
  have d: "set (df_segments d) = segments_among names" "distinct (df_segments d)"
    "set (df_anchors d) = anchors_among names" "distinct (df_anchors d)"
    "set (df_temporaries d) = {name \<in> names. temporary name}" "distinct (df_temporaries d)"
    using assms by (simp_all add: classified_def)
  have below: "takeWhile (\<lambda>(k, _). k < base) (sort (df_segments d)) = filter (\<lambda>x. fst x < base) (sort (df_segments d))"
    using sorted_dropWhile_filter(2) [of "sort (df_segments d)" "\<lambda>x. fst x < base"] segment_number_downward
    by (simp add: case_prod_unfold)
  have segs: "set (map snd (filter (\<lambda>x. fst x < base) (sort (df_segments d)))) =
      {name \<in> names. \<exists>k. k \<noteq> 0 \<and> k < base \<and> name = segment_name k kSegmentSuffix}"
    by (force simp: d segments_among_def)
  have anchors: "set (map snd (filter (\<lambda>(k, _). k \<noteq> base) (sort (df_anchors d)))) =
      {name \<in> names. \<exists>k. k \<noteq> 0 \<and> k \<noteq> base \<and> name = recovery_anchor_name k kRecoveryAnchorSuffix}"
    by (force simp: d anchors_among_def)
  show "set (stale_files d base) = {name \<in> names. stale_name base name}"
    unfolding stale_files_def below set_append segs anchors d(5) by (auto simp: stale_name_def)
  have "distinct (map snd (filter P (sort (df_segments d))))" for P
    by (rule distinct_map [THEN iffD2]) (auto simp: d segments_among_def inj_on_def)
  moreover have "distinct (map snd (filter P (sort (df_anchors d))))" for P
    by (rule distinct_map [THEN iffD2]) (auto simp: d anchors_among_def inj_on_def)
  ultimately show "distinct (stale_files d base)"
    unfolding stale_files_def below distinct_append set_append segs anchors d(5) using d(6) by auto
qed

section \<open>The parts of the recovery\<close>

lemma read_anchor_view:
  assumes s: "outcomes s = []" and d: "classified names d" and names: "names = dom (map_of (entries s))"
    and v: "view_valid c v" "holds_view (map_of (entries s)) (contents s) v tail"
  shows "read_anchor s (sort (df_anchors d)) = (Inr (lv_anchor v), s)"
proof (cases "lv_anchor v")
  case None
  then have "set (df_anchors d) = {}"
    using d v(2) names by (auto simp: classified_def anchors_among_def holds_view_def)
  with None show ?thesis by (simp add: read_anchor_def)
next
  case (Some a)
  let ?name = "recovery_anchor_name (lv_base v) kRecoveryAnchorSuffix"
  have base: "lv_base v \<noteq> 0" and a: "ra_base_segment_number a = lv_base v" "anchor_valid a"
    using v(1) Some by (simp_all add: view_valid_def anchored_def)
  obtain fi where fi: "map_of (entries s) ?name = Some (kRegularFile, fi)" "contents s fi = anchor_block.sealed a"
    using v(2) Some by (auto simp: holds_view_def)
  have anchors: "set (df_anchors d) = anchors_among names"
    using d by (simp add: classified_def)
  have "last (sort (df_anchors d)) = (lv_base v, ?name)"
  proof (rule last_sort)
    show "(lv_base v, ?name) \<in> set (df_anchors d)"
      using base fi(1) names by (auto simp: anchors anchors_among_def)
    show "y \<le> (lv_base v, ?name)" if "y \<in> set (df_anchors d)" for y
      using that v(2) names by (force simp: anchors anchors_among_def holds_view_def less_eq_prod_def)
  qed
  moreover have "sort (df_anchors d) \<noteq> []"
    using base fi(1) names anchors by (metis (mono_tags, lifting) anchors_among_def case_prodI domI emptyE empty_set
        mem_Collect_eq set_sort)
  moreover have "decode_recovery_anchor (anchor_block.sealed a) (lv_base v) = Inr a"
    using decode_recovery_anchor_sealed [OF a(2)] a(1) by simp
  ultimately show ?thesis
    using s fi Some by (simp add: read_anchor_def open_regular_file_def file_size_def read_file_done
        kRecoveryAnchorSize_def)
qed

lemma retained_view:
  assumes d: "classified names d" and names: "names = dom E" and v: "view_valid c v" "holds_view E C v tail"
  shows "retained_segments (sort (df_segments d)) (lv_base v) (maximum_segments c) =
    Inr (segment_files (lv_base v) (length (lv_segments v)))"
proof (rule retained_segments_files)
  have present: "E (segment_name k kSegmentSuffix) \<noteq> None"
    if "stored E C n before segs tail" "n \<le> k" "unat k < unat n + length segs" "unat n + length segs \<le> 2 ^ 64"
    for k n before segs
    using that
  proof (induction segs arbitrary: n before)
    case (Cons seg segs)
    then show ?case
    proof (cases "k = n")
      case False
      then have lt: "n < k" using Cons.prems(2) by simp
      then have "unat n + 1 < 2 ^ 64"
        using unat_bound [of k] by (simp add: word_less_nat_alt)
      then have "unat (n + 1) = unat n + 1"
        using word_of_nat_offset [of n 1] by simp
      with Cons lt show ?thesis
        by (cases seg) (auto simp: word_less_nat_alt word_le_nat_alt)
    qed (cases seg, simp)
  qed (simp add: word_le_nat_alt)
  fix k name
  have "E (segment_name k kSegmentSuffix) \<noteq> None \<longleftrightarrow> unat k < unat (lv_base v) + length (lv_segments v)" if "lv_base v \<le> k"
    using that present [of "lv_base v" "lv_before v" "lv_segments v" k] v by (auto simp: holds_view_def view_valid_def)
  moreover have "k \<noteq> 0" if "lv_base v \<le> k"
    using that v(1) by (auto simp: view_valid_def)
  ultimately show "(k, name) \<in> set (df_segments d) \<and> lv_base v \<le> k \<longleftrightarrow>
      (k, name) \<in> set (segment_files (lv_base v) (length (lv_segments v)))"
    using d names v(1) by (auto simp: classified_def segments_among_def segment_files_set view_valid_def domIff)
qed (use d v(1) in \<open>auto simp: classified_def view_valid_def\<close>)

lemma stored_lengths:
  assumes "stored E C n before segs tail" and "segs \<noteq> []"
    and "\<forall>ps \<in> snd ` set segs. kRaftSegmentHeaderSize + length (records_bytes ps) \<le> m"
    and "kRaftSegmentHeaderSize + length (records_bytes (snd (last segs))) + length tail \<le> m"
  shows "\<forall>fi \<in> fst ` set segs. length (C fi) \<le> m"
  using assms
proof (induction segs arbitrary: n before)
  case (Cons seg segs)
  then show ?case by (cases seg; cases "segs = []") auto
qed simp

lemma stored_append:
  "stored E C n before (xs @ ys) tail \<longleftrightarrow>
   stored E C n before xs (if ys = [] then tail else []) \<and>
   stored E C (n + of_nat (length xs)) (last_sequence before (concat (map snd xs))) ys tail"
proof (induction xs arbitrary: n before)
  case (Cons x xs)
  then show ?case by (cases x; cases "ys = []") (auto simp: add.assoc)
qed simp

lemma stored_snoc:
  assumes "stored E C n before segs tail" and "segs \<noteq> []"
  shows "E (segment_name (n + of_nat (length segs - 1)) kSegmentSuffix) = Some (kRegularFile, fst (last segs))"
    and "C (fst (last segs)) = segment_bytes (n + of_nat (length segs - 1))
      (last_sequence before (concat (map snd (butlast segs))) + 1) (snd (last segs)) @ tail"
    and "last_sequence before (concat (map snd (butlast segs))) \<noteq> - 1"
    and "stored E C n before (butlast segs) []"
proof -
  have "segs = butlast segs @ [(fst (last segs), snd (last segs))]"
    using assms(2) by simp
  then have "stored E C n before (butlast segs @ [(fst (last segs), snd (last segs))]) tail"
    using assms(1) by metis
  then show "E (segment_name (n + of_nat (length segs - 1)) kSegmentSuffix) = Some (kRegularFile, fst (last segs))"
    "C (fst (last segs)) = segment_bytes (n + of_nat (length segs - 1))
      (last_sequence before (concat (map snd (butlast segs))) + 1) (snd (last segs)) @ tail"
    "last_sequence before (concat (map snd (butlast segs))) \<noteq> - 1" "stored E C n before (butlast segs) []"
    by (simp_all add: stored_append del: prod.collapse)
qed

lemma initial_scan_view:
  assumes "view_valid c v"
  shows "sc_last_sequence (initial_scan (lv_anchor v)) = lv_before v"
    and "acceptable c (lv_anchor v) (initial_scan (lv_anchor v)) (lv_records v)"
proof -
  show before: "sc_last_sequence (initial_scan (lv_anchor v)) = lv_before v"
    using assms by (auto simp: view_valid_def anchored_def initial_scan_def split: option.splits)
  have "length (keep_latest (lv_records v) []) = card (gps_group_id ` set (lv_records v))"
    by (simp add: keep_latest_length ordered_def)
  moreover have "distinct (map gps_group_id (filter (in_checkpoint (lv_anchor v)) (lv_records v)))"
    using assms by (cases "lv_anchor v") (simp_all add: view_valid_def anchored_def in_checkpoint_def [of None])
  moreover have "sc_latest (initial_scan (lv_anchor v)) = []" "sc_record_count (initial_scan (lv_anchor v)) = 0"
    "sc_checkpoint_groups (initial_scan (lv_anchor v)) = {}"
    by (simp_all add: initial_scan_def)
  ultimately show "acceptable c (lv_anchor v) (initial_scan (lv_anchor v)) (lv_records v)"
    unfolding acceptable_def before using assms by (simp add: view_valid_def ordered_def)
qed

lemma checkpoint_count:
  assumes "view_valid c v" and "lv_anchor v = Some a"
  shows "card (gps_group_id ` set (filter (in_checkpoint (Some a)) (lv_records v))) = unat (ra_checkpoint_group_count a)"
    and "unat (ra_checkpoint_group_count a) \<le> lc_maximum_groups c"
proof -
  have "distinct (map gps_group_id (filter (in_checkpoint (Some a)) (lv_records v)))"
    and count: "length (filter (in_checkpoint (Some a)) (lv_records v)) = unat (ra_checkpoint_group_count a)"
    using assms by (simp_all add: view_valid_def anchored_def)
  then show card: "card (gps_group_id ` set (filter (in_checkpoint (Some a)) (lv_records v))) =
      unat (ra_checkpoint_group_count a)"
    using distinct_card by fastforce
  have "card (gps_group_id ` set (filter (in_checkpoint (Some a)) (lv_records v))) \<le>
      card (gps_group_id ` set (lv_records v))"
    by (rule card_mono) auto
  with card assms(1) show "unat (ra_checkpoint_group_count a) \<le> lc_maximum_groups c"
    by (simp add: view_valid_def)
qed

section \<open>Opening\<close>

lemma settled_simps [simp]:
  "outcomes (settled s segs tail) = outcomes s" "entries (settled s segs tail) = entries s"
  "next_inode (settled s segs tail) = next_inode s" "(settled s segs tail)\<lparr>entries := entries s\<rparr> = settled s segs tail"
  by (simp_all add: settled_def repaired_def)

lemma finish_open_view:
  assumes s: "outcomes s = []" "ordered (entries s)"
    and d: "classified names d" "names = dom (map_of (entries s))"
    and v: "view_valid c v" "holds_view (map_of (entries s)) (contents s) v tail"
  shows "finish_open c (settled s (lv_segments v) tail) d (lv_anchor v) (lv_base v)
      (segment_files (lv_base v) (length (lv_segments v))) sc =
    (let s' = cleaned s v tail (fold ordered_erase (stale_files d (lv_base v)) (entries s))
     in (Inr (recovered_log c s' (fst (last (lv_segments v))) (lv_anchor v) (lv_base v)
          (segment_files (lv_base v) (length (lv_segments v))) sc), s'))"
proof -
  let ?stale = "stale_files d (lv_base v)" and ?n = "length (lv_segments v)"
  let ?es = "fold ordered_erase ?stale (entries s)"
  let ?top = "segment_name (lv_base v + of_nat (?n - 1)) kSegmentSuffix"
  have segs: "lv_segments v \<noteq> []" "unat (lv_base v) + ?n \<le> 2 ^ 64" "lv_base v \<noteq> 0"
    using v(1) by (simp_all add: view_valid_def)
  then have "snd (last (segment_files (lv_base v) ?n)) = ?top"
    by (simp add: last_conv_nth segment_files_nth)
  moreover have removed: "remove_files (settled s (lv_segments v) tail) ?stale =
      (kOk, (settled s (lv_segments v) tail)\<lparr>entries := ?es\<rparr>)"
    using stale_files_names [OF d(1), of "lv_base v"] s d(2) by (subst remove_files_done) auto
  moreover have "lv_base v \<le> lv_base v + of_nat (?n - 1)"
    using segs word_of_nat_offset [of "lv_base v" "?n - 1"] by (cases "lv_segments v") (simp_all add: word_le_nat_alt)
  then have "\<not> stale_name (lv_base v) ?top"
    by (auto simp: stale_name_def)
  then have "map_of ?es ?top = Some (kRegularFile, fst (last (lv_segments v)))"
    using stored_snoc(1) [OF _ segs(1), of "map_of (entries s)" "contents s" "lv_base v" "lv_before v" tail] v(2)
    by (simp add: fold_erase(2) [OF s(2)] stale_files_names(1) [OF d(1)] holds_view_def)
  moreover define stale where "stale = ?stale"
  ultimately show ?thesis
    unfolding stale_def [symmetric] using s
    by (cases "stale = []") (simp_all add: finish_open_def Let_def open_regular_file_def sync_file_def
        sync_directory_def is_ok_def cleaned_def stale_def [symmetric])
qed

lemma open_classified_view:
  assumes s: "outcomes s = []" "ordered (entries s)" and c: "validate_config c = kOk"
    and d: "classified names d" "names = dom (map_of (entries s))"
    and v: "view_valid c v" "holds_view (map_of (entries s)) (contents s) v tail" and tail: "torn tail"
    and size: "kRaftSegmentHeaderSize + length (records_bytes (snd (last (lv_segments v)))) + length tail
      \<le> kMaximumRaftSegmentSize"
  shows "open_classified c True s d =
    (let s' = cleaned s v tail (fold ordered_erase (stale_files d (lv_base v)) (entries s))
     in (Inr (recovered_log c s' (fst (last (lv_segments v))) (lv_anchor v) (lv_base v)
          (segment_files (lv_base v) (length (lv_segments v)))
          ((after_segments (lv_anchor v) (lv_base v) (initial_scan (lv_anchor v)) (map snd (lv_segments v)))
             \<lparr>sc_repaired_bytes := length tail\<rparr>)), s'))"
proof -
  let ?a = "lv_anchor v" and ?segs = "lv_segments v"
  let ?sc = "(after_segments ?a (lv_base v) (initial_scan ?a) (map snd ?segs))\<lparr>sc_repaired_bytes := length tail\<rparr>"
  note init = initial_scan_view [OF v(1)]
  have segs: "?segs \<noteq> []" and st: "stored (map_of (entries s)) (contents s) (lv_base v) (lv_before v) ?segs tail"
    and anchored: "anchored ?a (lv_base v) (lv_before v) (lv_records v)"
    using v by (simp_all add: view_valid_def holds_view_def)
  have target: "target_segment_size c \<le> kMaximumRaftSegmentSize"
    using c by (auto simp: validate_config_def split: if_splits)
  have "\<forall>fi \<in> fst ` set ?segs. length (contents s fi) \<le> kMaximumRaftSegmentSize"
    by (rule stored_lengths [OF st segs _ size]) (use v(1) target in \<open>force simp: view_valid_def\<close>)
  then have scan: "scan_segments c ?a True s (segment_files (lv_base v) (length ?segs)) (initial_scan ?a) =
      (Inr ?sc, settled s ?segs tail)"
    using scan_segments_stored [OF s(1) tail, of "lv_base v" "initial_scan ?a" ?segs c ?a] st segs init v(1) anchored
    by (auto simp: view_valid_def lv_records_def anchored_def initial_scan_def split: option.splits)
  have complete: "checkpoint_complete ?a ?sc"
    using anchored checkpoint_count(1) [OF v(1)]
    by (auto simp: checkpoint_complete_def after_segments_records init(1) anchored_def lv_records_def
        initial_scan_def split: option.splits)
  have few: "\<not> (case ?a of None \<Rightarrow> False | Some a \<Rightarrow> lc_maximum_groups c < unat (ra_checkpoint_group_count a))"
    using checkpoint_count(2) [OF v(1)] by (auto simp: not_less split: option.splits)
  have base: "(case ?a of None \<Rightarrow> 1 | Some a \<Rightarrow> ra_base_segment_number a) = lv_base v"
    using anchored by (auto simp: anchored_def split: option.splits)
  have "df_segments d \<noteq> []"
    using retained_view [OF d v] segs by (auto simp: retained_segments_def split: if_splits)
  then show ?thesis
    using read_anchor_view [OF s(1) d v] retained_view [OF d v] scan complete few base
      finish_open_view [OF s d v, of ?sc]
    by (simp add: open_classified_def Let_def)
qed

lemma cleaned_tidied:
  assumes "ordered (entries s)" and d: "classified names d" "names = dom (map_of (entries s))"
    and v: "view_valid c v" "holds_view (map_of (entries s)) (contents s) v tail"
  shows "tidied s v tail (cleaned s v tail (fold ordered_erase (stale_files d (lv_base v)) (entries s)))"
proof -
  let ?fi = "fst (last (lv_segments v))"
  have segs: "lv_segments v \<noteq> []"
    and st: "stored (map_of (entries s)) (contents s) (lv_base v) (lv_before v) (lv_segments v) tail"
    using v by (simp_all add: view_valid_def holds_view_def)
  have "length (contents s ?fi) - length tail =
      kRaftSegmentHeaderSize + length (records_bytes (snd (last (lv_segments v))))"
    using stored_snoc(2) [OF st segs] by simp
  then have C: "contents (settled s (lv_segments v) tail) =
      (contents s)(?fi := take (length (contents s ?fi) - length tail) (contents s ?fi))"
    using segs by (cases "tail = []") (simp_all add: settled_def repaired_def)
  have "durable_contents (settled s (lv_segments v) tail) = contents (settled s (lv_segments v) tail)"
    if "durable_contents s = contents s"
    using that by (simp add: settled_def repaired_def)
  moreover have "map_of (fold ordered_erase (stale_files d (lv_base v)) (entries s)) name =
      (if stale_name (lv_base v) name then None else map_of (entries s) name)" for name
    using d(2) by (cases "map_of (entries s) name")
      (auto simp: fold_erase(2) [OF assms(1)] stale_files_names(1) [OF d(1)])
  ultimately show ?thesis
    using C fold_erase(1) [OF assms(1)] by (auto simp: tidied_def cleaned_def Let_def)
qed

lemma recovered_log_represents:
  assumes v: "view_valid c v"
    and sc: "sc = (after_segments (lv_anchor v) (lv_base v) (initial_scan (lv_anchor v)) (map snd (lv_segments v)))
      \<lparr>sc_repaired_bytes := n\<rparr>"
    and l: "l = recovered_log c s (fst (last (lv_segments v))) (lv_anchor v) (lv_base v)
      (segment_files (lv_base v) (length (lv_segments v))) sc"
  shows "represents l v" and "latest_group_states (recovered l) = map snd (keep_latest (lv_records v) [])"
    and "durable_physical_sequence (recovered l) = lv_last v" and "repaired_bytes (recovered l) = n"
proof -
  have segs: "lv_segments v \<noteq> []" "unat (lv_base v) + length (lv_segments v) \<le> 2 ^ 64"
    using v by (simp_all add: view_valid_def)
  have "sc_counts sc = run_counts (lv_base v) (map snd (lv_segments v))"
    using after_segments_counts [of "lv_base v" "map snd (lv_segments v)" "initial_scan (lv_anchor v)"] segs
    by (simp add: sc initial_scan_def)
  moreover have latest: "sc_latest sc = keep_latest (lv_records v) []"
    by (simp add: sc after_segments_records initial_scan_def lv_records_def)
  moreover have "gps_group_id ` set (map snd (keep_latest (lv_records v) [])) = gps_group_id ` set (lv_records v)"
  proof -
    have o: "ordered (keep_latest (lv_records v) [])"
      by (rule keep_latest_ordered) (simp add: ordered_def)
    have "gps_group_id p = g" if "(g, p) \<in> set (keep_latest (lv_records v) [])" for g p
      using that ordered_map_of [OF o, of g p] keep_latest_find [of "[]" "lv_records v" g]
      by (auto simp: ordered_def find_Some_iff split: option.splits)
    then have "gps_group_id ` snd ` set (keep_latest (lv_records v) []) = fst ` set (keep_latest (lv_records v) [])"
      by (force simp: image_image)
    then show ?thesis by (simp add: keep_latest_keys)
  qed
  moreover have "fst (last (segment_files (lv_base v) (length (lv_segments v)))) =
      lv_base v + of_nat (length (lv_segments v) - 1)"
    using segs by (simp add: last_conv_nth segment_files_nth)
  moreover have "sc_last_sequence sc = lv_last v" "sc_record_count sc = length (lv_records v)"
    "sc_active_end sc = kRaftSegmentHeaderSize + length (records_bytes (snd (last (lv_segments v))))"
    using segs initial_scan_view(1) [OF v]
    by (simp_all add: sc after_segments_records lv_last_def lv_records_def last_map initial_scan_def)
  moreover have "(case lv_anchor v of None \<Rightarrow> {} | Some a \<Rightarrow> {ra_base_segment_number a}) =
      (if lv_anchor v = None then {} else {lv_base v})"
    using v by (auto simp: view_valid_def anchored_def split: option.splits)
  ultimately show "represents l v"
    by (simp add: l represents_def recovered_log_def view_position_def)
  show "latest_group_states (recovered l) = map snd (keep_latest (lv_records v) [])"
    "durable_physical_sequence (recovered l) = lv_last v" "repaired_bytes (recovered l) = n"
    using latest \<open>sc_last_sequence sc = lv_last v\<close> by (simp_all add: l recovered_log_def) (simp add: sc)
qed

lemma open_existing_view:
  assumes s: "outcomes s = []" "ordered (entries s)" and c: "validate_config c = kOk"
    and v: "view_valid c v" "holds_view (map_of (entries s)) (contents s) v tail" and tail: "torn tail"
    and size: "kRaftSegmentHeaderSize + length (records_bytes (snd (last (lv_segments v)))) + length tail
      \<le> kMaximumRaftSegmentSize"
  obtains l where "open_existing_log c True s = (Inr l, log_storage l)" and "represents l v" and "log_config l = c"
    and "latest_group_states (recovered l) = map snd (keep_latest (lv_records v) [])"
    and "durable_physical_sequence (recovered l) = lv_last v" and "repaired_bytes (recovered l) = length tail"
    and "tidied s v tail (log_storage l)"
proof -
  let ?E = "map_of (entries s)"
  define es where "es = map (\<lambda>(name, t, _). (name, t)) (entries s)"
  have fsts: "map fst es = map fst (entries s)" "fst ` set es = dom ?E"
    by (simp_all add: es_def comp_def case_prod_beta dom_map_of_conv_image_fst image_image)
  have regular: "fst e = kRegularFile \<and> log_name name" if "?E name = Some e" for name e
    using v(2) that unfolding holds_view_def by blast
  have listing: "t = kRegularFile \<and> log_name name" if listed: "(name, t) \<in> set es" for name t
  proof -
    obtain e where e: "e \<in> set (entries s)" "(name, t) = (case e of (name, t, _) \<Rightarrow> (name, t))"
      using listed unfolding es_def set_map by (elim imageE)
    have "e = (name, t, snd (snd e))"
      using e(2) by (simp add: case_prod_beta prod_eq_iff)
    then have "?E name = Some (t, snd (snd e))"
      using e(1) ordered_map_of [OF s(2), of name "(t, snd (snd e))"] by metis
    then show ?thesis using regular by force
  qed
  have "distinct (map fst es)"
    using s(2) unfolding fsts by (simp add: ordered_def strict_sorted_iff)
  then obtain d where classify: "classify_entries es = Inr d" and d: "classified (dom ?E) d"
    by (rule classify_entries_names [rotated]) (use listing fsts(2) in \<open>auto simp: classified_def\<close>)
  have lock: "(\<exists>fi. ?E kLockName = Some (kRegularFile, fi))"
    using v(2) regular [of kLockName] by (cases "?E kLockName") (auto simp: holds_view_def)
  define l where "l = recovered_log c (cleaned s v tail (fold ordered_erase (stale_files d (lv_base v)) (entries s)))
      (fst (last (lv_segments v))) (lv_anchor v) (lv_base v) (segment_files (lv_base v) (length (lv_segments v)))
      ((after_segments (lv_anchor v) (lv_base v) (initial_scan (lv_anchor v)) (map snd (lv_segments v)))
             \<lparr>sc_repaired_bytes := length tail\<rparr>)"
  have "log_storage l = cleaned s v tail (fold ordered_erase (stale_files d (lv_base v)) (entries s))"
    by (simp add: l_def recovered_log_def)
  then have "open_classified c True s d = (Inr l, log_storage l)"
    using open_classified_view [OF s c d refl v tail size] unfolding Let_def l_def [symmetric] by metis
  then have "open_existing_log c True s = (Inr l, log_storage l)"
    using s c lock classify
    by (auto simp: open_existing_log_def open_directory_def acquire_existing_exclusive_lock_def list_entries_def
        io_code_def is_ok_def es_def [symmetric])
  moreover have "log_config l = c"
    by (simp add: l_def recovered_log_def)
  moreover have "tidied s v tail (log_storage l)"
    using cleaned_tidied [OF s(2) d refl v] by (simp add: l_def recovered_log_def)
  ultimately show thesis
    using that recovered_log_represents [OF v(1) refl l_def] by blast
qed

end
