(* ===== verification/Log_Disk.thy ===== *)
theory Log_Disk
  imports Log_Open "HOL-Library.Sublist"
begin

text \<open>
  Crashes. After a crash every name of the directory is as it was last synchronized or as it was at
  the time of the crash, and every file holds what was last synchronized and possibly more of what
  had been written. The invariant \<open>disk\<close> relates the storage of a running log to the view that it
  stands for, also between the steps that publish a new segment or a new anchor; whatever survives a
  crash of such a storage is a directory that the recovery opens, with every record up to the durable
  sequence.
\<close>

section \<open>Crashes\<close>

definition crash :: "Storage \<Rightarrow> Storage \<Rightarrow> bool" where
  "crash s s' =
     (ordered (entries s') \<and> durable_entries s' = entries s' \<and> durable_contents s' = contents s' \<and>
      next_inode s' = next_inode s \<and>
      (\<forall>name. map_of (entries s') name \<in> {map_of (entries s) name, map_of (durable_entries s) name}) \<and>
      (\<forall>fi. prefix (durable_contents s fi) (contents s' fi) \<and> prefix (contents s' fi) (contents s fi) \<or>
            prefix (contents s fi) (contents s' fi) \<and> prefix (contents s' fi) (durable_contents s fi)))"

section \<open>Parts of a view\<close>

definition lv_file :: "LogView \<Rightarrow> nat" where
  "lv_file v = fst (last (lv_segments v))"

definition lv_active :: "LogView \<Rightarrow> GroupPersistentState list" where
  "lv_active v = snd (last (lv_segments v))"

definition lv_closed :: "LogView \<Rightarrow> GroupPersistentState list" where
  "lv_closed v = concat (map snd (butlast (lv_segments v)))"

definition lv_top :: "LogView \<Rightarrow> u64" where
  "lv_top v = lv_base v + of_nat (length (lv_segments v) - 1)"

definition lv_first :: "LogView \<Rightarrow> u64" where
  "lv_first v = last_sequence (lv_before v) (lv_closed v) + 1"

definition set_active :: "GroupPersistentState list \<Rightarrow> LogView \<Rightarrow> LogView" where
  "set_active ps v = v\<lparr>lv_segments := butlast (lv_segments v) @ [(lv_file v, ps)]\<rparr>"

definition durable_part :: "u64 \<Rightarrow> GroupPersistentState list \<Rightarrow> GroupPersistentState list" where
  "durable_part q ps = takeWhile (\<lambda>p. gps_physical_sequence p \<le> q) ps"

section \<open>The invariant\<close>

definition held :: "RaftPersistentLogConfig \<Rightarrow> (string \<Rightarrow> (DirectoryEntryType \<times> nat) option) \<Rightarrow> Storage \<Rightarrow> u64 \<Rightarrow>
    LogView \<Rightarrow> byte list \<Rightarrow> bool" where
  "held c E s q v tail =
     (view_valid c v \<and> holds_view E (contents s) v tail \<and> torn tail \<and> distinct (map fst (lv_segments v)) \<and>
      (\<forall>fi \<in> fst ` set (butlast (lv_segments v)). durable_contents s fi = contents s fi) \<and>
      prefix (segment_bytes (lv_top v) (lv_first v) (durable_part q (lv_active v))) (durable_contents s (lv_file v)) \<and>
      prefix (durable_contents s (lv_file v)) (contents s (lv_file v)) \<and>
      anchored (lv_anchor v) (lv_base v) (lv_before v) (lv_closed v @ durable_part q (lv_active v)) \<and>
      kRaftSegmentHeaderSize + length (records_bytes (lv_active v)) + length tail \<le> target_segment_size c \<and>
      (\<forall>t fi. lv_anchor v \<noteq> None \<and> E (recovery_anchor_name (lv_base v) kRecoveryAnchorSuffix) = Some (t, fi) \<longrightarrow>
         durable_contents s fi = contents s fi \<and> fi \<notin> fst ` set (lv_segments v)))"

text \<open>The directory and its synchronized state agree, or differ by one name that is being published.\<close>

definition publishing :: "(string \<Rightarrow> (DirectoryEntryType \<times> nat) option) \<Rightarrow> (string \<Rightarrow> (DirectoryEntryType \<times> nat) option) \<Rightarrow>
    bool" where
  "publishing E D =
     (\<exists>published. \<not> temporary published \<and> D published = None \<and>
        (\<forall>name. name \<noteq> published \<and> \<not> temporary name \<longrightarrow> E name = D name))"

definition disk :: "RaftPersistentLogConfig \<Rightarrow> Storage \<Rightarrow> u64 \<Rightarrow> LogView \<Rightarrow> LogView \<Rightarrow> byte list \<Rightarrow> bool" where
  "disk c s q v v' tail =
     (ordered (entries s) \<and> ordered (durable_entries s) \<and>
      (\<forall>name t fi. map_of (entries s) name = Some (t, fi) \<or> map_of (durable_entries s) name = Some (t, fi) \<longrightarrow>
         fi < next_inode s) \<and>
      held c (map_of (entries s)) s q v tail \<and> held c (map_of (durable_entries s)) s q v' tail \<and>
      (v = v' \<or> publishing (map_of (entries s)) (map_of (durable_entries s))))"

section \<open>Chains increase\<close>

lemma chained_above:
  "chained before ps \<Longrightarrow> p \<in> set ps \<Longrightarrow> before < gps_physical_sequence p"
proof (induction ps arbitrary: before)
  case (Cons a ps)
  then have "before < gps_physical_sequence a"
    by (simp add: word_less_Suc)
  with Cons show ?case by force
qed simp

lemma chained_last: "chained before ps \<Longrightarrow> before \<le> last_sequence before ps"
proof (induction ps arbitrary: before)
  case (Cons a ps)
  then have "before < gps_physical_sequence a"
    by (simp add: word_less_Suc)
  with Cons.IH [of "gps_physical_sequence a"] Cons.prems show ?case by force
qed simp

lemma anchored_extend:
  assumes "anchored anchor base before ps" and chain: "chained before (ps @ qs)"
  shows "anchored anchor base before (ps @ qs)"
proof (cases anchor)
  case (Some a)
  have "ra_checkpoint_last_sequence a \<le> last_sequence before ps"
    using assms(1) Some by (simp add: anchored_def)
  moreover have "last_sequence before ps < gps_physical_sequence p" if "p \<in> set qs" for p
    using chain that by (auto intro: chained_above)
  ultimately have "filter (in_checkpoint anchor) qs = []"
    using Some by (force simp: filter_empty_conv in_checkpoint_def)
  moreover have "last_sequence before ps \<le> last_sequence before (ps @ qs)"
    using chain chained_last by simp
  ultimately show ?thesis
    using assms(1) Some by (auto simp: anchored_def)
qed (use assms(1) in \<open>simp add: anchored_def\<close>)

section \<open>Prefixes of records\<close>

lemma torn_take: "torn tail \<Longrightarrow> torn (take k tail)"
  unfolding torn_def by (metis min.strict_coboundedI2 take_Nil take_take)

lemma prefix_take: "prefix x y \<Longrightarrow> x = take (length x) y"
  by (metis append_eq_conv_conj prefix_def)

lemma prefix_append_cases:
  assumes "prefix x (r @ y)"
  obtains (inside) "length x < length r" "x = take (length x) r"
  | (beyond) x' where "x = r @ x'" "prefix x' y"
proof (cases "length x < length r")
  case True
  with inside prefix_take [OF assms] show ?thesis by simp
next
  case False
  with beyond [of "drop (length r) x"] assms show ?thesis
    by (metis append_prefixD linorder_not_less prefix_append prefix_length_prefix prefix_order.dual_order.refl
        same_prefix_prefix append_take_drop_id prefix_take take_is_prefix)
qed

lemma prefix_of_records:
  assumes "prefix x (records_bytes ps @ tail)" and "list_all storable ps" and "torn tail"
    and "prefix (records_bytes (take j ps)) x"
  shows "\<exists>m t. x = records_bytes (take m ps) @ t \<and> torn t \<and> min j (length ps) \<le> m \<and> m \<le> length ps"
  using assms
proof (induction ps arbitrary: x j)
  case Nil
  then have "x = take (length x) tail"
    by (simp add: prefix_take)
  then have "torn x"
    using Nil.prems(3) torn_take by metis
  then show ?case by simp
next
  case (Cons p ps)
  have p: "storable p" using Cons.prems(2) by simp
  have "prefix x (record_bytes p @ (records_bytes ps @ tail))"
    using Cons.prems(1) by simp
  then show ?case
  proof (cases rule: prefix_append_cases)
    case inside
    then have "torn x"
      using p unfolding torn_def by blast
    moreover have "j = 0"
      using Cons.prems(4) inside(1) by (cases j) (auto dest!: prefix_length_le)
    ultimately show ?thesis by (intro exI [of _ 0]) simp
  next
    case (beyond x')
    have "prefix (records_bytes (take (j - 1) ps)) x'"
      using Cons.prems(4) beyond(1) by (cases j) simp_all
    from Cons.IH [OF beyond(2) _ Cons.prems(3) this] Cons.prems(2) obtain m t where
        "x' = records_bytes (take m ps) @ t" "torn t" "min (j - 1) (length ps) \<le> m" "m \<le> length ps"
      by auto
    with beyond(1) show ?thesis
      by (intro exI [of _ "Suc m"] exI [of _ t]) auto
  qed
qed

section \<open>Parts of a view\<close>

lemma lv_split:
  assumes "lv_segments v \<noteq> []"
  shows "lv_segments v = butlast (lv_segments v) @ [(lv_file v, lv_active v)]"
    and "lv_records v = lv_closed v @ lv_active v"
proof -
  show split: "lv_segments v = butlast (lv_segments v) @ [(lv_file v, lv_active v)]"
    using assms by (simp add: lv_file_def lv_active_def)
  have "concat (map snd (lv_segments v)) = concat (map snd (butlast (lv_segments v) @ [(lv_file v, lv_active v)]))"
    using split by simp
  then show "lv_records v = lv_closed v @ lv_active v"
    by (simp add: lv_records_def lv_closed_def)
qed

lemma set_active_simps [simp]:
  "lv_base (set_active ps v) = lv_base v" "lv_before (set_active ps v) = lv_before v"
  "lv_anchor (set_active ps v) = lv_anchor v" "lv_closed (set_active ps v) = lv_closed v"
  "lv_file (set_active ps v) = lv_file v" "lv_active (set_active ps v) = ps"
  "lv_first (set_active ps v) = lv_first v" "lv_segments (set_active ps v) \<noteq> []"
  "lv_records (set_active ps v) = lv_closed v @ ps" "set_active qs (set_active ps v) = set_active qs v"
  "butlast (lv_segments (set_active ps v)) = butlast (lv_segments v)"
  by (simp_all add: set_active_def lv_closed_def lv_file_def lv_active_def lv_first_def lv_records_def)

lemma set_active_more:
  assumes "lv_segments v \<noteq> []"
  shows "length (lv_segments (set_active ps v)) = length (lv_segments v)" "lv_top (set_active ps v) = lv_top v"
    "map fst (lv_segments (set_active ps v)) = map fst (lv_segments v)" "set_active (lv_active v) v = v"
proof -
  show "length (lv_segments (set_active ps v)) = length (lv_segments v)" "lv_top (set_active ps v) = lv_top v"
    using assms by (simp_all add: set_active_def lv_top_def)
  have "map fst (lv_segments v) = map fst (butlast (lv_segments v) @ [(lv_file v, lv_active v)])"
    using lv_split(1) [OF assms] by simp
  then show "map fst (lv_segments (set_active ps v)) = map fst (lv_segments v)"
    by (simp add: set_active_def)
  show "set_active (lv_active v) v = v"
    using lv_split(1) [OF assms] by (simp add: set_active_def)
qed

section \<open>Contents of a view\<close>

lemma stored_cong:
  "stored E C n before segs tail \<Longrightarrow>
   (\<forall>fi \<in> fst ` set segs. C' fi = C fi) \<Longrightarrow> stored E C' n before segs tail"
proof (induction segs arbitrary: n before)
  case (Cons seg segs)
  then show ?case by (cases seg) simp
qed simp

lemma holds_view_active:
  assumes "holds_view E C v tail" and "lv_segments v \<noteq> []"
  shows "C (lv_file v) = segment_bytes (lv_top v) (lv_first v) (lv_active v) @ tail"
    and "E (segment_name (lv_top v) kSegmentSuffix) = Some (kRegularFile, lv_file v)" and "lv_first v \<noteq> 0"
proof -
  have "stored E C (lv_base v) (lv_before v) (lv_segments v) tail"
    using assms(1) by (simp add: holds_view_def)
  from stored_snoc [OF this assms(2)]
  show "C (lv_file v) = segment_bytes (lv_top v) (lv_first v) (lv_active v) @ tail"
    "E (segment_name (lv_top v) kSegmentSuffix) = Some (kRegularFile, lv_file v)" "lv_first v \<noteq> 0"
    by (simp_all add: lv_top_def lv_first_def lv_active_def lv_closed_def lv_file_def)
      (metis add.inverse_inverse add_eq_0_iff)
qed

text \<open>Other records in the active segment.\<close>

lemma holds_view_set_active:
  assumes v: "holds_view E C v tail" "lv_segments v \<noteq> []" "distinct (map fst (lv_segments v))"
    and same: "\<forall>fi \<in> fst ` set (butlast (lv_segments v)). C' fi = C fi"
    and active: "C' (lv_file v) = segment_bytes (lv_top v) (lv_first v) ps @ t"
    and anchor: "\<forall>ty fi. lv_anchor v \<noteq> None \<and> E (recovery_anchor_name (lv_base v) kRecoveryAnchorSuffix) = Some (ty, fi)
      \<longrightarrow> C' fi = C fi"
  shows "holds_view E C' (set_active ps v) t"
proof -
  have st: "stored E C (lv_base v) (lv_before v) (lv_segments v) tail"
    using v(1) by (simp add: holds_view_def)
  have "stored E C' (lv_base v) (lv_before v) (butlast (lv_segments v)) []"
    using stored_snoc(4) [OF st v(2)] same by (rule stored_cong)
  then have "stored E C' (lv_base v) (lv_before v) (lv_segments (set_active ps v)) t"
    using stored_snoc(1,3) [OF st v(2)] active v(2)
    by (simp add: set_active_def stored_append lv_file_def [symmetric] lv_top_def lv_first_def lv_closed_def
        add_eq_0_iff)
  then show ?thesis
    using v anchor unfolding holds_view_def set_active_simps set_active_more [OF v(2)] by fastforce
qed

lemma view_valid_set_active:
  assumes v: "view_valid c v" and ps: "list_all storable ps" "chained (last_sequence (lv_before v) (lv_closed v)) ps"
    "length (lv_closed v) + length ps \<le> maximum_records c"
    "card (gps_group_id ` set (lv_closed v @ ps)) \<le> lc_maximum_groups c"
    "kRaftSegmentHeaderSize + length (records_bytes ps) \<le> target_segment_size c"
    "anchored (lv_anchor v) (lv_base v) (lv_before v) (lv_closed v @ ps)"
  shows "view_valid c (set_active ps v)"
proof -
  have segs: "lv_segments v \<noteq> []"
    using v by (simp add: view_valid_def)
  have "list_all storable (lv_closed v)" "chained (lv_before v) (lv_closed v)"
    using v lv_split(2) [OF segs] by (simp_all add: view_valid_def)
  moreover have "\<forall>qs \<in> snd ` set (lv_segments (set_active ps v)).
      kRaftSegmentHeaderSize + length (records_bytes qs) \<le> target_segment_size c"
    using v ps(5) by (auto simp: view_valid_def set_active_def dest: in_set_butlastD)
  ultimately show ?thesis
    using v ps by (simp add: view_valid_def set_active_more [OF segs])
qed

section \<open>What survives a crash\<close>

lemma durable_part_take: "\<exists>k. durable_part q ps = take k ps \<and> k \<le> length ps"
  unfolding durable_part_def by (metis takeWhile_eq_take length_takeWhile_le)

text \<open>A directory of the same names, with files between the synchronized and the written contents.\<close>

lemma held_crash:
  assumes h: "held c E s q v tail" and names: "holds_view E' (contents s) v tail"
    and files: "\<forall>fi. prefix (durable_contents s fi) (C' fi) \<and> prefix (C' fi) (contents s fi) \<or>
            prefix (contents s fi) (C' fi) \<and> prefix (C' fi) (durable_contents s fi)"
    and anchor: "lv_anchor v \<noteq> None \<Longrightarrow> E' (recovery_anchor_name (lv_base v) kRecoveryAnchorSuffix) =
      E (recovery_anchor_name (lv_base v) kRecoveryAnchorSuffix)"
  obtains m t where "holds_view E' C' (set_active (take m (lv_active v)) v) t" "torn t"
    "view_valid c (set_active (take m (lv_active v)) v)" "length (durable_part q (lv_active v)) \<le> m"
    "kRaftSegmentHeaderSize + length (records_bytes (take m (lv_active v))) + length t \<le> target_segment_size c"
proof -
  let ?ps = "lv_active v" and ?fi = "lv_file v"
  let ?head = "segment_bytes (lv_top v) (lv_first v)"
  have valid: "view_valid c v" and segs: "lv_segments v \<noteq> []" and dist: "distinct (map fst (lv_segments v))"
    and torn: "torn tail" and low: "prefix (?head (durable_part q ?ps)) (durable_contents s ?fi)"
    and up: "prefix (durable_contents s ?fi) (contents s ?fi)"
    and anchored: "anchored (lv_anchor v) (lv_base v) (lv_before v) (lv_closed v @ durable_part q ?ps)"
    and size: "kRaftSegmentHeaderSize + length (records_bytes ?ps) + length tail \<le> target_segment_size c"
    using h by (auto simp: held_def view_valid_def)
  have same: "C' fi = contents s fi" if "durable_contents s fi = contents s fi" for fi
    using files that by (metis prefix_order.antisym)
  have C: "contents s ?fi = segment_bytes (lv_top v) (lv_first v) ?ps @ tail"
    using holds_view_active(1) [OF names segs] .
  have "prefix (durable_contents s ?fi) (C' ?fi)" "prefix (C' ?fi) (contents s ?fi)"
    using files [rule_format, of ?fi] up by (auto intro: prefix_order.trans)
  then have between: "prefix (?head (durable_part q ?ps)) (C' ?fi)" "prefix (C' ?fi) (?head ?ps @ tail)"
    using low C by (auto intro: prefix_order.trans)
  obtain x where x: "C' ?fi = segment_block.sealed (lv_top v, lv_first v) @ x"
      "prefix (records_bytes (durable_part q ?ps)) x"
    using between(1) by (auto simp: segment_bytes_def prefix_def)
  then have "prefix x (records_bytes ?ps @ tail)"
    using between(2) by (simp add: segment_bytes_def)
  moreover have stor: "list_all storable ?ps"
    using valid lv_split(2) [OF segs] by (simp add: view_valid_def)
  moreover obtain k where k: "durable_part q ?ps = take k ?ps" "k \<le> length ?ps"
    using durable_part_take by blast
  ultimately obtain m t where m: "x = records_bytes (take m ?ps) @ t" "torn t" "k \<le> m" "m \<le> length ?ps"
    using prefix_of_records [of x ?ps tail k] torn x(2) by auto
  have C': "C' ?fi = ?head (take m ?ps) @ t"
    by (simp add: x(1) m(1) segment_bytes_def)
  have len: "kRaftSegmentHeaderSize + length (records_bytes (take m ?ps)) + length t \<le> target_segment_size c"
    using prefix_length_le [OF between(2)] size by (simp add: C')
  have more: "take m ?ps = durable_part q ?ps @ drop k (take m ?ps)"
    using m(3) k(1) by (metis append_take_drop_id min.absorb2 min.commute take_take)
  have whole: "lv_records v = lv_closed v @ take m ?ps @ drop m ?ps"
    by (simp add: lv_split(2) [OF segs])
  have chain: "chained (lv_before v) (lv_closed v @ take m ?ps)"
    using valid unfolding view_valid_def whole chained_append by blast
  have "view_valid c (set_active (take m ?ps) v)"
  proof (rule view_valid_set_active [OF valid])
    show "list_all storable (take m ?ps)"
      using stor by (auto simp: list_all_iff dest: in_set_takeD)
    show "anchored (lv_anchor v) (lv_base v) (lv_before v) (lv_closed v @ take m ?ps)"
      using anchored_extend [OF anchored, of "drop k (take m ?ps)"] chain
      unfolding append_assoc more [symmetric] by simp
    have "card (gps_group_id ` set (lv_closed v @ take m ?ps)) \<le> card (gps_group_id ` set (lv_records v))"
      unfolding whole by (rule card_mono) (auto dest: in_set_takeD)
    then show "card (gps_group_id ` set (lv_closed v @ take m ?ps)) \<le> lc_maximum_groups c"
      using valid by (simp add: view_valid_def)
    show "length (lv_closed v) + length (take m ?ps) \<le> maximum_records c"
      using valid whole m(4) by (auto simp: view_valid_def min_def)
  qed (use chain len in simp_all)
  moreover have "\<forall>ty fi. lv_anchor v \<noteq> None \<and> E' (recovery_anchor_name (lv_base v) kRecoveryAnchorSuffix) = Some (ty, fi)
      \<longrightarrow> C' fi = contents s fi"
    using h anchor same unfolding held_def by metis
  then have "holds_view E' C' (set_active (take m ?ps) v) t"
    using h same by (intro holds_view_set_active [where C' = C', OF names segs dist _ C']) (auto simp: held_def)
  ultimately show thesis
    using that m k len by (metis length_take min.absorb2 min.commute)
qed

text \<open>Names that are not temporary decide which view a directory holds.\<close>

lemma stored_names:
  "stored E C n before segs tail \<Longrightarrow> (\<And>k. E' (segment_name k kSegmentSuffix) = E (segment_name k kSegmentSuffix)) \<Longrightarrow>
   stored E' C n before segs tail"
proof (induction segs arbitrary: n before)
  case (Cons seg segs)
  then show ?case by (cases seg) simp
qed simp

lemma stored_mixed:
  "stored E C n before segs tail \<Longrightarrow> stored D C n before segs tail \<Longrightarrow> (\<And>name. E' name \<in> {E name, D name}) \<Longrightarrow>
   stored E' C n before segs tail"
proof (induction segs arbitrary: n before)
  case (Cons seg segs)
  then show ?case
    by (cases seg) (auto dest: spec [of _ "segment_name n kSegmentSuffix"], (metis insertE singletonD)+)
qed simp

lemma holds_view_names:
  assumes "holds_view E C v tail" and same: "\<And>name. \<not> temporary name \<Longrightarrow> E' name = E name"
    and temporaries: "\<And>name e. E' name = Some e \<Longrightarrow> fst e = kRegularFile \<and> log_name name"
  shows "holds_view E' C v tail"
  using assms(1) stored_names [of E C "lv_base v" "lv_before v" "lv_segments v" tail E'] temporaries
  by (simp add: holds_view_def same)

lemma holds_view_mixed:
  assumes E: "holds_view E C v tail" and D: "holds_view D C v tail" and mix: "\<And>name. E' name \<in> {E name, D name}"
  shows "holds_view E' C v tail"
proof -
  have pick: "E' name = E name \<or> E' name = D name" for name
    using mix [of name] by simp
  have "E' kLockName \<noteq> None" "E' name = Some e \<Longrightarrow> fst e = kRegularFile \<and> log_name name"
    "E' (segment_name k kSegmentSuffix) \<noteq> None \<Longrightarrow> unat k < unat (lv_base v) + length (lv_segments v)"
    "E' (recovery_anchor_name k kRecoveryAnchorSuffix) \<noteq> None \<Longrightarrow> lv_anchor v \<noteq> None \<and> k \<le> lv_base v"
    "lv_anchor v = Some a \<Longrightarrow> \<exists>fi. E' (recovery_anchor_name (lv_base v) kRecoveryAnchorSuffix) = Some (kRegularFile, fi) \<and>
               C fi = anchor_block.sealed a" for name e k a
    using E D pick [of kLockName] pick [of name] pick [of "segment_name k kSegmentSuffix"]
      pick [of "recovery_anchor_name k kRecoveryAnchorSuffix"] pick [of "recovery_anchor_name (lv_base v) kRecoveryAnchorSuffix"]
    unfolding holds_view_def by metis+
  moreover have "stored E' C (lv_base v) (lv_before v) (lv_segments v) tail"
    using stored_mixed [of E C _ _ _ _ D E'] E D mix by (simp add: holds_view_def)
  ultimately show ?thesis
    unfolding holds_view_def by blast
qed

lemma disk_mixed:
  assumes d: "disk c s q v v' tail"
    and mix: "\<And>name. E' name \<in> {map_of (entries s) name, map_of (durable_entries s) name}"
  shows "\<exists>w E. w \<in> {v, v'} \<and> held c E s q w tail \<and> holds_view E' (contents s) w tail \<and>
    (lv_anchor w \<noteq> None \<longrightarrow>
       E' (recovery_anchor_name (lv_base w) kRecoveryAnchorSuffix) = E (recovery_anchor_name (lv_base w) kRecoveryAnchorSuffix))"
proof -
  let ?E = "map_of (entries s)" and ?D = "map_of (durable_entries s)"
  have E: "held c ?E s q v tail" "holds_view ?E (contents s) v tail"
    and D: "held c ?D s q v' tail" "holds_view ?D (contents s) v' tail"
    using d by (simp_all add: disk_def held_def)
  have pick: "E' name = ?E name \<or> E' name = ?D name" for name
    using mix [of name] by simp
  have reg: "fst e = kRegularFile \<and> log_name name" if "E' name = Some e" for name e
    using that pick [of name] E(2) D(2) unfolding holds_view_def by metis
  show ?thesis
  proof (cases "v = v'")
    case True
    then have "holds_view E' (contents s) v tail"
      using holds_view_mixed [OF E(2) _ mix] D(2) by simp
    with True E D pick [of "recovery_anchor_name (lv_base v) kRecoveryAnchorSuffix"] show ?thesis
      by auto
  next
    case False
    then obtain published where published: "\<not> temporary published"
        "\<And>name. name \<noteq> published \<Longrightarrow> \<not> temporary name \<Longrightarrow> ?E name = ?D name"
      using d by (auto simp: disk_def publishing_def)
    show ?thesis
    proof (cases "E' published = ?E published")
      case True
      then have same: "E' name = ?E name" if "\<not> temporary name" for name
        using that published(2) [of name] pick [of name] by metis
      then have "holds_view E' (contents s) v tail"
        by (rule holds_view_names [OF E(2) _ reg])
      with E(1) same show ?thesis
        by (metis insertI1 names_disjoint(3))
    next
      case False
      then have same: "E' name = ?D name" if "\<not> temporary name" for name
        using that published(2) [of name] pick [of name] by metis
      then have "holds_view E' (contents s) v' tail"
        by (rule holds_view_names [OF D(2) _ reg])
      with D(1) same show ?thesis
        by (metis insertI1 insertI2 names_disjoint(3))
    qed
  qed
qed

text \<open>Recovery after a crash finds one of the two views, complete up to the durable sequence.\<close>

lemma disk_crash:
  assumes d: "disk c s q v v' tail" and "crash s s'" and "outcomes s' = []" and c: "validate_config c = kOk"
  obtains w m t l where "w \<in> {v, v'}" "length (durable_part q (lv_active w)) \<le> m"
    "open_existing_log c True s' = (Inr l, log_storage l)" "represents l (set_active (take m (lv_active w)) w)"
    "log_config l = c"
    "latest_group_states (recovered l) = map snd (keep_latest (lv_closed w @ take m (lv_active w)) [])"
    "durable_physical_sequence (recovered l) = lv_last (set_active (take m (lv_active w)) w)"
    "tidied s' (set_active (take m (lv_active w)) w) t (log_storage l)"
    "holds_view (map_of (entries s')) (contents s') (set_active (take m (lv_active w)) w) t"
    "view_valid c (set_active (take m (lv_active w)) w)" "distinct (map fst (lv_segments w))"
    "\<forall>t fi. lv_anchor w \<noteq> None \<and> map_of (entries s') (recovery_anchor_name (lv_base w) kRecoveryAnchorSuffix) = Some (t, fi) \<longrightarrow>
       fi \<notin> fst ` set (lv_segments w)"
proof -
  have crash: "ordered (entries s')"
      "\<And>name. map_of (entries s') name \<in> {map_of (entries s) name, map_of (durable_entries s) name}"
      "\<forall>fi. prefix (durable_contents s fi) (contents s' fi) \<and> prefix (contents s' fi) (contents s fi) \<or>
            prefix (contents s fi) (contents s' fi) \<and> prefix (contents s' fi) (durable_contents s fi)"
    using \<open>crash s s'\<close> by (simp_all add: crash_def)
  obtain w E where w: "w \<in> {v, v'}" "held c E s q w tail" "holds_view (map_of (entries s')) (contents s) w tail"
      "lv_anchor w \<noteq> None \<longrightarrow> map_of (entries s') (recovery_anchor_name (lv_base w) kRecoveryAnchorSuffix) =
         E (recovery_anchor_name (lv_base w) kRecoveryAnchorSuffix)"
    using disk_mixed [OF d crash(2)] by blast
  obtain m t where m: "holds_view (map_of (entries s')) (contents s') (set_active (take m (lv_active w)) w) t" "torn t"
    "view_valid c (set_active (take m (lv_active w)) w)" "length (durable_part q (lv_active w)) \<le> m"
    "kRaftSegmentHeaderSize + length (records_bytes (take m (lv_active w))) + length t \<le> target_segment_size c"
    using held_crash [OF w(2,3) crash(3)] w(4) by blast
  have "target_segment_size c \<le> kMaximumRaftSegmentSize"
    using c by (auto simp: validate_config_def split: if_splits)
  moreover have more: "distinct (map fst (lv_segments w))"
      "\<forall>t fi. lv_anchor w \<noteq> None \<and> map_of (entries s') (recovery_anchor_name (lv_base w) kRecoveryAnchorSuffix) = Some (t, fi) \<longrightarrow>
         fi \<notin> fst ` set (lv_segments w)"
    using w(2,4) unfolding held_def by metis+
  ultimately have size: "kRaftSegmentHeaderSize + length (records_bytes (snd (last (lv_segments
      (set_active (take m (lv_active w)) w))))) + length t \<le> kMaximumRaftSegmentSize"
    using m(5) by (simp add: set_active_def)
  show thesis
    by (rule open_existing_view [OF \<open>outcomes s' = []\<close> crash(1) c m(3,1,2) size])
      (use that w(1) m(1,3,4) more in simp)
qed

end
