(* ===== verification/Log_Write.thy ===== *)
theory Log_Write
  imports Log_Disk
begin

text \<open>
  The system calls of a running log and the invariant of its storage. Whatever the outcome of a call
  is, the storage afterwards still stands for the view; the calls that publish a segment or a record
  extend the view.
\<close>

section \<open>Definitions\<close>

text \<open>The inodes that a directory reaches by a name that is not temporary.\<close>

definition named :: "(string \<Rightarrow> (DirectoryEntryType \<times> nat) option) \<Rightarrow> nat \<Rightarrow> bool" where
  "named E fi = (\<exists>name t. \<not> temporary name \<and> E name = Some (t, fi))"

definition add_segment :: "nat \<Rightarrow> LogView \<Rightarrow> LogView" where
  "add_segment fi v = v\<lparr>lv_segments := lv_segments v @ [(fi, [])]\<rparr>"

text \<open>The directory is synchronized, up to temporaries.\<close>

definition agree :: "Storage \<Rightarrow> bool" where
  "agree s = (\<forall>name. \<not> temporary name \<longrightarrow> map_of (entries s) name = map_of (durable_entries s) name)"

text \<open>All records of the view are synchronized.\<close>

definition flushed :: "RaftPersistentLogConfig \<Rightarrow> Storage \<Rightarrow> u64 \<Rightarrow> LogView \<Rightarrow> bool" where
  "flushed c s q v =
     (disk c s q v v [] \<and> agree s \<and> durable_contents s (lv_file v) = contents s (lv_file v) \<and> lv_last v \<le> q)"

text \<open>A file is being prepared under a temporary name.\<close>

definition drafting :: "RaftPersistentLogConfig \<Rightarrow> Storage \<Rightarrow> u64 \<Rightarrow> LogView \<Rightarrow> string \<Rightarrow> nat \<Rightarrow> bool" where
  "drafting c s q v name fi =
     (flushed c s q v \<and> temporary name \<and> map_of (entries s) name = Some (kRegularFile, fi) \<and>
      \<not> named (map_of (entries s)) fi \<and> \<not> named (map_of (durable_entries s)) fi)"

text \<open>A running log: its storage stands for one view, which the log represents.\<close>

definition running :: "RaftPersistentLog \<Rightarrow> LogView \<Rightarrow> bool" where
  "running l v =
     (represents l v \<and> disk (log_config l) (log_storage l) (durable_physical_sequence (recovered l)) v v [] \<and>
      agree (log_storage l) \<and> validate_config (log_config l) = kOk \<and> durable_physical_sequence (recovered l) \<le> lv_last v)"

section \<open>Frames\<close>

lemma stored_named: "stored E C n before segs tail \<Longrightarrow> fi \<in> fst ` set segs \<Longrightarrow> named E fi"
proof (induction segs arbitrary: n before)
  case (Cons seg segs)
  show ?case
  proof (cases "fi = fst seg")
    case True
    with Cons.prems(1) show ?thesis
      unfolding named_def by (cases seg) (auto intro!: exI [of _ "segment_name n kSegmentSuffix"])
  next
    case False
    with Cons show ?thesis by (cases seg) auto
  qed
qed simp

lemma holds_view_frame:
  assumes v: "holds_view E C v tail" and same: "\<And>name. \<not> temporary name \<Longrightarrow> E' name = E name"
    and reg: "\<And>name e. E' name = Some e \<Longrightarrow> fst e = kRegularFile \<and> log_name name"
    and files: "\<And>fi. named E fi \<Longrightarrow> C' fi = C fi"
  shows "holds_view E' C' v tail"
proof -
  have st: "stored E C (lv_base v) (lv_before v) (lv_segments v) tail"
    using v by (simp add: holds_view_def)
  then have "stored E C' (lv_base v) (lv_before v) (lv_segments v) tail"
    using stored_named [OF st] files by (intro stored_cong [OF st]) blast
  moreover have "C' fi = C fi" if "E (recovery_anchor_name (lv_base v) kRecoveryAnchorSuffix) = Some (t, fi)" for t fi
    using that names_disjoint(3) files unfolding named_def by blast
  ultimately have "holds_view E C' v tail"
    using v unfolding holds_view_def by metis
  then show ?thesis
    using same reg by (rule holds_view_names)
qed

lemma held_frame:
  assumes h: "held c E s q v tail" and same: "\<And>name. \<not> temporary name \<Longrightarrow> E' name = E name"
    and reg: "\<And>name e. E' name = Some e \<Longrightarrow> fst e = kRegularFile \<and> log_name name"
    and files: "\<And>fi. named E fi \<Longrightarrow> contents s' fi = contents s fi \<and> durable_contents s' fi = durable_contents s fi"
  shows "held c E' s' q v tail"
proof -
  have v: "holds_view E (contents s) v tail" and segs: "lv_segments v \<noteq> []"
    using h by (auto simp: held_def view_valid_def)
  then have st: "stored E (contents s) (lv_base v) (lv_before v) (lv_segments v) tail"
    by (simp add: holds_view_def)
  have seg: "named E fi" if "fi \<in> fst ` set (lv_segments v)" for fi
    using stored_named [OF st that] .
  then have "named E (lv_file v)" "\<And>fi. fi \<in> fst ` set (butlast (lv_segments v)) \<Longrightarrow> named E fi"
    using segs by (auto simp: lv_file_def dest: in_set_butlastD)
  moreover have "holds_view E' (contents s') v tail"
    using holds_view_frame [OF v same reg] files by blast
  moreover have "named E fi" if "E (recovery_anchor_name k kRecoveryAnchorSuffix) = Some (t, fi)" for k t fi
    using that unfolding named_def by (metis names_disjoint(3))
  ultimately show ?thesis
    using h files same unfolding held_def by (metis names_disjoint(3))
qed

lemma disk_regular:
  assumes "disk c s q v v' tail"
  shows "map_of (entries s) name = Some e \<Longrightarrow> fst e = kRegularFile \<and> log_name name"
    and "map_of (durable_entries s) name = Some e \<Longrightarrow> fst e = kRegularFile \<and> log_name name"
proof -
  have "holds_view (map_of (entries s)) (contents s) v tail" "holds_view (map_of (durable_entries s)) (contents s) v' tail"
    using assms by (simp_all add: disk_def held_def)
  then show "map_of (entries s) name = Some e \<Longrightarrow> fst e = kRegularFile \<and> log_name name"
    "map_of (durable_entries s) name = Some e \<Longrightarrow> fst e = kRegularFile \<and> log_name name"
    unfolding holds_view_def by blast+
qed

lemma disk_below:
  assumes "disk c s q v v' tail"
  shows "map_of (entries s) name = Some e \<Longrightarrow> snd e < next_inode s"
    and "map_of (durable_entries s) name = Some e \<Longrightarrow> snd e < next_inode s"
  using assms by (cases e; simp add: disk_def; blast)+

lemma disk_frame:
  assumes d: "disk c s q v v' tail" and ord: "ordered (entries s')" "ordered (durable_entries s')"
    and same: "\<And>name. \<not> temporary name \<Longrightarrow> map_of (entries s') name = map_of (entries s) name"
      "\<And>name. \<not> temporary name \<Longrightarrow> map_of (durable_entries s') name = map_of (durable_entries s) name"
    and reg: "\<And>name e. map_of (entries s') name = Some e \<Longrightarrow> fst e = kRegularFile \<and> log_name name \<and> snd e < next_inode s'"
      "\<And>name e. map_of (durable_entries s') name = Some e \<Longrightarrow> fst e = kRegularFile \<and> log_name name \<and> snd e < next_inode s'"
    and files: "\<And>fi. named (map_of (entries s)) fi \<or> named (map_of (durable_entries s)) fi \<Longrightarrow>
      contents s' fi = contents s fi \<and> durable_contents s' fi = durable_contents s fi"
  shows "disk c s' q v v' tail"
proof -
  have "held c (map_of (entries s')) s' q v tail"
    by (rule held_frame [of c "map_of (entries s)" s]) (use d same reg files in \<open>auto simp: disk_def\<close>)
  moreover have "held c (map_of (durable_entries s')) s' q v' tail"
    by (rule held_frame [of c "map_of (durable_entries s)" s]) (use d same reg files in \<open>auto simp: disk_def\<close>)
  moreover have "v = v' \<or> publishing (map_of (entries s')) (map_of (durable_entries s'))"
    using d same unfolding disk_def publishing_def by metis
  moreover have "fi < next_inode s'"
    if "map_of (entries s') name = Some (t, fi) \<or> map_of (durable_entries s') name = Some (t, fi)" for name t fi
    using that reg by force
  ultimately show ?thesis
    using ord by (auto simp: disk_def)
qed

lemma disk_fresh:
  assumes "disk c s q v v' tail" and "next_inode s \<le> fi"
  shows "\<not> named (map_of (entries s)) fi" "\<not> named (map_of (durable_entries s)) fi"
  using assms by (auto simp: disk_def named_def not_less [symmetric])

lemma disk_outcomes [simp]: "disk c (s\<lparr>outcomes := rs\<rparr>) q v v' tail = disk c s q v v' tail"
  by (simp add: disk_def held_def)

lemma outcome_cases:
  obtains rs where "outcome s = (Done, s\<lparr>outcomes := rs\<rparr>)"
  | code n rs where "outcome s = (Fails code n, s\<lparr>outcomes := rs\<rparr>)"
proof (cases "outcomes s")
  case Nil
  with that(1) [of "[]"] show ?thesis by (simp add: outcome_def)
next
  case (Cons r rs)
  then show ?thesis
    using that by (cases r) (simp_all add: outcome_def)
qed

lemma io_code_ok: "io_code (Fails code n) \<noteq> kOk" "io_code Done = kOk"
  by (simp_all add: io_code_def)

section \<open>Temporary files\<close>

lemma create_temporary:
  assumes d: "disk c s q v v' tail" and tmp: "temporary name"
  shows "case create_exclusive_regular_file s name of
      (Inl e, s') \<Rightarrow> disk c s' q v v' tail
    | (Inr fi, s') \<Rightarrow> disk c s' q v v' tail \<and> map_of (entries s') name = Some (kRegularFile, fi) \<and>
        \<not> named (map_of (entries s')) fi \<and> \<not> named (map_of (durable_entries s')) fi \<and>
        contents s' fi = [] \<and> durable_contents s' fi = []"
proof (cases rule: outcome_cases [of s])
  case (1 rs)
  show ?thesis
  proof (cases "map_of (entries s) name")
    case None
    let ?s = "s\<lparr>outcomes := rs, entries := ordered_insert name (kRegularFile, next_inode s) (entries s),
                   contents := (contents s)(next_inode s := []),
                   durable_contents := (durable_contents s)(next_inode s := []),
                   next_inode := Suc (next_inode s)\<rparr>"
    have ord: "ordered (entries s)" "ordered (durable_entries s)"
      using d unfolding disk_def by blast+
    have E: "map_of (ordered_insert name (kRegularFile, next_inode s) (entries s)) n =
        (if n = name then Some (kRegularFile, next_inode s) else map_of (entries s) n)" for n
      by (simp add: ordered_map.find_put ord)
    have disk: "disk c ?s q v v' tail"
    proof (rule disk_frame [OF d])
      fix n e
      show "fst e = kRegularFile \<and> log_name n \<and> snd e < next_inode ?s" if "map_of (entries ?s) n = Some e"
        using that tmp disk_regular(1) [OF d, of n e] disk_below(1) [OF d, of n e]
        by (auto simp: E split: if_splits)
      show "fst e = kRegularFile \<and> log_name n \<and> snd e < next_inode ?s" if "map_of (durable_entries ?s) n = Some e"
        using that disk_regular(2) [OF d, of n e] disk_below(2) [OF d, of n e] by simp
    next
      fix fi
      assume "named (map_of (entries s)) fi \<or> named (map_of (durable_entries s)) fi"
      then have "fi \<noteq> next_inode s"
        using disk_fresh [OF d order_refl] by blast
      then show "contents ?s fi = contents s fi \<and> durable_contents ?s fi = durable_contents s fi"
        by simp
    qed (use ord tmp E in \<open>auto simp: ordered_map.put_ok\<close>)
    have "\<not> named (map_of (entries ?s)) (next_inode s)" "\<not> named (map_of (durable_entries ?s)) (next_inode s)"
      using disk_fresh [OF d order_refl] tmp by (auto simp: named_def E)
    with 1 None disk E [of name] show ?thesis
      by (simp add: create_exclusive_regular_file_def)
  qed (use 1 d in \<open>simp add: create_exclusive_regular_file_def\<close>)
next
  case (2 code n rs)
  with d show ?thesis by (simp add: create_exclusive_regular_file_def)
qed

lemma disk_file:
  assumes d: "disk c s q v v' tail" and "\<not> named (map_of (entries s)) fi" "\<not> named (map_of (durable_entries s)) fi"
  shows "disk c (s\<lparr>contents := (contents s)(fi := x)\<rparr>) q v v' tail"
    and "disk c (s\<lparr>durable_contents := (durable_contents s)(fi := x)\<rparr>) q v v' tail"
proof -
  have "ordered (entries s)" "ordered (durable_entries s)"
    using d by (simp_all add: disk_def)
  then show "disk c (s\<lparr>contents := (contents s)(fi := x)\<rparr>) q v v' tail"
    "disk c (s\<lparr>durable_contents := (durable_contents s)(fi := x)\<rparr>) q v v' tail"
    using assms disk_regular [OF d] disk_below [OF d] by (auto intro!: disk_frame [OF d])
qed

lemma sync_directory_disk:
  assumes "disk c s q v v' tail"
  shows "case sync_directory s of
      (status, s') \<Rightarrow>
        contents s' = contents s \<and> durable_contents s' = durable_contents s \<and> entries s' = entries s \<and>
        next_inode s' = next_inode s \<and>
        (if status = kOk then disk c s' q v v tail \<and> durable_entries s' = entries s
         else disk c s' q v v' tail \<and> durable_entries s' = durable_entries s)"
proof (cases rule: outcome_cases [of s])
  case (1 rs)
  moreover have "disk c (s\<lparr>outcomes := rs, durable_entries := entries s\<rparr>) q v v tail"
    using assms by (auto simp: disk_def held_def)
  ultimately show ?thesis
    by (simp add: sync_directory_def)
next
  case (2 code n rs)
  with assms show ?thesis by (simp add: sync_directory_def io_code_ok)
qed

section \<open>Preparing a file\<close>

lemma flushed_outcomes [simp]: "flushed c (s\<lparr>outcomes := rs\<rparr>) q v = flushed c s q v"
  by (simp add: flushed_def agree_def)

lemma drafting_outcomes [simp]: "drafting c (s\<lparr>outcomes := rs\<rparr>) q v name fi = drafting c s q v name fi"
  by (simp add: drafting_def)

lemma flushed_file_named:
  assumes "disk c s q v v tail"
  shows "named (map_of (entries s)) (lv_file v)"
proof -
  have st: "stored (map_of (entries s)) (contents s) (lv_base v) (lv_before v) (lv_segments v) tail" and "lv_segments v \<noteq> []"
    using assms by (simp_all add: disk_def held_def holds_view_def view_valid_def)
  then show ?thesis
    using stored_named [OF st, of "lv_file v"] by (auto simp: lv_file_def)
qed

lemma drafting_file:
  assumes d: "drafting c s q v name fi"
  shows "drafting c (s\<lparr>contents := (contents s)(fi := x)\<rparr>) q v name fi"
    and "drafting c (s\<lparr>durable_contents := (durable_contents s)(fi := x)\<rparr>) q v name fi"
proof -
  have "disk c s q v v []" "\<not> named (map_of (entries s)) fi" "\<not> named (map_of (durable_entries s)) fi"
    using d by (simp_all add: drafting_def flushed_def)
  moreover from this have "lv_file v \<noteq> fi"
    using flushed_file_named by blast
  ultimately show "drafting c (s\<lparr>contents := (contents s)(fi := x)\<rparr>) q v name fi"
    "drafting c (s\<lparr>durable_contents := (durable_contents s)(fi := x)\<rparr>) q v name fi"
    using d by (auto simp: drafting_def flushed_def agree_def disk_file)
qed

lemma create_draft:
  assumes "flushed c s q v" and "temporary name"
  shows "case create_exclusive_regular_file s name of
      (Inl e, s') \<Rightarrow> flushed c s' q v
    | (Inr fi, s') \<Rightarrow> drafting c s' q v name fi \<and> contents s' fi = [] \<and> durable_contents s' fi = []"
proof -
  have d: "disk c s q v v []" and rest: "agree s" "durable_contents s (lv_file v) = contents s (lv_file v)" "lv_last v \<le> q"
    using assms by (simp_all add: flushed_def)
  have ord: "ordered (entries s)"
    using d by (simp add: disk_def)
  have fi: "lv_file v \<noteq> next_inode s"
    using flushed_file_named [OF d] disk_fresh(1) [OF d order_refl] by metis
  show ?thesis
  proof (cases rule: outcome_cases [of s])
    case (1 rs)
    then show ?thesis
      using create_temporary [OF d assms(2)] rest fi assms(2) d
      by (cases "map_of (entries s) name")
        (auto simp: create_exclusive_regular_file_def flushed_def drafting_def agree_def ordered_map.find_put ord)
  next
    case (2 code n rs)
    with d rest show ?thesis
      by (simp add: create_exclusive_regular_file_def flushed_def agree_def)
  qed
qed

lemma write_draft:
  assumes "drafting c s q v name fi" and "contents s fi = []"
  shows "case write_all_at s fi 0 bytes of
      (status, s') \<Rightarrow> drafting c s' q v name fi \<and> (status = kOk \<longrightarrow> contents s' fi = bytes)"
proof (cases rule: outcome_cases [of s])
  case (1 rs)
  with assms show ?thesis
    using drafting_file(1) [of c "s\<lparr>outcomes := rs\<rparr>" q v name fi] by (simp add: write_all_at_def write_region_def)
next
  case (2 code n rs)
  with assms show ?thesis
    using drafting_file(1) [of c "s\<lparr>outcomes := rs\<rparr>" q v name fi] by (simp add: write_all_at_def io_code_ok)
qed

lemma sync_draft:
  assumes "drafting c s q v name fi"
  shows "case sync_file s fi of
      (status, s') \<Rightarrow> drafting c s' q v name fi \<and> contents s' = contents s \<and>
        (status = kOk \<longrightarrow> durable_contents s' fi = contents s fi)"
proof (cases rule: outcome_cases [of s])
  case (1 rs)
  with assms show ?thesis
    using drafting_file(2) [of c "s\<lparr>outcomes := rs\<rparr>" q v name fi] by (simp add: sync_file_def)
next
  case (2 code n rs)
  with assms show ?thesis by (simp add: sync_file_def io_code_ok)
qed

end
