(* ===== verification/Raft_Samples.thy ===== *)
theory Raft_Samples
  imports Raft_Run
begin

text \<open>
  One concrete history of a three-node group, evaluated step by step: node 1 becomes leader with the
  vote of node 2, appends its first entry, commits it with the acknowledgement of node 2, and confirms a
  read barrier.
\<close>

section \<open>Definitions\<close>

definition sample_candidate :: RaftNode where
  "sample_candidate = sample_node\<lparr>state := empty_state\<lparr>current_term := 1, voted_for := Some 1\<rparr>, role := kCandidate,
     votes := {1}\<rparr>"

definition sample_request :: RequestVoteRequest where
  "sample_request = \<lparr>rv_term = 1, candidate_id = 1, last_log_index = 0, last_log_term = 0\<rparr>"

definition sample_supporter :: RaftNode where
  "sample_supporter = sample_node\<lparr>node_id := 2, state := empty_state\<lparr>current_term := 1, voted_for := Some 1\<rparr>\<rparr>"

definition sample_reply :: RequestVoteResponse where
  "sample_reply = \<lparr>rvr_term = 1, granted = True\<rparr>"

definition sample_leader :: RaftNode where
  "sample_leader = sample_candidate\<lparr>role := kLeader, leader_id := Some 1, votes := {1, 2},
     next_index := [1 \<mapsto> 1, 2 \<mapsto> 1, 3 \<mapsto> 1], match_index := [1 \<mapsto> 0, 2 \<mapsto> 0, 3 \<mapsto> 0]\<rparr>"

definition sample_noop :: LogEntry where
  "sample_noop = \<lparr>entry_index = 1, entry_term = 1, entry_type = kLeaderNoopEntryType, entry_payload = []\<rparr>"

definition sample_append :: AppendEntriesRequest where
  "sample_append = \<lparr>ae_term = 1, ae_leader_id = 1, previous_log_index = 0, previous_log_term = 0,
     ae_entries = [sample_noop], leader_commit = 0\<rparr>"

definition sample_appended :: RaftNode where
  "sample_appended = sample_leader\<lparr>state := (state sample_leader)\<lparr>log := [sample_noop]\<rparr>,
     next_index := [1 \<mapsto> 2, 2 \<mapsto> 1, 3 \<mapsto> 1], match_index := [1 \<mapsto> 1, 2 \<mapsto> 0, 3 \<mapsto> 0]\<rparr>"

definition sample_ack :: AppendEntriesResponse where
  "sample_ack = \<lparr>aer_term = 1, aer_success = True, aer_match_index = 1, conflict_term = None, conflict_index = 0\<rparr>"

definition sample_committed :: RaftNode where
  "sample_committed = sample_appended\<lparr>state := (state sample_appended)\<lparr>commit_index := 1\<rparr>,
     next_index := [1 \<mapsto> 2, 2 \<mapsto> 2, 3 \<mapsto> 1], match_index := [1 \<mapsto> 1, 2 \<mapsto> 1, 3 \<mapsto> 0]\<rparr>"

definition sample_barrier :: RaftNode where
  "sample_barrier = sample_committed\<lparr>pending_read_barrier := Some \<lparr>prb_term = 1, prb_context = 1, prb_read_index = 1,
     prb_old_voters = [1, 2, 3], prb_new_voters = [], acknowledgements = {1}\<rparr>, next_read_context := 2\<rparr>"

definition sample_follower :: RaftNode where
  "sample_follower = sample_supporter\<lparr>leader_id := Some 1, state := (state sample_supporter)\<lparr>log := [sample_noop]\<rparr>\<rparr>"

section \<open>Steps\<close>

lemmas sample_nodes = sample_node_def sample_voters_def initial_node_def sample_candidate_def sample_supporter_def

lemmas sample_quorums = voter_def throws_def configuration_quorum_def has_majority_def majority_def no_faults_def

lemmas sample_kinds = is_internal_raft_entry_type_def is_membership_entry_type_def kLeaderNoopEntryType_def
  kJointMembershipEntryType_def kFinalMembershipEntryType_def

lemma sample_created_two: "create 2 [1, 2, 3] empty_state default_limits = Inr (sample_node\<lparr>node_id := 2\<rparr>)"
  by (simp add: create_def limits_and_identity_valid_def sample_limits sample_states empty_snapshot_canonical_def
      create_checked_def sample_sizes derive_membership_def sample_node_def sample_voters_def initial_node_def Let_def
      list_ex_iff)

lemma sample_election: "start_election NoFault sample_node = (sample_candidate, Inr (empty_transition\<lparr>outbound :=
     [\<lparr>destination = 2, message = RequestVote sample_request\<rparr>, \<lparr>destination = 3, message = RequestVote sample_request\<rparr>],
     persistent_state := Some (state sample_candidate)\<rparr>))"
  by (simp add: start_election_def sample_nodes sample_quorums sample_states sample_request_def vote_requests_def
      last_term_def Let_def)

lemma sample_vote: "receive no_faults (sample_node\<lparr>node_id := 2\<rparr>) 1 (RequestVote sample_request) =
    (sample_supporter, Inr (empty_transition\<lparr>outbound := [\<lparr>destination = 1, message = RequestVoteReply sample_reply\<rparr>],
       persistent_state := Some (state sample_supporter)\<rparr>))"
  by (simp add: receive_def validate_message_def validated_def validate_request_vote_def prepare_message_def
      prepare_request_vote_def prepare_persistence_def commit_message_def apply_message_def apply_request_vote_def
      observe_term_def become_follower_def candidate_log_is_current_def last_term_def sample_request_def sample_reply_def
      sample_nodes sample_quorums sample_states Let_def)

lemma sample_win: "\<exists>tr. receive no_faults sample_candidate 2 (RequestVoteReply sample_reply) = (sample_leader, Inr tr)"
  by (simp add: receive_def validate_message_def prepare_message_def prepare_vote_response_def prepare_persistence_def
      commit_message_def apply_message_def apply_vote_response_def sample_reply_def sample_nodes sample_quorums
      sample_states sample_leader_def Let_def emplace_def fun_eq_iff insert_commute)

lemma sample_append_step: "\<exists>tr. commit_current_term NoFault sample_leader = (sample_appended, Inr tr)"
  apply (simp add: commit_current_term_def sample_leader_def sample_nodes sample_states sample_limits sample_sizes
      install_prepared_def throws_def append_local_entry_def record_self_progress_def push_entry_def advance_commit_def Let_def)
  apply (subst commit_search.simps)
  apply (subst commit_search.simps)
  apply (simp add: committable_def term_at_def sample_states offset_for_def sample_quorums replicated_at_def)
  apply (simp add: append_to_all_def replication_for_def term_at_def sample_states offset_for_def Let_def sample_appended_def
      sample_leader_def sample_nodes sample_noop_def fun_eq_iff sample_limits)
  done

lemma sample_ack_step: "\<exists>tr. receive no_faults sample_appended 2 (AppendEntriesReply sample_ack) = (sample_committed, Inr tr)"
  apply (simp add: receive_def validate_message_def validated_def validate_append_response_def prepare_message_def
      prepare_append_response_def prepare_append_success_def sample_appended_def sample_leader_def sample_nodes sample_states
      sample_ack_def sample_noop_def sample_quorums Let_def)
  apply (subst commit_search.simps)
  apply (simp add: committable_def term_at_def sample_states offset_for_def sample_quorums replicated_at_def
      derive_membership_def derive_step_def sample_kinds)
  apply (simp add: replication_for_def term_at_def sample_states offset_for_def erase_departed_def emplace_def Let_def
      sample_limits prepare_persistence_def commit_message_def apply_message_def apply_append_response_def move_state_def
      sample_committed_def sample_appended_def sample_leader_def sample_nodes sample_noop_def fun_eq_iff sample_kinds)
  done

lemma sample_barrier_step: "\<exists>tr. begin_read_barrier NoFault sample_committed = (sample_barrier, Inr tr)"
  by (simp add: begin_read_barrier_def sample_barrier_def sample_committed_def sample_appended_def sample_leader_def
      sample_nodes sample_states term_at_def offset_for_def sample_noop_def sample_quorums new_read_barrier_def
      read_barrier_quorum_def Let_def)

lemma sample_follower_step: "\<exists>tr. receive no_faults sample_supporter 1 (AppendEntries sample_append) = (sample_follower, Inr tr)"
  by (simp add: receive_def validate_message_def validate_append_entries_def validate_append_suffix_def predecessor_matches_def
      append_predecessor_term_def term_at_def sample_append_def sample_noop_def append_capacity_ok_def merge_entries_def
      merge_entry_def derive_membership_def derive_step_def sample_sizes sample_limits sample_kinds prepare_message_def
      prepare_append_request_def prepare_append_accept_def commit_message_def apply_message_def apply_append_request_def
      move_state_def become_follower_def install_membership_def sample_follower_def sample_nodes sample_states
      sample_quorums Let_def)

section \<open>Reachability\<close>

lemma sample_runs:
  "node_run sample_node sample_candidate" "node_run sample_node sample_leader" "node_run sample_node sample_appended"
  "node_run sample_node sample_committed" "node_run sample_node sample_barrier"
proof -
  show c: "node_run sample_node sample_candidate"
    using run_call [OF run_start call_local [OF call_start_election [of sample_node NoFault, unfolded sample_election]]] .
  obtain tr where "receive no_faults sample_candidate 2 (RequestVoteReply sample_reply) = (sample_leader, Inr tr)"
    using sample_win by blast
  with call_receive [of sample_candidate no_faults 2 "RequestVoteReply sample_reply"] c
  show l: "node_run sample_node sample_leader" by (auto intro: run_call)
  obtain tr where "commit_current_term NoFault sample_leader = (sample_appended, Inr tr)"
    using sample_append_step by blast
  with call_local [OF call_commit_current_term [of sample_leader NoFault]] l
  show a: "node_run sample_node sample_appended" by (auto intro: run_call)
  obtain tr where "receive no_faults sample_appended 2 (AppendEntriesReply sample_ack) = (sample_committed, Inr tr)"
    using sample_ack_step by blast
  with call_receive [of sample_appended no_faults 2 "AppendEntriesReply sample_ack"] a
  show d: "node_run sample_node sample_committed" by (auto intro: run_call)
  obtain tr where "begin_read_barrier NoFault sample_committed = (sample_barrier, Inr tr)"
    using sample_barrier_step by blast
  with call_local [OF call_begin_read_barrier [of sample_committed NoFault]] d
  show "node_run sample_node sample_barrier" by (auto intro: run_call)
qed

lemma sample_wf:
  "node_wf sample_candidate" "node_wf sample_leader" "node_wf sample_appended" "node_wf sample_committed"
  "node_wf sample_barrier" "node_wf sample_supporter"
proof -
  have "node_wf n" if "node_run sample_node n" for n
    using create_run [OF sample_created(1) that] by simp
  with sample_runs show "node_wf sample_candidate" "node_wf sample_leader" "node_wf sample_appended"
    "node_wf sample_committed" "node_wf sample_barrier" by blast+
  have "node_run (sample_node\<lparr>node_id := 2\<rparr>) sample_supporter"
    using run_call [OF run_start call_receive [of "sample_node\<lparr>node_id := 2\<rparr>" no_faults 1 "RequestVote sample_request",
      unfolded sample_vote]] .
  then show "node_wf sample_supporter"
    using create_run [OF sample_created_two] by simp
qed

end
