(* ===== verification/Raft_Decisions.thy ===== *)
theory Raft_Decisions
  imports Raft_Samples
begin

text \<open>
  What a node decides: when it grants a vote, becomes leader, advances the commit index, accepts
  entries from a leader, and confirms a read barrier. Each decision is stated on the whole operation,
  from the call to the node and the transition afterwards.
\<close>

section \<open>Definitions\<close>

text \<open>The progress of a follower after a successful response.\<close>

definition acknowledge :: "RaftNode \<Rightarrow> NodeId \<Rightarrow> LogIndex \<Rightarrow> RaftNode" where
  "acknowledge n source k = n\<lparr>next_index := (next_index n)(source \<mapsto> k + 1),
                              match_index := (match_index n)(source \<mapsto> k)\<rparr>"

text \<open>The indexes that a leader may commit.\<close>

definition may_commit :: "RaftNode \<Rightarrow> LogIndex \<Rightarrow> bool" where
  "may_commit n i =
     (commit_index (state n) < i \<and> i \<le> last_index (state n) \<and>
      term_at (state n) i = Some (current_term (state n)) \<and> replication_quorum n i)"

text \<open>A message that is not a vote response leaves a node in its role or makes it a follower.\<close>

definition role_kept :: "RaftNode \<Rightarrow> RaftNode \<Rightarrow> bool" where
  "role_kept n n' =
     (role n' \<noteq> kFollower \<longrightarrow>
      role n' = role n \<and> current_term (state n') = current_term (state n) \<and> votes n' = votes n)"

text \<open>The sample leader before it looks at the acknowledgement, and the confirmation of its barrier.\<close>

definition sample_ready :: RaftNode where
  "sample_ready = sample_committed\<lparr>state := (state sample_committed)\<lparr>commit_index := 0\<rparr>\<rparr>"





section \<open>Commit\<close>

lemma committable_quorum: "committable n (match_index n) i \<longleftrightarrow>
    term_at (state n) i = Some (current_term (state n)) \<and> replication_quorum n i"
  by (simp add: committable_def replication_quorum_def)

lemma advance_commit_cases:
  assumes "advance_commit n tr = Inr (moved, n', tr')"
  shows "if moved then may_commit n (commit_index (state n')) \<and>
       (\<forall>j. may_commit n j \<longrightarrow> j \<le> commit_index (state n')) \<and>
       advanced_commit_index tr' = Some (commit_index (state n')) \<and> log (state n') = log (state n)
     else n' = n \<and> tr' = tr \<and> (\<forall>j. \<not> may_commit n j)"
proof (cases "commit_search (committable n (match_index n)) (last_index (state n)) (commit_index (state n))")
  case None
  with assms have "\<not> moved" "n' = n" "tr' = tr"
    by (simp_all add: advance_commit_def)
  with None show ?thesis
    unfolding commit_search_None by (auto simp: may_commit_def committable_quorum)
next
  case (Some i)
  then obtain d where "moved" and n': "n' = install_membership (n\<lparr>state := (state n)\<lparr>commit_index := i\<rparr>\<rparr>) d"
    "tr' = tr\<lparr>advanced_commit_index := Some i\<rparr>"
    using assms by (auto simp: advance_commit_def make_unexpected_def split: sum.splits if_splits)
  with commit_search_Some [OF Some] show ?thesis
    by (auto simp: may_commit_def committable_quorum not_le)
qed

section \<open>Append responses\<close>

lemma acknowledge_simps [simp]:
  "match_index (acknowledge n source k) = (match_index n)(source \<mapsto> k)" "state (acknowledge n source k) = state n"
  "base_voters (acknowledge n source k) = base_voters n" "limits (acknowledge n source k) = limits n"
  "committable (acknowledge n source k) = committable n"
  by (simp_all add: acknowledge_def committable_def configuration_quorum_def fun_eq_iff split: option.splits)

lemma append_success_reference:
  assumes p: "prepare_append_success n source matched m = Inr p" and lead: "role n = kLeader"
    and cur: "aer_term m = current_term (state n)" and k: "k = max matched (aer_match_index m)"
  shows "\<exists>moved n1 tr1. advance_commit (acknowledge n source k) empty_transition = Inr (moved, n1, tr1) \<and>
    advanced_commit_index (transition p) = advanced_commit_index tr1 \<and> prepared_append_response p \<and>
    ap_node (apply_append_response n m p changed) = (if moved then step_down_if_removed n1 else n1)"
proof (cases "commit_search (committable n ((match_index n)(source \<mapsto> k))) (last_index (state n)) (commit_index (state n))")
  case None
  then have "prepared_append_response p" "\<not> prepared_append_commit p"
    "prepared_append_next_index p = (next_index n)(source \<mapsto> k + 1)"
    "prepared_append_match_index p = (match_index n)(source \<mapsto> k)" "advanced_commit_index (transition p) = None"
    using p by (auto simp: prepare_append_success_def Let_def k split: if_splits option.splits)
  moreover from None have "advance_commit (acknowledge n source k) empty_transition =
      Inr (False, acknowledge n source k, empty_transition)"
    by (simp add: advance_commit_def)
  ultimately show ?thesis
    by (auto simp: apply_append_response_def Let_def lead cur acknowledge_def)
next
  case (Some c)
  then obtain d where d: "derive_membership (base_voters n) (log (state n)) c (limits n) = Inr d"
    using p by (auto simp: prepare_append_success_def Let_def k split: sum.splits)
  obtain nxt mtch where migrated: "add_members (node_id n) (last_index (state n)) (dm_active_voters d)
      (erase_departed (dm_active_voters d) ((next_index n)(source \<mapsto> k + 1), (match_index n)(source \<mapsto> k))) = (nxt, mtch)"
    by fastforce
  have prep: "prepared_append_response p" "prepared_append_commit p"
    "prepared_append_next_index p = nxt" "prepared_append_match_index p = mtch"
    "prepared_append_state p = Some ((state n)\<lparr>commit_index := c\<rparr>)" "prepared_append_membership p = Some d"
    "advanced_commit_index (transition p) = Some c"
    "prepared_append_step_down p \<longleftrightarrow> node_id n \<notin> set (dm_active_voters d)"
    using p Some d migrated by (auto simp: prepare_append_success_def Let_def k split: option.splits)
  let ?n1 = "install_membership ((acknowledge n source k)\<lparr>state := (state n)\<lparr>commit_index := c\<rparr>\<rparr>) d"
  have adv: "advance_commit (acknowledge n source k) empty_transition =
      Inr (True, ?n1, empty_transition\<lparr>advanced_commit_index := Some c\<rparr>)"
    using Some d by (simp add: advance_commit_def)
  have n1: "?n1 = n\<lparr>next_index := nxt, match_index := mtch, state := (state n)\<lparr>commit_index := c\<rparr>,
      committed_voters := dm_committed_voters d, voters := dm_active_voters d, joint := dm_joint d\<rparr>"
    using migrated by (simp add: install_membership_def acknowledge_def lead)
  have "ap_node (apply_append_response n m p changed) = step_down_if_removed ?n1"
    unfolding n1 using prep
    by (simp add: apply_append_response_def Let_def lead cur move_state_def step_down_if_removed_def voter_def)
  with adv prep show ?thesis by auto
qed

lemma receive_reply:
  assumes "receive faults n source msg = (n', Inr tr)"
  shows "\<exists>v p. validate_message n (voter n source) source msg = Inr v \<and> prepare_message n source msg v = Inr p \<and>
    commit_message (acknowledgement_fault faults) n source msg v p = (n', Inr tr) \<and>
    source \<noteq> 0 \<and> source \<noteq> node_id n \<and> (voter n source \<or> learner_replication_request msg)"
  using assms by (auto simp: receive_def Let_def split: if_splits sum.splits)

section \<open>Votes and roles\<close>

lemma prepared_append_state_term:
  "prepare_append_response n source m = Inr p \<Longrightarrow> prepared_append_state p = Some st \<Longrightarrow>
     current_term st = current_term (state n)"
  by (auto simp: prepare_append_response_def prepare_append_success_def prepare_append_failure_def Let_def
      nothing_prepared_def split: if_splits option.splits sum.splits prod.splits)

lemma role_kept_follower [simp]: "role n' = kFollower \<Longrightarrow> role_kept n n'"
  by (simp add: role_kept_def)

lemma role_kept_refl [simp]: "role_kept n n"
  by (simp add: role_kept_def)

lemma apply_message_role:
  assumes "\<And>m. msg \<noteq> RequestVoteReply m"
    and "\<And>st. prepared_append_state p = Some st \<Longrightarrow> current_term st = current_term (state n)"
  shows "role_kept n (ap_node (apply_message fault n source msg v p c))"
proof (cases msg)
  case (RequestVote m)
  then show ?thesis
    by (simp add: apply_message_def apply_request_vote_def)
next
  case (RequestVoteReply m)
  then show ?thesis using assms(1) [of m] by simp
next
  case (AppendEntries m)
  then show ?thesis
    by (simp add: apply_message_def apply_append_request_def Let_def apply_failed_def install_membership_follower
        split: option.split)
next
  case (AppendEntriesReply m)
  note defs = apply_message_def apply_append_response_def Let_def apply_failed_def move_state_def role_kept_def
  show ?thesis
  proof (cases "prepared_append_state p")
    case None
    with AppendEntriesReply show ?thesis
      by (simp add: defs split: option.split)
  next
    case (Some st)
    with AppendEntriesReply assms(2) [OF Some] show ?thesis
      by (simp add: defs split: option.split)
  qed
next
  case (InstallSnapshot m)
  then show ?thesis
    by (simp add: apply_message_def apply_install_request_def Let_def apply_failed_def)
next
  case (InstallSnapshotReply m)
  then show ?thesis
    by (simp add: apply_message_def apply_snapshot_response_def apply_failed_def role_kept_def)
next
  case (ReadBarrierProbe m)
  then show ?thesis
    by (simp add: apply_message_def apply_barrier_probe_def Let_def)
next
  case (ReadBarrierReply m)
  then show ?thesis
    by (simp add: apply_message_def apply_barrier_response_def finish_read_barrier_def Let_def apply_failed_def
        role_kept_def split: option.split)
qed

lemma no_prepared_state [simp]: "prepared_append_state nothing_prepared = None"
  by (simp add: nothing_prepared_def)

lemma prepare_persistence_fields [simp]:
  "prepared_append_state (prepare_persistence n source msg p) = prepared_append_state p"
  "prepared_vote_response (prepare_persistence n source msg p) = prepared_vote_response p"
  "prepared_vote_quorum (prepare_persistence n source msg p) = prepared_vote_quorum p"
  "prepared_response_votes (prepare_persistence n source msg p) = prepared_response_votes p"
  by (simp_all add: prepare_persistence_def Let_def)

lemma prepared_state_term:
  assumes "prepare_message n source msg v = Inr p" and "prepared_append_state p = Some st"
  shows "current_term st = current_term (state n) \<and> message_term msg = current_term (state n)"
proof (cases msg)
  case (AppendEntriesReply m)
  with assms obtain p0 where "prepare_append_response n source m = Inr p0" "prepared_append_state p0 = Some st"
    by (cases "prepare_append_response n source m") (auto simp: prepare_message_def)
  with AppendEntriesReply prepared_append_state_term [OF this] show ?thesis
    by (auto simp: prepare_append_response_def split: if_splits)
qed (use assms in \<open>auto simp: prepare_message_def prepare_request_vote_def prepare_vote_response_def
      prepare_append_request_def prepare_append_accept_def prepare_install_request_def prepare_snapshot_response_def Let_def
      split: if_splits option.splits sum.splits\<close>)

lemma commit_message_node:
  assumes "commit_message fault n source msg v p = (n', Inr tr)"
  shows "n' = ap_node (apply_message fault (if message_term msg > current_term (state n)
    then become_follower n (message_term msg) None else n) source msg v p (message_term msg > current_term (state n)))"
proof -
  have "n' = fst (commit_message fault n source msg v p)"
    using assms by simp
  then show ?thesis
    by (simp add: commit_message_def Let_def)
qed

lemma receive_role:
  assumes "receive faults n source msg = (n', Inr tr)" and "\<And>m. msg \<noteq> RequestVoteReply m"
  shows "role_kept n n'"
proof -
  obtain v p where prep: "prepare_message n source msg v = Inr p"
      and c: "commit_message (acknowledgement_fault faults) n source msg v p = (n', Inr tr)"
    using receive_reply [OF assms(1)] by blast
  show ?thesis
  proof (cases "message_term msg > current_term (state n)")
    case True
    let ?n1 = "become_follower n (message_term msg) None"
    have "prepared_append_state p = None"
    proof (cases "prepared_append_state p")
      case (Some st)
      with prepared_state_term [OF prep Some] True show ?thesis by simp
    qed
    then have "role_kept ?n1 n'"
      unfolding commit_message_node [OF c] if_P [OF True] by (intro apply_message_role [OF assms(2)]) simp
    then show ?thesis
      by (simp add: role_kept_def)
  next
    case False
    show ?thesis
      unfolding commit_message_node [OF c] if_not_P [OF False]
      by (rule apply_message_role [OF assms(2)]) (rule conjunct1 [OF prepared_state_term [OF prep]])
  qed
qed

lemma receive_vote_reply:
  assumes "receive faults n source (RequestVoteReply m) = (n', Inr tr)" and "role n' \<noteq> kFollower"
  shows "state n' = state n \<and> ((role n' = role n \<and> votes n' = votes n) \<or>
    (granted m \<and> rvr_term m = current_term (state n) \<and> role n = kCandidate \<and> votes n' = insert source (votes n) \<and>
       (role n' = kLeader \<longrightarrow> configuration_quorum n (\<lambda>node. node \<in> votes n'))))"
proof -
  obtain v p where prep: "prepare_message n source (RequestVoteReply m) v = Inr p"
      and c: "commit_message (acknowledgement_fault faults) n source (RequestVoteReply m) v p = (n', Inr tr)"
    using receive_reply [OF assms(1)] by blast
  note n' = commit_message_node [OF c, unfolded apply_message_def, simplified]
  show ?thesis
  proof (cases "rvr_term m = current_term (state n) \<and> role n = kCandidate \<and> granted m")
    case True
    have p: "p = prepare_persistence n source (RequestVoteReply m) (prepare_vote_response n source m)"
      using prep by (simp add: prepare_message_def)
    have "prepared_vote_response p" "prepared_response_votes p = insert source (votes n)"
      "prepared_vote_quorum p \<longleftrightarrow> configuration_quorum n (\<lambda>node. node \<in> insert source (votes n))"
      unfolding p using True by (simp_all add: prepare_vote_response_def Let_def)
    with n' True show ?thesis
      by (simp add: apply_vote_response_def Let_def)
  next
    case other: False
    show ?thesis
    proof (cases "rvr_term m > current_term (state n)")
      case True
      with n' have "role n' = kFollower"
        by (simp add: apply_vote_response_def)
      with assms(2) show ?thesis by simp
    next
      case False
      with other n' have "n' = n"
        by (simp add: apply_vote_response_def apply_failed_def Let_def split: if_splits)
      then show ?thesis by simp
    qed
  qed
qed

lemma vote_reply_granted:
  assumes "receive faults n source (RequestVote m) = (n', Inr tr)"
  shows "\<exists>ok. outbound tr = [\<lparr>destination = source, message =
      RequestVoteReply \<lparr>rvr_term = max (current_term (state n)) (rv_term m), granted = ok\<rparr>\<rparr>] \<and>
    (ok \<longleftrightarrow> voter n (node_id n) \<and> current_term (state n) \<le> rv_term m \<and>
       (current_term (state n) < rv_term m \<or> voted_for (state n) \<in> {None, Some source}) \<and>
       candidate_log_is_current (state n) (last_log_index m) (last_log_term m)) \<and>
    (ok \<longrightarrow> voted_for (state n') = Some source \<and> current_term (state n') = rv_term m \<and>
       persistent_state tr = Some (state n'))"
proof -
  let ?ok = "voter n (node_id n) \<and> current_term (state n) \<le> rv_term m \<and>
       (current_term (state n) < rv_term m \<or> voted_for (state n) \<in> {None, Some source}) \<and>
       candidate_log_is_current (state n) (last_log_index m) (last_log_term m)"
  obtain v p where prep: "prepare_message n source (RequestVote m) v = Inr p"
      and c: "commit_message (acknowledgement_fault faults) n source (RequestVote m) v p = (n', Inr tr)"
    using receive_reply [OF assms] by blast
  let ?q = "prepare_request_vote n source m"
  have p: "p = prepare_persistence n source (RequestVote m) ?q"
    using prep by (simp add: prepare_message_def)
  have q: "prepared_vote_granted ?q \<longleftrightarrow> ?ok"
    by (auto simp: prepare_request_vote_def Let_def max_def not_le)
  have out: "outbound (transition ?q) = [\<lparr>destination = source, message =
      RequestVoteReply \<lparr>rvr_term = max (current_term (state n)) (rv_term m), granted = prepared_vote_granted ?q\<rparr>\<rparr>]"
    by (simp add: prepare_request_vote_def Let_def)
  have "prepared_vote_granted p = prepared_vote_granted ?q" "outbound (transition p) = outbound (transition ?q)"
    by (simp_all add: p prepare_persistence_def Let_def)
  moreover have "outbound tr = outbound (transition p)"
    using c by (auto simp: commit_message_def apply_message_def apply_request_vote_def Let_def split: if_splits)
  moreover have "voted_for (state n') = Some source \<and> current_term (state n') = rv_term m \<and>
       persistent_state tr = Some (state n')" if ok: ?ok
  proof -
    have granted: "prepared_vote_granted ?q"
      using ok q by simp
    have "persistent_state (transition p) = Some ((if current_term (state n) < rv_term m
        then observe_term (state n) (rv_term m) else state n)\<lparr>voted_for := Some source\<rparr>)"
      using granted by (simp add: p prepare_persistence_def Let_def)
    moreover have "prepared_vote_granted p"
      using granted by (simp add: p prepare_persistence_def Let_def)
    ultimately show ?thesis
      using c ok
      by (cases "current_term (state n) < rv_term m")
        (simp_all add: commit_message_def apply_message_def apply_request_vote_def Let_def observe_term_def, force+)
  qed
  ultimately show ?thesis
    using q out by (intro exI [of _ "prepared_vote_granted ?q"]) simp
qed

section \<open>Read barriers\<close>


section \<open>Properties\<close>

text \<open>C3: a leader moves the commit index to the highest index above it that a quorum of the configuration
  has replicated and whose entry is of the leader's own term, and leaves it alone when there is none;
  an entry of an earlier term is never committed by counting replicas.\<close>

theorem advance_commit_highest:
  assumes "advance_commit n tr = Inr (moved, n', tr')"
  shows "if moved then may_commit n (commit_index (state n')) \<and>
       (\<forall>j. may_commit n j \<longrightarrow> j \<le> commit_index (state n')) \<and>
       advanced_commit_index tr' = Some (commit_index (state n')) \<and> log (state n') = log (state n)
     else n' = n \<and> tr' = tr \<and> (\<forall>j. \<not> may_commit n j)"
  by (rule advance_commit_cases [OF assms])

theorem advance_commit_highest_witness:
  "\<exists>n' tr'. advance_commit sample_ready empty_transition = Inr (True, n', tr') \<and> may_commit sample_ready 1 \<and>
     commit_index (state n') = 1"
proof -
  have "commit_search (committable sample_ready (match_index sample_ready)) (last_index (state sample_ready))
      (commit_index (state sample_ready)) = Some 1"
    by (subst commit_search.simps)
      (simp add: sample_ready_def sample_committed_def sample_appended_def sample_leader_def sample_nodes sample_states
        sample_noop_def committable_def term_at_def offset_for_def sample_quorums replicated_at_def)
  moreover have "\<exists>d. derive_membership (base_voters sample_ready) (log (state sample_ready)) 1 (limits sample_ready) = Inr d"
    by (simp add: sample_ready_def sample_committed_def sample_appended_def sample_leader_def sample_nodes sample_noop_def
        derive_membership_def derive_step_def sample_kinds)
  ultimately obtain n' tr' where adv: "advance_commit sample_ready empty_transition = Inr (True, n', tr')"
      "commit_index (state n') = 1"
    by (auto simp: advance_commit_def)
  with advance_commit_highest [OF adv(1)] show ?thesis by auto
qed

text \<open>C4: the success path of \<^verbatim>\<open>receive\<close>, which computes the new progress, the commit index, the new
  configuration and the messages in local variables before it touches the node, has the effect of the
  plain sequence: record the progress, advance the commit index, step down when the committed
  configuration no longer has the leader.\<close>

theorem append_reply_reference:
  assumes "role n = kLeader" and "aer_success m" and "aer_term m = current_term (state n)"
    and "receive faults n source (AppendEntriesReply m) = (n', Inr tr)"
  shows "\<exists>matched moved n1 tr1. match_index n source = Some matched \<and>
    advance_commit (acknowledge n source (max matched (aer_match_index m))) empty_transition = Inr (moved, n1, tr1) \<and>
    n' = (if moved then step_down_if_removed n1 else n1) \<and>
    advanced_commit_index tr = advanced_commit_index tr1"
proof -
  obtain v p where p: "prepare_message n source (AppendEntriesReply m) v = Inr p"
      and c: "commit_message (acknowledgement_fault faults) n source (AppendEntriesReply m) v p = (n', Inr tr)"
    using receive_reply [OF assms(4)] by blast
  obtain matched p0 where m: "match_index n source = Some matched"
      and p0: "prepare_append_success n source matched m = Inr p0"
      and pp: "p = prepare_persistence n source (AppendEntriesReply m) p0"
    using p assms(1-3)
    by (cases "prepare_append_response n source m")
      (auto simp: prepare_message_def prepare_append_response_def split: option.splits)
  obtain moved n1 tr1 where
    r: "advance_commit (acknowledge n source (max matched (aer_match_index m))) empty_transition = Inr (moved, n1, tr1)"
      "advanced_commit_index (transition p0) = advanced_commit_index tr1" "prepared_append_response p0"
      "ap_node (apply_append_response n m p0 False) = (if moved then step_down_if_removed n1 else n1)"
    using append_success_reference [OF p0 assms(1,3) refl] by blast
  have "ap_node (apply_append_response n m p False) = ap_node (apply_append_response n m p0 False)"
    by (simp add: pp prepare_persistence_def apply_append_response_def Let_def applied_def apply_failed_def)
  moreover have "advanced_commit_index (transition p) = advanced_commit_index (transition p0)"
    by (simp add: pp prepare_persistence_def Let_def)
  ultimately have "n' = (if moved then step_down_if_removed n1 else n1)"
      "advanced_commit_index tr = advanced_commit_index tr1"
    using c r by (auto simp: commit_message_def apply_message_def assms Let_def apply_append_response_def applied_def
        apply_failed_def split: if_splits)
  with m r show ?thesis by blast
qed

theorem append_reply_reference_witness:
  "\<exists>matched moved n1 tr1. match_index sample_appended 2 = Some matched \<and>
    advance_commit (acknowledge sample_appended 2 (max matched 1)) empty_transition = Inr (moved, n1, tr1) \<and>
    sample_committed = (if moved then step_down_if_removed n1 else n1)"
proof -
  obtain tr where "receive no_faults sample_appended 2 (AppendEntriesReply sample_ack) = (sample_committed, Inr tr)"
    using sample_ack_step by blast
  moreover have "role sample_appended = kLeader" "aer_success sample_ack"
    "aer_term sample_ack = current_term (state sample_appended)" "aer_match_index sample_ack = 1"
    by (simp_all add: sample_appended_def sample_leader_def sample_nodes sample_ack_def)
  ultimately show ?thesis
    using append_reply_reference [of sample_appended sample_ack no_faults 2 sample_committed tr] by metis
qed

text \<open>C5: a vote is granted exactly when the voter is itself in the configuration, the request is not of an
  older term, the voter has no other vote in that term, and the candidate's log is at least as
  recent; a granted vote is part of the state that the runtime makes durable before it sends the
  response.\<close>

theorem vote_granted:
  assumes "receive faults n source (RequestVote m) = (n', Inr tr)"
  shows "\<exists>ok. outbound tr = [\<lparr>destination = source, message =
      RequestVoteReply \<lparr>rvr_term = max (current_term (state n)) (rv_term m), granted = ok\<rparr>\<rparr>] \<and>
    (ok \<longleftrightarrow> voter n (node_id n) \<and> current_term (state n) \<le> rv_term m \<and>
       (current_term (state n) < rv_term m \<or> voted_for (state n) \<in> {None, Some source}) \<and>
       candidate_log_is_current (state n) (last_log_index m) (last_log_term m)) \<and>
    (ok \<longrightarrow> voted_for (state n') = Some source \<and> current_term (state n') = rv_term m \<and>
       persistent_state tr = Some (state n'))"
  by (rule vote_reply_granted [OF assms])

theorem vote_granted_witness:
  "voter (sample_node\<lparr>node_id := 2\<rparr>) 2 \<and> candidate_log_is_current empty_state 0 0 \<and>
   voted_for (state sample_supporter) = Some 1"
  using vote_granted [OF sample_vote]
  by (auto simp: sample_reply_def sample_nodes sample_request_def sample_states)



section \<open>A follower's commit index\<close>


end
