(* ===== verification/Raft_Replication.thy ===== *)
theory Raft_Replication
  imports Raft_Decisions
begin

text \<open>
  What a follower's log holds after it accepted a request of the leader.
\<close>

section \<open>The scanned entries\<close>

lemma scan_agrees:
  "find_first_conflict st j es = Inr r \<Longrightarrow> k < (case r of None \<Rightarrow> length es | Some i \<Rightarrow> i - j) \<Longrightarrow>
   k < length es \<and> term_at st (entry_index (es ! k)) = Some (entry_term (es ! k)) \<and>
   log st ! offset_for st (entry_index (es ! k)) = es ! k"
proof (induction es arbitrary: j k)
  case (Cons e es)
  show ?case
  proof (cases "term_at st (entry_index e) = Some (entry_term e)")
    case True
    then have e: "log st ! offset_for st (entry_index e) = e" "find_first_conflict st (Suc j) es = Inr r"
      using Cons.prems(1) by (auto simp: Let_def split: if_splits)
    show ?thesis
    proof (cases k)
      case 0
      with True e show ?thesis by simp
    next
      case (Suc k')
      have "k' < (case r of None \<Rightarrow> length es | Some i \<Rightarrow> i - Suc j)"
        using Cons.prems(2) Suc by (auto split: option.splits)
      with Cons.IH [OF e(2) this] Suc show ?thesis by simp
    qed
  next
    case False
    then have "r = Some j"
      using Cons.prems(1) by (auto simp: Let_def split: if_splits)
    with Cons.prems(2) show ?thesis by simp
  qed
qed simp

lemma contiguous_of_valid:
  assumes "append_valid n m v"
  shows "log_contiguous ((state n)\<lparr>log := validated_append_log v\<rparr>)"
  using assms by (simp add: append_valid_def Let_def log_wf_def log_contiguous_def)

lemma validated_append_Some:
  assumes "validate_append_entries n active source m = Inr (Some v)"
  shows "validated_append_log v = merge_entries (log (state n)) (ae_entries m) \<and>
    (\<exists>r. find_first_conflict (state n) 0 (ae_entries m) = Inr r) \<and> predecessor_matches (state n) m \<and>
    contiguous (previous_log_index m) (ae_entries m) \<and>
    validated_append_commit v = max (commit_index (state n)) (min (leader_commit m)
      (last_index ((state n)\<lparr>log := validated_append_log v\<rparr>)))"
proof -
  have "check_append_entries (previous_log_index m) (ae_term m) (limits n) (ae_entries m) = kOk"
    "previous_log_index m \<noteq> - 1" "predecessor_matches (state n) m"
    and suffix: "validate_append_suffix n active source m = Inr (Some v)"
    using assms by (auto simp: validate_append_entries_def Let_def split: if_splits)
  moreover have "validated_append_log v = merge_entries (log (state n)) (ae_entries m) \<and>
      (\<exists>r. find_first_conflict (state n) 0 (ae_entries m) = Inr r)"
    using suffix by (auto simp: validate_append_suffix_def Let_def split: sum.splits if_splits)
  moreover have "validated_append_commit v = max (commit_index (state n)) (min (leader_commit m)
      (last_index ((state n)\<lparr>log := validated_append_log v\<rparr>)))"
    using suffix by (auto simp: validate_append_suffix_def Let_def last_index_def snapshot_index_def
        split: sum.splits if_splits)
  ultimately show ?thesis
    using checked_entries by blast
qed

text \<open>The merged log holds the entries of the request at their positions and the old entries before them.\<close>

lemma merged_positions:
  assumes wf: "node_wf n" and v: "validate_append_entries n active source m = Inr (Some v)"
  shows "k < length (ae_entries m) \<Longrightarrow>
      unat (previous_log_index m) - unat (snapshot_index (state n)) + k < length (validated_append_log v) \<and>
      validated_append_log v ! (unat (previous_log_index m) - unat (snapshot_index (state n)) + k) = ae_entries m ! k"
    and "j < unat (previous_log_index m) - unat (snapshot_index (state n)) \<Longrightarrow>
      j < length (validated_append_log v) \<and> j < length (log (state n)) \<and>
      validated_append_log v ! j = log (state n) ! j"
proof -
  let ?st = "state n" and ?es = "ae_entries m" and ?p = "unat (previous_log_index m) - unat (snapshot_index (state n))"
  note va = validated_append_Some [OF v]
  note st = state_wfD [OF node_wfD(5) [OF wf]]
  obtain r where scan: "find_first_conflict ?st 0 ?es = Inr r" using va by blast
  have es: "contiguous (previous_log_index m) ?es" and pre: "predecessor_matches ?st m" using va by blast+
  note range = predecessor_range [OF pre st(1)]
  note merged = merge_scan [OF st(1-3) es range scan]
  have len: "?p \<le> length (log ?st)" "unat (snapshot_index ?st) \<le> unat (previous_log_index m)"
    using range last_index_unat [OF st(1)] by (auto simp: word_le_nat_alt)
  have off: "offset_for ?st (entry_index (?es ! k)) = ?p + k" if "k < length ?es" for k
  proof -
    have i: "unat (entry_index (?es ! k)) = unat (previous_log_index m) + k + 1"
      using contiguous_nth [OF es that] .
    then have "snapshot_index ?st < entry_index (?es ! k)"
      using len(2) by (simp add: word_less_nat_alt)
    then show ?thesis
      using offset_for_exact [of ?st "entry_index (?es ! k)"] i len(2) by simp
  qed
  have same: "?p + k < length (log ?st) \<and> log ?st ! (?p + k) = ?es ! k"
    if "k < (case r of None \<Rightarrow> length ?es | Some i \<Rightarrow> i)" for k
  proof -
    have "k < (case r of None \<Rightarrow> length ?es | Some i \<Rightarrow> i - 0)"
      using that by (simp split: option.splits)
    note a = scan_agrees [OF scan this]
    have "snapshot_index ?st < entry_index (?es ! k)"
      using contiguous_nth [OF es, of k] a len(2) by (simp add: word_less_nat_alt)
    then have "entry_index (?es ! k) \<le> last_index ?st"
      using a by (auto simp: term_at_above [OF st(1)] split: if_splits)
    then have "?p + k < length (log ?st)"
      using contiguous_nth [OF es, of k] a last_index_unat [OF st(1)] len(2) by (simp add: word_le_nat_alt)
    moreover have "offset_for ?st (entry_index (?es ! k)) = ?p + k"
      using off a by blast
    ultimately show ?thesis
      using a by simp
  qed
  show "?p + k < length (validated_append_log v) \<and> validated_append_log v ! (?p + k) = ?es ! k" if k: "k < length ?es"
  proof (cases r)
    case None
    with merged same [of k] k va show ?thesis by simp
  next
    case (Some i)
    then have i: "i < length ?es" "validated_append_log v = take (?p + i) (log ?st) @ drop i ?es"
      using merged va off by auto
    have "?p + i \<le> length (log ?st)"
      using same [of "i - 1"] Some len(1) by (cases i) auto
    with i k same [of k] Some show ?thesis
      by (cases "k < i") (auto simp: nth_append)
  qed
  show "j < length (validated_append_log v) \<and> j < length (log ?st) \<and> validated_append_log v ! j = log ?st ! j"
    if j: "j < ?p"
  proof (cases r)
    case None
    with merged va j len show ?thesis by simp
  next
    case (Some i)
    then have i: "i < length ?es" "validated_append_log v = take (?p + i) (log ?st) @ drop i ?es"
      using merged va off by auto
    with j len show ?thesis by (auto simp: nth_append)
  qed
qed

lemma accepted_entries:
  assumes wf: "node_wf n" and v: "validate_append_entries n active source m = Inr (Some v)"
    and st': "snapshot st' = snapshot (state n)" "log st' = validated_append_log v"
  shows "\<forall>e \<in> set (ae_entries m). entry_at st' (entry_index e) = Some e"
    and "i \<le> previous_log_index m \<Longrightarrow> entry_at st' i = entry_at (state n) i"
proof -
  note va = validated_append_Some [OF v]
  have cont: "log_contiguous st'"
    using contiguous_of_valid [OF validated_append(1) [OF wf v refl]] st' by (simp add: log_contiguous_def snapshot_index_def)
  have snap: "snapshot_index st' = snapshot_index (state n)"
    using st'(1) by (simp add: snapshot_index_def)
  note st = state_wfD [OF node_wfD(5) [OF wf]]
  have le: "unat (snapshot_index (state n)) \<le> unat (previous_log_index m)"
    using predecessor_range [OF _ st(1)] va by (simp add: word_le_nat_alt)
  show "\<forall>e \<in> set (ae_entries m). entry_at st' (entry_index e) = Some e"
  proof
    fix e assume "e \<in> set (ae_entries m)"
    then obtain k where k: "k < length (ae_entries m)" "ae_entries m ! k = e"
      by (auto simp: in_set_conv_nth)
    have "unat (entry_index e) = unat (previous_log_index m) + k + 1"
      using contiguous_nth [of "previous_log_index m" "ae_entries m" k] va k by blast
    with merged_positions(1) [OF wf v k(1)] k st' snap le show "entry_at st' (entry_index e) = Some e"
      unfolding entry_at_nth [OF cont]
      by (intro exI [of _ "unat (previous_log_index m) - unat (snapshot_index (state n)) + k"]) simp
  qed
  show "entry_at st' i = entry_at (state n) i" if i: "i \<le> previous_log_index m"
  proof -
    have "j < unat (previous_log_index m) - unat (snapshot_index (state n))"
      if "unat i = unat (snapshot_index (state n)) + j + 1" for j
      using i that by (simp add: word_le_nat_alt)
    then have "entry_at st' i = Some e \<longleftrightarrow> entry_at (state n) i = Some e" for e
      unfolding entry_at_nth [OF cont] entry_at_nth [OF st(1)] snap st'(2) using merged_positions(2) [OF wf v] by metis
    then show ?thesis
      by (metis not_Some_eq)
  qed
qed

section \<open>Properties\<close>

text \<open>C2: a follower that accepts an append request holds every entry of the request at its index and
  keeps its own entries up to the predecessor; it adopts the leader and its term, raises its commit
  index to at most the leader's, and confirms exactly the last index of the request.\<close>

theorem append_accepted:
  assumes "node_wf n" and "receive faults n source (AppendEntries m) = (n', Inr tr)"
    and "current_term (state n) \<le> ae_term m" and "predecessor_matches (state n) m"
  shows "(\<forall>e \<in> set (ae_entries m). entry_at (state n') (entry_index e) = Some e) \<and>
    (\<forall>i. i \<le> previous_log_index m \<longrightarrow> entry_at (state n') i = entry_at (state n) i) \<and>
    current_term (state n') = ae_term m \<and> role n' = kFollower \<and> leader_id n' = Some source \<and>
    commit_index (state n') = max (commit_index (state n)) (min (leader_commit m) (last_index (state n'))) \<and>
    outbound tr = [append_reply source (ae_term m) True
      (if ae_entries m = [] then previous_log_index m else entry_index (last (ae_entries m))) None 0]"
proof -
  obtain v p where v: "validate_message n (voter n source) source (AppendEntries m) = Inr v"
      and p: "prepare_message n source (AppendEntries m) v = Inr p"
      and c: "commit_message (acknowledgement_fault faults) n source (AppendEntries m) v p = (n', Inr tr)"
    using receive_reply [OF assms(2)] by blast
  have ge: "\<not> ae_term m < current_term (state n)"
    using assms(3) by simp
  have v': "validate_append_entries n (voter n source) source m = Inr v"
    using v by (simp add: validate_message_def split: if_splits)
  obtain va where va: "v = Some va"
    using validated_append(2) [OF assms(1) v' assms(3,4)] by blast
  note v'' = v' [unfolded va]
  note valid = validated_append(1) [OF assms(1) v'' refl]
  have p': "prepare_append_request n source m v = Inr p"
    using p by (simp add: prepare_message_def)
  define st' where "st' = (state n)\<lparr>current_term := ae_term m,
    voted_for := if current_term (state n) < ae_term m then None else voted_for (state n),
    log := validated_append_log va, commit_index := validated_append_commit va\<rparr>"
  note run = append_accepted_run [OF ge assms(4) va valid p' st'_def refl refl]
  have new: "n' = install_membership (become_follower (n\<lparr>state := st'\<rparr>) (ae_term m) (Some source)) (validated_membership va)"
    and tr: "tr = transition p"
    using c unfolding run(1) by simp_all
  have n': "state n' = st'" "role n' = kFollower" "leader_id n' = Some source"
    using run(3) unfolding new by simp_all
  have "snapshot st' = snapshot (state n)" "log st' = validated_append_log va"
    by (simp_all add: st'_def)
  note entries = accepted_entries [OF assms(1) v'' this]
  have "commit_index st' = max (commit_index (state n)) (min (leader_commit m) (last_index st'))"
    using validated_append_Some [OF v''] by (simp add: st'_def last_index_def snapshot_index_def)
  moreover have "current_term st' = ae_term m"
    by (simp add: st'_def)
  ultimately show ?thesis
    using entries run(6) by (simp add: n' tr)
qed

theorem append_accepted_witness:
  "entry_at (state sample_follower) 1 = Some sample_noop \<and> role sample_follower = kFollower"
proof -
  obtain tr where step: "receive no_faults sample_supporter 1 (AppendEntries sample_append) = (sample_follower, Inr tr)"
    using sample_follower_step by blast
  have "current_term (state sample_supporter) \<le> ae_term sample_append"
    "predecessor_matches (state sample_supporter) sample_append"
    by (simp_all add: sample_nodes sample_append_def predecessor_matches_def append_predecessor_term_def term_at_def
        sample_states)
  note accepted = append_accepted [OF sample_wf(6) step this]
  moreover have "ae_entries sample_append = [sample_noop]" "entry_index sample_noop = 1"
    by (simp_all add: sample_append_def sample_noop_def)
  ultimately show ?thesis by simp
qed

end
