(* ===== verification/Raft_Election.thy ===== *)
theory Raft_Election
  imports Raft_Replication
begin

text \<open>
  How the operations of a node change its role and which votes they send: the facts about one node
  that the election argument over a cluster uses.
\<close>

section \<open>Definitions\<close>


text \<open>A node that stays in its term, in its role or as a follower.\<close>

definition steady :: "RaftNode \<Rightarrow> RaftNode \<Rightarrow> bool" where
  "steady n n' = (current_term (state n') = current_term (state n) \<and> role n' \<in> {role n, kFollower})"

text \<open>A call of the owner starts an election, or leaves the role and the term.\<close>

definition election_started :: "RaftNode \<Rightarrow> RaftNode \<Rightarrow> bool" where
  "election_started n n' =
     (current_term (state n) \<noteq> - 1 \<and> current_term (state n') = current_term (state n) + 1 \<and>
      voted_for (state n') = Some (node_id n) \<and> votes n' = {node_id n} \<and>
      (role n' = kLeader \<longrightarrow> configuration_quorum n (\<lambda>node. node \<in> votes n')))"

text \<open>Messages without a vote response.\<close>

definition no_votes :: "OutboundMessage list \<Rightarrow> bool" where
  "no_votes out = list_all (\<lambda>o'. \<forall>m. message o' \<noteq> RequestVoteReply m) out"

section \<open>Roles\<close>

lemma steady_refl [simp]: "steady n n"
  by (simp add: steady_def)

lemma steady_trans: "steady a b \<Longrightarrow> steady b c \<Longrightarrow> steady a c"
  by (auto simp: steady_def)

lemma advance_commit_steady: "advance_commit n tr = Inr (moved, n', tr') \<Longrightarrow> steady n n'"
  by (auto simp: steady_def advance_commit_def make_unexpected_def split: option.splits sum.splits if_splits)

lemma step_down_steady [simp]: "steady n (step_down_if_removed n)"
  by (simp add: step_down_if_removed_def steady_def)

lemma record_self_progress_steady: "record_self_progress n i = Inr n' \<Longrightarrow> steady n n'"
  by (auto simp: record_self_progress_def steady_def split: if_splits)

lemma install_membership_steady [simp]: "steady n (install_membership n d)"
  by (simp add: steady_def)

lemma push_entry_steady [simp]: "steady n (push_entry n t p)"
  by (simp add: steady_def)

lemma append_local_entry_steady:
  assumes "append_local_entry n t p = Inr (n', tr)"
  shows "steady n n'"
proof -
  obtain n1 moved tr1 where "record_self_progress (push_entry n t p) (last_index (state n) + 1) = Inr n1"
      "advance_commit n1 empty_transition = Inr (moved, n', tr1)"
    using assms by (auto simp: append_local_entry_def Let_def split: sum.splits option.splits)
  then show ?thesis
    using push_entry_steady record_self_progress_steady advance_commit_steady by (metis steady_trans)
qed

lemma append_membership_entry_steady:
  assumes "append_membership_entry n t p = Inr (n', tr)"
  shows "steady n n'"
proof -
  obtain d n2 moved n3 tr1 where "record_self_progress (install_membership (push_entry n t p) d) (last_index (state n) + 1) = Inr n2"
      "advance_commit n2 empty_transition = Inr (moved, n3, tr1)" "n' = step_down_if_removed n3"
    using assms by (auto simp: append_membership_entry_def Let_def split: sum.splits option.splits)
  then show ?thesis
    using push_entry_steady install_membership_steady record_self_progress_steady advance_commit_steady
      step_down_steady by (metis steady_trans)
qed

text \<open>The operations that only a leader may start.\<close>

lemma leader_calls:
  "propose fault n t payload = (n', Inr tr) \<Longrightarrow> role n = kLeader \<and> steady n n'"
  "commit_current_term fault n = (n', Inr tr) \<Longrightarrow> role n = kLeader \<and> steady n n'"
  "append_membership_command n t command = (n', Inr tr) \<Longrightarrow> steady n n'"
  by (auto simp: propose_def commit_current_term_def append_membership_command_def install_prepared_def Let_def
      append_local_entry_steady append_membership_entry_steady split: if_splits sum.splits)

lemma leader_calls_more:
  "propose_exact_retained fault n t payload = (n', Inr tr) \<Longrightarrow> role n = kLeader \<and> steady n n'"
  "begin_membership_change fault retry_fault n vs = (n', Inr tr) \<Longrightarrow> role n = kLeader \<and> steady n n'"
  "finalize_membership_change fault retry_fault n = (n', Inr tr) \<Longrightarrow> role n = kLeader \<and> steady n n'"
  by (auto simp: propose_exact_retained_def begin_membership_change_def finalize_membership_change_def Let_def
      dest: leader_calls split: if_splits option.splits bool.splits)

lemma start_election_started:
  "start_election fault n = (n', Inr tr) \<Longrightarrow> election_started n n'"
  by (auto simp: start_election_def election_started_def Let_def split: if_splits)

lemma leader_steady_kept: "role n = kLeader \<and> steady n n' \<Longrightarrow> role n' \<noteq> kFollower \<Longrightarrow>
    role n' = role n \<and> current_term (state n') = current_term (state n) \<and> (role n = kCandidate \<longrightarrow> votes n' = votes n)"
  by (auto simp: steady_def)

lemma quiet_calls:
  "complete_snapshot_install fault n source s installed = (n', Inr tr) \<Longrightarrow> role_kept n n'"
  "compact_snapshot prepare_fault fault n s = (n', Inr tr) \<Longrightarrow> role_kept n n'"
  "heartbeat n = (n', Inr tr) \<Longrightarrow> role_kept n n'"
  "begin_read_barrier fault n = (n', Inr tr) \<Longrightarrow> role_kept n n'"
  "mark_applied fault n i = (n', Inr tr) \<Longrightarrow> role_kept n n'"
  by (auto simp: role_kept_def complete_snapshot_install_def compact_snapshot_def heartbeat_def begin_read_barrier_def
      mark_applied_def Let_def split: if_splits option.splits sum.splits)

lemma local_call_role:
  assumes "local_call n r" and "r = (n', Inr tr)" and "role n' \<noteq> kFollower"
  shows "election_started n n' \<or>
    (role n' = role n \<and> current_term (state n') = current_term (state n) \<and> (role n = kCandidate \<longrightarrow> votes n' = votes n))"
  using assms(1,2)
proof (cases rule: local_call.cases)
  case (call_start_election fault)
  with assms(2) start_election_started [of fault n n' tr] show ?thesis by simp
next
  case (call_complete_snapshot_install fault source s installed)
  with assms quiet_calls(1) [of fault n source s installed n' tr] show ?thesis by (simp add: role_kept_def)
next
  case (call_compact_snapshot prepare_fault fault s)
  with assms quiet_calls(2) [of prepare_fault fault n s n' tr] show ?thesis by (simp add: role_kept_def)
next
  case call_heartbeat
  with assms quiet_calls(3) [of n n' tr] show ?thesis by (simp add: role_kept_def)
next
  case (call_begin_read_barrier fault)
  with assms quiet_calls(4) [of fault n n' tr] show ?thesis by (simp add: role_kept_def)
next
  case (call_mark_applied fault i)
  with assms quiet_calls(5) [of fault n i n' tr] show ?thesis by (simp add: role_kept_def)
qed (use assms leader_steady_kept [OF leader_calls(1)] leader_steady_kept [OF leader_calls(2)]
    leader_steady_kept [OF leader_calls_more(1)] leader_steady_kept [OF leader_calls_more(2)]
    leader_steady_kept [OF leader_calls_more(3)] in metis)+

section \<open>Votes\<close>

lemma no_votes_simps [simp]:
  "no_votes []" "no_votes (x # xs) \<longleftrightarrow> (\<forall>m. message x \<noteq> RequestVoteReply m) \<and> no_votes xs"
  "no_votes (xs @ ys) \<longleftrightarrow> no_votes xs \<and> no_votes ys"
  "no_votes (vote_requests n t)" "no_votes (leader_announcements n t)" "no_votes (barrier_probes n)"
  "message (snapshot_response d t b i) \<noteq> RequestVoteReply m" "message (append_reply d t b i c k) \<noteq> RequestVoteReply m"
  by (auto simp: no_votes_def list_all_iff vote_requests_def leader_announcements_def barrier_probes_def
      snapshot_response_def append_reply_def)

lemma replication_for_no_vote: "replication_for n peer nxt c = Some m \<Longrightarrow> m \<noteq> RequestVoteReply m'"
  by (auto simp: replication_for_def Let_def split: option.splits if_splits)

lemma replicate_to_no_votes: "replicate_to n ps nxt c = Some out \<Longrightarrow> no_votes out"
  by (induction ps arbitrary: out)
    (auto dest: replication_for_no_vote split: if_splits option.splits)

lemma append_to_all_no_votes: "append_to_all n = Some out \<Longrightarrow> no_votes out"
  by (simp add: append_to_all_def replicate_to_no_votes)

lemma append_entry_no_votes:
  "append_local_entry n t p = Inr (n', tr) \<Longrightarrow> no_votes (outbound tr)"
  "append_membership_entry n t p = Inr (n', tr) \<Longrightarrow> no_votes (outbound tr)"
  by (auto simp: append_local_entry_def append_membership_entry_def Let_def append_to_all_no_votes
      split: sum.splits option.splits)

lemma empty_no_votes [simp]: "no_votes (outbound empty_transition)"
  by simp

lemma leader_calls_no_votes:
  "propose fault n t payload = (n', Inr tr) \<Longrightarrow> no_votes (outbound tr)"
  "commit_current_term fault n = (n', Inr tr) \<Longrightarrow> no_votes (outbound tr)"
  "append_membership_command n t command = (n', Inr tr) \<Longrightarrow> no_votes (outbound tr)"
  by (auto simp: propose_def commit_current_term_def append_membership_command_def install_prepared_def Let_def
      append_entry_no_votes split: if_splits sum.splits)

lemma leader_calls_more_no_votes:
  "propose_exact_retained fault n t payload = (n', Inr tr) \<Longrightarrow> no_votes (outbound tr)"
  "begin_membership_change fault retry_fault n vs = (n', Inr tr) \<Longrightarrow> no_votes (outbound tr)"
  "finalize_membership_change fault retry_fault n = (n', Inr tr) \<Longrightarrow> no_votes (outbound tr)"
  by (auto simp: propose_exact_retained_def begin_membership_change_def finalize_membership_change_def Let_def
      dest: leader_calls_no_votes split: if_splits option.splits bool.splits)

lemma quiet_calls_no_votes:
  "complete_snapshot_install fault n source s installed = (n', Inr tr) \<Longrightarrow> no_votes (outbound tr)"
  "compact_snapshot prepare_fault fault n s = (n', Inr tr) \<Longrightarrow> no_votes (outbound tr)"
  "heartbeat n = (n', Inr tr) \<Longrightarrow> no_votes (outbound tr)"
  "begin_read_barrier fault n = (n', Inr tr) \<Longrightarrow> no_votes (outbound tr)"
  "mark_applied fault n i = (n', Inr tr) \<Longrightarrow> no_votes (outbound tr)"
  "start_election fault n = (n', Inr tr) \<Longrightarrow> no_votes (outbound tr)"
  by (auto simp: complete_snapshot_install_def compact_snapshot_def heartbeat_def begin_read_barrier_def
      mark_applied_def start_election_def Let_def append_to_all_no_votes split: if_splits option.splits sum.splits)

lemma local_call_no_votes:
  assumes "local_call n r" and "r = (n', Inr tr)"
  shows "no_votes (outbound tr)"
  using assms
  by (cases rule: local_call.cases)
    (metis leader_calls_no_votes leader_calls_more_no_votes quiet_calls_no_votes)+

lemma prepared_no_votes:
  assumes "prepare_message n source msg v = Inr p" and "\<And>m. msg \<noteq> RequestVote m"
  shows "no_votes (outbound (transition p))"
proof (cases msg)
  case (RequestVote m)
  then show ?thesis using assms(2) [of m] by simp
next
  case (AppendEntriesReply m)
  then obtain p0 where p0: "prepare_append_response n source m = Inr p0" "outbound (transition p) = outbound (transition p0)"
    using assms(1) by (cases "prepare_append_response n source m") (auto simp: prepare_message_def)
  then show ?thesis
    unfolding p0(2) using p0(1)
    by (auto simp: prepare_append_response_def prepare_append_success_def prepare_append_failure_def Let_def
        dest: replicate_to_no_votes replication_for_no_vote split: if_splits option.splits sum.splits prod.splits)
qed (use assms(1) in \<open>auto simp: prepare_message_def prepare_vote_response_def prepare_append_request_def
      prepare_append_accept_def append_rejection_def prepare_install_request_def prepare_snapshot_response_def Let_def
      dest: replication_for_no_vote split: if_splits option.splits sum.splits\<close>)

lemma receive_votes:
  assumes "receive faults n source msg = (n', Inr tr)" and "o' \<in> set (outbound tr)"
    and "message o' = RequestVoteReply reply" and "granted reply"
  shows "destination o' = source \<and> voted_for (state n') = Some source \<and> rvr_term reply = current_term (state n')"
proof (cases "\<exists>m. msg = RequestVote m")
  case True
  then obtain m where "msg = RequestVote m" by blast
  with vote_reply_granted [of faults n source m n' tr] assms show ?thesis
    by (auto simp: max_def)
next
  case False
  obtain v p where p: "prepare_message n source msg v = Inr p"
      and c: "commit_message (acknowledgement_fault faults) n source msg v p = (n', Inr tr)"
    using receive_reply [OF assms(1)] by blast
  have "no_votes (outbound (transition p))"
    using False by (intro prepared_no_votes [OF p]) blast
  then have "no_votes (outbound (ap_transition (apply_message fault k source msg v p c)))" for fault k c
    by (auto simp: apply_message_def apply_request_vote_def apply_vote_response_def apply_append_request_def
        apply_append_response_def apply_install_request_def apply_snapshot_response_def apply_barrier_probe_def
        apply_barrier_response_def finish_read_barrier_def applied_def apply_failed_def Let_def
        split: Message.splits option.splits)
  then have "no_votes (outbound tr)"
    using c by (auto simp: commit_message_def Let_def split: if_splits)
  with assms show ?thesis
    by (auto simp: no_votes_def list_all_iff)
qed

end
