(* ===== verification/Raft_Cluster.thy ===== *)
theory Raft_Cluster
  imports Raft_Election
begin

text \<open>
  A cluster of nodes over a network that may lose, duplicate, delay and reorder messages, with nodes
  that crash and restart from their durable state at any time. The nodes run the operations of the
  source; the history of votes and of leaders is recorded next to them.
\<close>

section \<open>Definitions\<close>

record Cluster =
  nodes :: "NodeId \<rightharpoonup> RaftNode"
  network :: "(NodeId \<times> NodeId \<times> Message) set"
  ballots :: "(NodeId \<times> Term \<times> NodeId) set"
  elected :: "(Term \<times> NodeId) set"

text \<open>The messages that a step sends. The durable runtime releases them after the state is durable,
  so the step and its messages are one event; a crash before the release is a message that is never
  delivered.\<close>

definition sent_by :: "NodeId \<Rightarrow> Transition outcome \<Rightarrow> (NodeId \<times> NodeId \<times> Message) set" where
  "sent_by p out =
     (case out of Inl f \<Rightarrow> {} | Inr tr \<Rightarrow> (\<lambda>m. (p, destination m, message m)) ` set (outbound tr))"

definition cluster_step :: "NodeId \<Rightarrow> RaftNode \<Rightarrow> Transition outcome \<Rightarrow> Cluster \<Rightarrow> Cluster" where
  "cluster_step p n out c =
     c\<lparr>nodes := (nodes c)(p \<mapsto> n), network := network c \<union> sent_by p out,
       ballots := ballots c \<union> {(p, current_term (state n), v) | v. voted_for (state n) = Some v},
       elected := elected c \<union> (if role n = kLeader then {(current_term (state n), p)} else {})\<rparr>"

definition stable_voters :: "NodeId list \<Rightarrow> RaftNode \<Rightarrow> bool" where
  "stable_voters vs n = (joint n = None \<and> committed_voters n = vs)"

text \<open>The reachable clusters with a fixed configuration: no step installs another one.\<close>

inductive cluster :: "NodeId list \<Rightarrow> Cluster \<Rightarrow> bool" where
  cluster_start: "(\<And>p n. nodes c p = Some n \<Longrightarrow> \<exists>lim. create p vs empty_state lim = Inr n) \<Longrightarrow>
    network c = {} \<Longrightarrow> ballots c = {} \<Longrightarrow> elected c = {} \<Longrightarrow> cluster vs c"
| cluster_deliver: "cluster vs c \<Longrightarrow> nodes c p = Some n \<Longrightarrow> (q, p, msg) \<in> network c \<Longrightarrow>
    receive faults n q msg = (n', out) \<Longrightarrow> stable_voters (sort vs) n' \<Longrightarrow> cluster vs (cluster_step p n' out c)"
| cluster_local: "cluster vs c \<Longrightarrow> nodes c p = Some n \<Longrightarrow> local_call n (n', out) \<Longrightarrow>
    stable_voters (sort vs) n' \<Longrightarrow> cluster vs (cluster_step p n' out c)"
| cluster_restart: "cluster vs c \<Longrightarrow> nodes c p = Some n \<Longrightarrow>
    create p vs' (state n) (limits n) = Inr n' \<Longrightarrow> stable_voters (sort vs) n' \<Longrightarrow>
    cluster vs (c\<lparr>nodes := (nodes c)(p \<mapsto> n')\<rparr>)"

definition ballot_wf :: "Cluster \<Rightarrow> bool" where
  "ballot_wf c =
     ((\<forall>p t v. (p, t, v) \<in> ballots c \<longrightarrow>
         (\<exists>n. nodes c p = Some n \<and> t \<le> current_term (state n) \<and>
              (t = current_term (state n) \<longrightarrow> voted_for (state n) = Some v))) \<and>
      (\<forall>p t v v'. (p, t, v) \<in> ballots c \<longrightarrow> (p, t, v') \<in> ballots c \<longrightarrow> v' = v))"

definition network_wf :: "Cluster \<Rightarrow> bool" where
  "network_wf c =
     (\<forall>p q m. (p, q, RequestVoteReply m) \<in> network c \<longrightarrow> granted m \<longrightarrow> (p, rvr_term m, q) \<in> ballots c)"

definition nodes_wf :: "NodeId list \<Rightarrow> Cluster \<Rightarrow> bool" where
  "nodes_wf vs c =
     (\<forall>p n. nodes c p = Some n \<longrightarrow>
        node_wf n \<and> node_id n = p \<and> stable_voters vs n \<and>
        (role n = kCandidate \<longrightarrow> (\<forall>q \<in> votes n. (q, current_term (state n), p) \<in> ballots c)) \<and>
        (role n = kLeader \<longrightarrow> (current_term (state n), p) \<in> elected c))"

definition leaders_wf :: "NodeId list \<Rightarrow> Cluster \<Rightarrow> bool" where
  "leaders_wf vs c =
     (\<forall>t p. (t, p) \<in> elected c \<longrightarrow> has_majority vs (\<lambda>q. (q, t, p) \<in> ballots c))"

definition cluster_wf :: "NodeId list \<Rightarrow> Cluster \<Rightarrow> bool" where
  "cluster_wf vs c = (ballot_wf c \<and> network_wf c \<and> nodes_wf vs c \<and> leaders_wf vs c)"

text \<open>What a step has to do for the role it leaves the node in: keep it in its term, or have the
  votes for it.\<close>

definition role_earned :: "NodeId list \<Rightarrow> Cluster \<Rightarrow> RaftNode \<Rightarrow> RaftNode \<Rightarrow> bool" where
  "role_earned vs c n n' =
     ((role n' = role n \<and> current_term (state n') = current_term (state n) \<and>
         (role n = kCandidate \<longrightarrow> votes n' = votes n)) \<or>
      ((\<forall>q \<in> votes n'. (q, current_term (state n'), node_id n) \<in> ballots c) \<and>
       (role n' = kLeader \<longrightarrow> has_majority vs (\<lambda>q. q \<in> votes n'))))"

text \<open>A cluster of three nodes in which node 1 is elected with the vote of node 2.\<close>

definition sample_start :: Cluster where
  "sample_start = \<lparr>nodes = [1 \<mapsto> sample_node, 2 \<mapsto> sample_node\<lparr>node_id := 2\<rparr>], network = {}, ballots = {}, elected = {}\<rparr>"

definition sample_asked :: Cluster where
  "sample_asked = cluster_step 1 sample_candidate (Inr (empty_transition\<lparr>outbound :=
     [\<lparr>destination = 2, message = RequestVote sample_request\<rparr>, \<lparr>destination = 3, message = RequestVote sample_request\<rparr>],
     persistent_state := Some (state sample_candidate)\<rparr>)) sample_start"

definition sample_voted :: Cluster where
  "sample_voted = cluster_step 2 sample_supporter (Inr (empty_transition\<lparr>outbound :=
     [\<lparr>destination = 1, message = RequestVoteReply sample_reply\<rparr>],
     persistent_state := Some (state sample_supporter)\<rparr>)) sample_asked"

definition sample_elected :: Cluster where
  "sample_elected = (case receive no_faults sample_candidate 2 (RequestVoteReply sample_reply) of
     (n, out) \<Rightarrow> cluster_step 1 n out sample_voted)"

section \<open>Preservation\<close>

lemma cluster_step_simps [simp]:
  "nodes (cluster_step p n out c) = (nodes c)(p \<mapsto> n)"
  "network (cluster_step p n out c) = network c \<union> sent_by p out"
  "ballots (cluster_step p n out c) = ballots c \<union> {(p, current_term (state n), v) | v. voted_for (state n) = Some v}"
  "elected (cluster_step p n out c) = elected c \<union> (if role n = kLeader then {(current_term (state n), p)} else {})"
  by (simp_all add: cluster_step_def)

lemma ballot_step:
  assumes wf: "ballot_wf c" and n: "nodes c p = Some n"
    and le: "current_term (state n) \<le> current_term (state n')"
    and vote: "current_term (state n') = current_term (state n) \<Longrightarrow> voted_for (state n) \<noteq> None \<Longrightarrow>
      voted_for (state n') = voted_for (state n)"
  shows "ballot_wf (cluster_step p n' out c)"
proof -
  have old: "t \<le> current_term (state n') \<and> (t = current_term (state n') \<longrightarrow> voted_for (state n') = Some v)"
    if "(p, t, v) \<in> ballots c" for t v
  proof -
    have "t \<le> current_term (state n)" "t = current_term (state n) \<longrightarrow> voted_for (state n) = Some v"
      using wf n that unfolding ballot_wf_def by fastforce+
    with le vote show ?thesis by (metis order.antisym order.trans option.distinct(1))
  qed
  have new: "v' = v" if "(p, current_term (state n'), v) \<in> ballots c" "voted_for (state n') = Some v'" for v v'
    using old [OF that(1)] that(2) by simp
  have others: "\<exists>k. nodes c q = Some k \<and> t \<le> current_term (state k) \<and>
      (t = current_term (state k) \<longrightarrow> voted_for (state k) = Some v)" if "(q, t, v) \<in> ballots c" for q t v
    using wf that unfolding ballot_wf_def by blast
  have unique: "v' = v" if "(q, t, v) \<in> ballots c" "(q, t, v') \<in> ballots c" for q t v v'
    using wf that unfolding ballot_wf_def by blast
  show ?thesis
    unfolding ballot_wf_def
  proof (intro conjI allI impI)
    fix q t v
    assume "(q, t, v) \<in> ballots (cluster_step p n' out c)"
    then show "\<exists>k. nodes (cluster_step p n' out c) q = Some k \<and> t \<le> current_term (state k) \<and>
        (t = current_term (state k) \<longrightarrow> voted_for (state k) = Some v)"
      using old others by (cases "q = p") auto
  next
    fix q t v v'
    assume "(q, t, v) \<in> ballots (cluster_step p n' out c)" "(q, t, v') \<in> ballots (cluster_step p n' out c)"
    then show "v' = v"
      using new unique by auto
  qed
qed

lemma cluster_wf_step:
  assumes wf: "cluster_wf vs c" and n: "nodes c p = Some n" and n': "node_wf n'" "node_id n' = p" "stable_voters vs n'"
    and le: "current_term (state n) \<le> current_term (state n')"
    and vote: "current_term (state n') = current_term (state n) \<Longrightarrow> voted_for (state n) \<noteq> None \<Longrightarrow>
      voted_for (state n') = voted_for (state n)"
    and earned: "role n' \<noteq> kFollower \<Longrightarrow> role_earned vs (cluster_step p n' out c) n n'"
    and granted: "\<And>tr m reply. out = Inr tr \<Longrightarrow> m \<in> set (outbound tr) \<Longrightarrow> message m = RequestVoteReply reply \<Longrightarrow>
      granted reply \<Longrightarrow> voted_for (state n') = Some (destination m) \<and> rvr_term reply = current_term (state n')"
  shows "cluster_wf vs (cluster_step p n' out c)"
proof -
  let ?c = "cluster_step p n' out c"
  have wfs: "ballot_wf c" "network_wf c" "nodes_wf vs c" "leaders_wf vs c" and id: "node_id n = p"
    using wf n by (auto simp: cluster_wf_def nodes_wf_def)
  have "(a, rvr_term m, b) \<in> ballots ?c" if sent: "(a, b, RequestVoteReply m) \<in> sent_by p out" "granted m" for a b m
  proof -
    obtain tr o' where "out = Inr tr" "o' \<in> set (outbound tr)" "a = p" "b = destination o'"
        "message o' = RequestVoteReply m"
      using sent(1) by (cases out) (auto simp: sent_by_def)
    with granted [of tr o' m] sent(2) show ?thesis by simp
  qed
  then have "network_wf ?c"
    using wfs(2) unfolding network_wf_def by auto
  moreover have mono: "has_majority vs (\<lambda>q. (q, t, a) \<in> ballots ?c)" if "(t, a) \<in> elected c" for t a
    using wfs(4) that has_majority_mono [of vs "\<lambda>q. (q, t, a) \<in> ballots c"] by (simp add: leaders_wf_def)
  have "nodes_wf vs ?c"
    unfolding nodes_wf_def
  proof (intro allI impI)
    fix q k assume k: "nodes ?c q = Some k"
    show "node_wf k \<and> node_id k = q \<and> stable_voters vs k \<and>
        (role k = kCandidate \<longrightarrow> (\<forall>r \<in> votes k. (r, current_term (state k), q) \<in> ballots ?c)) \<and>
        (role k = kLeader \<longrightarrow> (current_term (state k), q) \<in> elected ?c)"
    proof (cases "q = p")
      case True
      have "\<forall>r \<in> votes n'. (r, current_term (state n'), p) \<in> ballots ?c" if "role n' = kCandidate"
        using earned that wfs(3) n id by (auto simp: role_earned_def nodes_wf_def)
      with True k n' show ?thesis by simp
    next
      case False
      with k wfs(3) show ?thesis by (auto simp: nodes_wf_def)
    qed
  qed
  moreover have "leaders_wf vs ?c"
    unfolding leaders_wf_def
  proof (intro allI impI)
    fix t a assume t: "(t, a) \<in> elected ?c"
    show "has_majority vs (\<lambda>q. (q, t, a) \<in> ballots ?c)"
    proof (cases "(t, a) \<in> elected c")
      case True
      then show ?thesis by (rule mono)
    next
      case False
      with t have lead: "role n' = kLeader" "t = current_term (state n')" "a = p"
        by (auto split: if_splits)
      with False wfs(3) n have "\<not> (role n' = role n \<and> current_term (state n') = current_term (state n))"
        by (auto simp: nodes_wf_def)
      with earned lead id have "\<forall>q \<in> votes n'. (q, t, a) \<in> ballots ?c" "has_majority vs (\<lambda>q. q \<in> votes n')"
        by (auto simp: role_earned_def)
      then show ?thesis
        using has_majority_mono [of vs "\<lambda>q. q \<in> votes n'"] by simp
    qed
  qed
  ultimately show ?thesis
    using ballot_step [OF wfs(1) n le vote] by (simp add: cluster_wf_def)
qed

lemma configuration_quorum_stable: "stable_voters vs n \<Longrightarrow> configuration_quorum n P = has_majority vs P"
  by (simp add: stable_voters_def configuration_quorum_def)

lemma cluster_wf_call:
  assumes wf: "cluster_wf vs c" and n: "nodes c p = Some n" and call: "node_call n (n', out)"
    and stable: "stable_voters vs n'"
    and earned: "\<And>tr. out = Inr tr \<Longrightarrow> role n' \<noteq> kFollower \<Longrightarrow> role_earned vs (cluster_step p n' out c) n n'"
    and granted: "\<And>tr m reply. out = Inr tr \<Longrightarrow> m \<in> set (outbound tr) \<Longrightarrow> message m = RequestVoteReply reply \<Longrightarrow>
      granted reply \<Longrightarrow> voted_for (state n') = Some (destination m) \<and> rvr_term reply = current_term (state n')"
  shows "cluster_wf vs (cluster_step p n' out c)"
proof -
  have node: "node_wf n" "node_id n = p"
    using wf n by (simp_all add: cluster_wf_def nodes_wf_def)
  note ok = node_call_ok [OF call node(1)]
  show ?thesis
  proof (cases out)
    case (Inl f)
    with ok have "n' = n" by (simp add: operation_ok_def)
    with Inl node stable show ?thesis
      by (intro cluster_wf_step [OF wf n]) (simp_all add: role_earned_def)
  next
    case (Inr tr)
    with ok have "node_wf n'" "node_id n' = p" "current_term (state n) \<le> current_term (state n')"
      "current_term (state n') = current_term (state n) \<Longrightarrow> voted_for (state n) \<noteq> None \<Longrightarrow>
        voted_for (state n') = voted_for (state n)"
      using node(2) by (simp_all add: operation_ok_def)
    then show ?thesis
      using earned [OF Inr] granted by (intro cluster_wf_step [OF wf n _ _ stable]) simp_all
  qed
qed

lemma cluster_deliver_wf:
  assumes wf: "cluster_wf vs c" and n: "nodes c p = Some n" and net: "(q, p, msg) \<in> network c"
    and rec: "receive faults n q msg = (n', out)" and stable: "stable_voters vs n'"
  shows "cluster_wf vs (cluster_step p n' out c)"
proof (rule cluster_wf_call [OF wf n _ stable])
  show "node_call n (n', out)"
    using call_receive [of n faults q msg] rec by simp
  have node: "node_id n = p" "stable_voters vs n"
    and votes: "role n = kCandidate \<Longrightarrow> r \<in> votes n \<Longrightarrow> (r, current_term (state n), p) \<in> ballots c" for r
    using wf n by (auto simp: cluster_wf_def nodes_wf_def)
  show "role_earned vs (cluster_step p n' out c) n n'" if out: "out = Inr tr" and active: "role n' \<noteq> kFollower" for tr
  proof (cases "\<exists>m. msg = RequestVoteReply m")
    case True
    then obtain m where m: "msg = RequestVoteReply m" by blast
    note reply = receive_vote_reply [OF rec [unfolded m out] active]
    have "(q, rvr_term m, p) \<in> ballots c" if "granted m"
      using wf net m that by (auto simp: cluster_wf_def network_wf_def)
    with reply votes node configuration_quorum_stable [OF node(2)] show ?thesis
      by (auto simp: role_earned_def)
  next
    case False
    with receive_role [OF rec [unfolded out]] active show ?thesis
      by (simp add: role_kept_def role_earned_def)
  qed
  show "voted_for (state n') = Some (destination m) \<and> rvr_term reply = current_term (state n')"
    if "out = Inr tr" "m \<in> set (outbound tr)" "message m = RequestVoteReply reply" "granted reply" for tr m reply
    using receive_votes [OF rec [unfolded that(1)] that(2-4)] by simp
qed

lemma cluster_local_wf:
  assumes wf: "cluster_wf vs c" and n: "nodes c p = Some n" and call: "local_call n (n', out)"
    and stable: "stable_voters vs n'"
  shows "cluster_wf vs (cluster_step p n' out c)"
proof (rule cluster_wf_call [OF wf n call_local [OF call] stable])
  have node: "node_id n = p" "stable_voters vs n"
    using wf n by (auto simp: cluster_wf_def nodes_wf_def)
  show "role_earned vs (cluster_step p n' out c) n n'" if out: "out = Inr tr" and active: "role n' \<noteq> kFollower" for tr
    using local_call_role [OF call _ active, of tr] out node(1) configuration_quorum_stable [OF node(2)]
    by (auto simp: role_earned_def election_started_def)
  show "voted_for (state n') = Some (destination m) \<and> rvr_term reply = current_term (state n')"
    if "out = Inr tr" "m \<in> set (outbound tr)" "message m = RequestVoteReply reply" "granted reply" for tr m reply
    using local_call_no_votes [OF call, of n' tr] that by (auto simp: no_votes_def list_all_iff)
qed

lemma create_state:
  "create nid vs st lim = Inr n \<Longrightarrow> node_id n = nid \<and> role n = kFollower \<and>
     current_term (state n) = current_term st \<and> voted_for (state n) = voted_for st"
  by (auto simp: create_def create_checked_def initial_node_def Let_def make_unexpected_def
      split: if_splits sum.splits)

lemma cluster_restart_wf:
  assumes wf: "cluster_wf vs c" and n: "nodes c p = Some n"
    and new: "create p vs' (state n) (limits n) = Inr n'" and stable: "stable_voters vs n'"
  shows "cluster_wf vs (c\<lparr>nodes := (nodes c)(p \<mapsto> n')\<rparr>)"
proof -
  have "t \<le> current_term (state n) \<and> (t = current_term (state n) \<longrightarrow> voted_for (state n) = Some v)"
    if "(p, t, v) \<in> ballots c" for t v
    using wf n that unfolding cluster_wf_def ballot_wf_def by fastforce
  then show ?thesis
    using wf n stable create_wf [OF new] create_state [OF new]
    by (auto simp: cluster_wf_def ballot_wf_def network_wf_def nodes_wf_def leaders_wf_def)
qed

lemma create_empty_stable:
  assumes "create p vs empty_state lim = Inr n"
  shows "stable_voters (sort vs) n"
  using assms by (auto simp: create_def create_checked_def initial_node_def Let_def make_unexpected_def empty_state_def
      empty_snapshot_def derive_membership_def stable_voters_def split: if_splits sum.splits)

lemma cluster_reachable_wf: "cluster vs c \<Longrightarrow> cluster_wf (sort vs) c"
proof (induction rule: cluster.induct)
  case (cluster_start c vs)
  have "node_wf n \<and> node_id n = p \<and> stable_voters (sort vs) n \<and> role n = kFollower" if "nodes c p = Some n" for p n
    using cluster_start(1) [OF that] create_wf create_state create_empty_stable by blast
  with cluster_start show ?case
    by (auto simp: cluster_wf_def ballot_wf_def network_wf_def nodes_wf_def leaders_wf_def)
qed (blast intro: cluster_deliver_wf cluster_local_wf cluster_restart_wf)+

section \<open>An election\<close>

lemma sample_asked_reachable: "cluster [1, 2, 3] sample_asked"
proof -
  have "cluster [1, 2, 3] sample_start"
    using sample_created(1) sample_created_two
    by (intro cluster_start) (auto simp: sample_start_def split: if_splits)
  then show ?thesis
    unfolding sample_asked_def using call_start_election [of sample_node NoFault] sample_election
    by (intro cluster_local) (simp_all add: sample_start_def stable_voters_def sample_nodes)
qed

lemma sample_voted_reachable: "cluster [1, 2, 3] sample_voted"
  unfolding sample_voted_def using sample_asked_reachable sample_vote
    by (intro cluster_deliver [where q = 1 and n = "sample_node\<lparr>node_id := 2\<rparr>"])
      (simp_all add: sample_asked_def sample_start_def sent_by_def stable_voters_def sample_nodes)

lemma sample_elected_reachable: "cluster [1, 2, 3] sample_elected" "(1, 1) \<in> elected sample_elected"
proof -
  let ?r = "receive no_faults sample_candidate 2 (RequestVoteReply sample_reply)"
  obtain tr where r: "?r = (sample_leader, Inr tr)"
    using sample_win by blast
  have lead: "role sample_leader = kLeader" "current_term (state sample_leader) = 1"
    "stable_voters (sort [1, 2, 3]) sample_leader"
    by (simp_all add: sample_leader_def sample_nodes stable_voters_def)
  show "cluster [1, 2, 3] sample_elected"
    unfolding sample_elected_def using sample_voted_reachable r lead
    by (auto intro!: cluster_deliver [where q = 2 and n = sample_candidate]
        simp: sample_voted_def sample_asked_def sample_start_def sent_by_def)
  show "(1, 1) \<in> elected sample_elected"
    using r lead by (simp add: sample_elected_def)
qed

section \<open>Properties\<close>

text \<open>C1: election safety: in a cluster whose configuration does not change, two nodes are never leader in
  the same term, neither at the same time nor one after the other, although messages are lost,
  duplicated, delayed and reordered and nodes fail and restart.\<close>

theorem election_safety:
  assumes "cluster vs c" and "(t, a) \<in> elected c" and "(t, b) \<in> elected c"
  shows "a = b"
proof -
  have wf: "ballot_wf c" "leaders_wf (sort vs) c"
    using cluster_reachable_wf [OF assms(1)] by (simp_all add: cluster_wf_def)
  obtain q where "(q, t, a) \<in> ballots c" "(q, t, b) \<in> ballots c"
    using wf(2) assms(2,3) has_majority_intersect [of "sort vs" "\<lambda>q. (q, t, a) \<in> ballots c" "\<lambda>q. (q, t, b) \<in> ballots c"]
    unfolding leaders_wf_def by blast
  with wf(1) show ?thesis
    unfolding ballot_wf_def by blast
qed

theorem election_safety_witness:
  "cluster [1, 2, 3] sample_elected \<and> {b. (1, b) \<in> elected sample_elected} = {1}"
  using sample_elected_reachable election_safety [OF sample_elected_reachable(1)] by blast

end
