(* ===== verification/Spec2Isabelle.thy ===== *)
theory Spec2Isabelle
  imports Durable_Batch Raft_Quorum Log_Write Raft_Cluster
begin

text \<open>
  Verification of the consensus core of ChronosDB: the deterministic Raft node, the runtime that
  multiplexes many Raft groups over one physical log, the log itself with its byte formats and its
  recovery, and the batch executor that ties them together. Source paths below are relative to
  \<^verbatim>\<open>src/\<close> of the repository (so \<^verbatim>\<open>src/raft/node.cpp\<close> is \<^verbatim>\<open>src/src/raft/node.cpp\<close> seen from above it).

  \<^bold>\<open>The parts and how they interact.\<close> A \<^verbatim>\<open>RaftNode\<close> is a pure state machine: an operation gets a local
  request or a message, changes the node, and returns a transition: messages to send, and a copy of
  the persistent state when it changed. \<^verbatim>\<open>MultiRaftRuntime\<close> owns one node per group and numbers each
  persistent state with a node-wide physical sequence. \<^verbatim>\<open>RaftPersistentLog\<close> stores each numbered state as a
  checksummed record in segment files. \<^verbatim>\<open>DurableMultiRaftRuntime\<close> runs a batch of requests, appends
  the records, synchronizes once, and only then releases the results with their messages.

  \<^bold>\<open>How the code is modelled.\<close>
  \<^item> A struct is a \<^theory_text>\<open>record\<close>, an enumeration or variant a \<^theory_text>\<open>datatype\<close>. Identifiers, terms, indexes and
    sequences are 64-bit words, bytes are 8-bit words, so wrap-around is that of the code. Container sizes, file
    offsets and counts are natural numbers; \<^verbatim>\<open>Checked_Math\<close> relates them to the 64-bit checks.
  \<^item> \<^verbatim>\<open>Result<T>\<close> is the type \<^verbatim>\<open>'a result\<close>, a status code or a value. Operations of the node return the
    node afterwards and an \<^verbatim>\<open>'a outcome\<close>: its left side also has the exception of \<^verbatim>\<open>std::map::at\<close>.
  \<^item> Every \<^verbatim>\<open>try\<close> block that catches a failed allocation takes an \<^verbatim>\<open>AllocationFault\<close> as an input; theorems
    quantify over it, so they cover allocation failure at every such place.
  \<^item> Every system call takes its outcome from a script in the storage; a failing write may leave any
    prefix of its bytes. Theorems quantify over the script.
  \<^item> Loops are structural recursions, or recursions with a termination proof. There is no fuel:
    every function of the development is total.

  \<^bold>\<open>Theories, sources, and what is shown.\<close>
  \<^item> \<^verbatim>\<open>Prelude\<close>, \<^verbatim>\<open>Checked_Math\<close>, \<^verbatim>\<open>Byte_Codec\<close>, \<^verbatim>\<open>Crc32c\<close>, \<^verbatim>\<open>Sealed_Block\<close>, \<^verbatim>\<open>Ordered_Map\<close>
    (\<^verbatim>\<open>common/status.hpp\<close>, \<^verbatim>\<open>checked_math.hpp\<close>, \<^verbatim>\<open>byte_reader.cpp\<close>, \<^verbatim>\<open>byte_writer.cpp\<close>, \<^verbatim>\<open>crc32c.cpp\<close>): exactness
    of the checked arithmetic, cursors that never leave the buffer, CRC32C equal to its bitwise definition
    and sensitive to every change within four bytes. The locales \<^verbatim>\<open>codec_field\<close>, \<^verbatim>\<open>fixed_field\<close>,
    \<^verbatim>\<open>sealed_block\<close> and \<^verbatim>\<open>dictionary\<close> are the interfaces that the codecs and the runtimes use.
  \<^item> \<^verbatim>\<open>Raft_Types\<close>, \<^verbatim>\<open>Membership\<close>, \<^verbatim>\<open>Raft_Membership\<close>, \<^verbatim>\<open>Raft_Node\<close>, \<^verbatim>\<open>Raft_Operations\<close>, \<^verbatim>\<open>Raft_Receive\<close>
    (\<^verbatim>\<open>raft/types.hpp\<close>, \<^verbatim>\<open>raft/membership.cpp\<close>, \<^verbatim>\<open>raft/node.cpp\<close>): the whole node, one definition per
    public operation and helper, and the codec of membership commands with its round trips.
  \<^item> \<^verbatim>\<open>Raft_Log\<close>, \<^verbatim>\<open>Raft_Quorum\<close>, \<^verbatim>\<open>Raft_Invariant\<close>, \<^verbatim>\<open>Raft_Local_Invariant\<close>, \<^verbatim>\<open>Raft_Append\<close>,
    \<^verbatim>\<open>Raft_Receive_Invariant\<close>, \<^verbatim>\<open>Raft_Recovery\<close>, \<^verbatim>\<open>Raft_Fanout\<close>: the invariant \<^verbatim>\<open>node_wf\<close> and its preservation
    by all operations and by all messages from anywhere, the bound on emitted messages, and that
    \<^verbatim>\<open>create\<close> accepts exactly the states that satisfy the invariant.
  \<^item> \<^verbatim>\<open>Raft_Run\<close>, \<^verbatim>\<open>Raft_Samples\<close>, \<^verbatim>\<open>Raft_Decisions\<close>, \<^verbatim>\<open>Raft_Replication\<close>: runs of one node as a step relation
    (operations, messages, failed allocations, restarts), stability of committed entries, one vote
    per term, and the exact conditions of votes, commits, accepted entries and read barriers.
  \<^item> \<^verbatim>\<open>Raft_Election\<close>, \<^verbatim>\<open>Raft_Cluster\<close>: nodes over a lossy, duplicating and reordering network, and
    election safety for a configuration that does not change.
  \<^item> \<^verbatim>\<open>Multi_Raft_Types\<close>, \<^verbatim>\<open>Multi_Raft\<close> (\<^verbatim>\<open>raft/multi_raft.cpp\<close>): the locale \<^verbatim>\<open>node_operation\<close> states what the
    runtime needs of a node operation; it is interpreted on all twelve, which gives numbering,
    isolation of groups and failing closed.
  \<^item> \<^verbatim>\<open>Multiplexed_Log\<close>, \<^verbatim>\<open>Multiplexed_Log_Codec\<close>, \<^verbatim>\<open>Segment_Codec\<close> (\<^verbatim>\<open>raft/multiplexed_log.cpp\<close>, formats in
    \<^verbatim>\<open>raft/persistent_log.cpp\<close>): records, segment headers, recovery anchors and file names, their round
    trips and the detection of damage.
  \<^item> \<^verbatim>\<open>Storage\<close>, \<^verbatim>\<open>Persistent_Log\<close>, \<^verbatim>\<open>Log_Recovery\<close> (\<^verbatim>\<open>raft/persistent_log.cpp\<close>), and on them \<^verbatim>\<open>Log_Image\<close>, \<^verbatim>\<open>Log_Scan\<close>,
    \<^verbatim>\<open>Log_Names\<close>, \<^verbatim>\<open>Log_Open\<close>, \<^verbatim>\<open>Log_Disk\<close>, \<^verbatim>\<open>Log_Write\<close>: a view is what a log directory is meant to contain.
    Opening a directory that holds a view succeeds and represents it, torn tails and stale files
    included, and what a crash leaves of the storage of a running log is such a directory.
  \<^item> \<^verbatim>\<open>Durable_Runtime\<close>, \<^verbatim>\<open>Durable_Batch\<close> (\<^verbatim>\<open>raft/durable_runtime.cpp\<close>, \<^verbatim>\<open>durable_batch_admission.hpp\<close>): construction,
    recovery, batches, checkpoints and proofs of durability. A batch releases messages only after the
    states behind them are synchronized, respects the admitted number of messages, leaves other
    groups alone, and stops the runtime when it fails half way.

  \<^bold>\<open>Bounds.\<close> The samples use the default limits of the node, one to three voters, and segments of 64 KiB;
  the theorems hold for all limits that the constructors accept.

  \<^bold>\<open>Not modelled, and why.\<close>
  \<^item> Status messages, logging, clocks, UUID generation: they carry no state that an operation reads.
  \<^item> Threads: \<^verbatim>\<open>async_durable_runtime.cpp\<close>, the timer driver and the network servers wrap the modelled
    runtime in queues and condition variables; the model is the sequential owner they call.
  \<^item> The storage engine above consensus (write-ahead log, columnar segments, manifests, the mutable head,
    ingest, query, live subscriptions, tiering), the metadata and rebalancing state machines, and
    the wire codec of the transport: they are separate subsystems that call the modelled parts
    and that the modelled parts do not call.
  \<^item> File locks and permissions beyond success or failure, and the floating-point casts of the byte cursors.
  \<^item> Election safety across membership changes, and leader completeness: the cluster relation fixes the
    configuration. The commit rule of a follower (last section of \<^verbatim>\<open>Raft_Decisions\<close>) excludes the usual log
    matching argument for committed entries of different nodes, so it is stated per node only.
\<close>

end
